(* ===== verification/Prelude.thy ===== *)
theory Prelude
  imports Main "HOL-Library.Word"
begin

text \<open>
  Shared vocabulary of the development: the machine types of the Go sources, Go's run-time
  failures as values, checked indexing and slicing, the big-endian helpers of
  \<^verbatim>\<open>encoding/binary\<close>, the conversion between Go strings and byte slices, and a reader as the
  list of the bytes it still holds.  The collection \<open>go_simps\<close> carries the evaluation of all
  of these, so that the component proofs are case splits on the guards of the code.
\<close>

unbundle bit_operations_syntax

named_theorems go_simps \<open>evaluation of the Go helper functions\<close>

section \<open>Machine types\<close>

type_synonym byte = "8 word"
type_synonym bytes = "8 word list"
type_synonym uint16 = "16 word"
type_synonym uint32 = "32 word"
type_synonym uint64 = "64 word"

section \<open>Errors and panics\<close>

text \<open>
  A Go function returns an error value or a result, or it panics.  Both ways of failing are
  kept apart: \<open>Error\<close> is the returned \<^verbatim>\<open>error\<close> with its message, \<open>Panic\<close> is a run-time panic.
\<close>

datatype failure = Error string | Panic string

type_synonym 'a result = "failure + 'a"

fun bind_r :: "'a result \<Rightarrow> ('a \<Rightarrow> 'b result) \<Rightarrow> 'b result" where
  "bind_r (Inl e) f = Inl e"
| "bind_r (Inr a) f = f a"

fun panics :: "'a result \<Rightarrow> bool" where
  "panics (Inl (Panic m)) = True"
| "panics _ = False"

lemma bind_r_eq_Inr: "bind_r r f = Inr b \<longleftrightarrow> (\<exists>a. r = Inr a \<and> f a = Inr b)"
  by (cases r) auto

lemma bind_r_panics: "panics (bind_r r f) \<longleftrightarrow> panics r \<or> (\<exists>a. r = Inr a \<and> panics (f a))"
  by (cases r) (auto elim: panics.elims)

lemma panics_Inr [simp]: "\<not> panics (Inr a)"
  by simp

section \<open>Slices\<close>

text \<open>Indexing and slicing panic out of range; \<^verbatim>\<open>xs[i:j]\<close> needs \<open>i \<le> j \<le> len(xs)\<close>.\<close>

definition idx :: "'a list \<Rightarrow> nat \<Rightarrow> 'a result" where
  "idx xs i = (if i < length xs then Inr (xs ! i) else Inl (Panic ''index out of range''))"

definition subslice :: "'a list \<Rightarrow> nat \<Rightarrow> nat \<Rightarrow> 'a list result" where
  "subslice xs i j = (if i \<le> j \<and> j \<le> length xs then Inr (take (j - i) (drop i xs))
     else Inl (Panic ''slice bounds out of range''))"

lemma idx_in [go_simps]: "i < length xs \<Longrightarrow> idx xs i = Inr (xs ! i)"
  by (simp add: idx_def)

lemma subslice_in [go_simps]:
  "i \<le> j \<Longrightarrow> j \<le> length xs \<Longrightarrow> subslice xs i j = Inr (take (j - i) (drop i xs))"
  by (simp add: subslice_def)

lemma subslice_panics: "panics (subslice xs i j) \<longleftrightarrow> \<not> (i \<le> j \<and> j \<le> length xs)"
  by (auto simp: subslice_def)

lemma subslice_eq_Inr:
  "subslice xs i j = Inr ys \<longleftrightarrow> i \<le> j \<and> j \<le> length xs \<and> ys = take (j - i) (drop i xs)"
  by (auto simp: subslice_def)

section \<open>Big-endian integers\<close>

text \<open>
  \<^verbatim>\<open>binary.BigEndian.Uint16/Uint32\<close> and their \<open>Put\<close> counterparts, byte by byte as the Go
  library computes them.
\<close>

definition hi16 :: "uint16 \<Rightarrow> byte" where
  "hi16 w = ucast (drop_bit 8 w)"

definition lo16 :: "uint16 \<Rightarrow> byte" where
  "lo16 w = ucast w"

definition be_uint16 :: "byte \<Rightarrow> byte \<Rightarrow> uint16" where
  "be_uint16 b0 b1 = push_bit 8 (ucast b0) OR ucast b1"

definition put_uint16 :: "uint16 \<Rightarrow> bytes" where
  "put_uint16 w = [hi16 w, lo16 w]"

definition be_uint32 :: "byte \<Rightarrow> byte \<Rightarrow> byte \<Rightarrow> byte \<Rightarrow> uint32" where
  "be_uint32 b0 b1 b2 b3 =
     push_bit 24 (ucast b0) OR push_bit 16 (ucast b1) OR push_bit 8 (ucast b2) OR ucast b3"

definition put_uint32 :: "uint32 \<Rightarrow> bytes" where
  "put_uint32 w = [ucast (drop_bit 24 w), ucast (drop_bit 16 w), ucast (drop_bit 8 w), ucast w]"

definition put_uint64 :: "uint64 \<Rightarrow> bytes" where
  "put_uint64 w = [ucast (drop_bit 56 w), ucast (drop_bit 48 w), ucast (drop_bit 40 w),
     ucast (drop_bit 32 w), ucast (drop_bit 24 w), ucast (drop_bit 16 w),
     ucast (drop_bit 8 w), ucast w]"

text \<open>\<^verbatim>\<open>BigEndian.Uint16(b)\<close> reads \<^verbatim>\<open>b[1]\<close> and \<^verbatim>\<open>b[0]\<close>: it panics on a shorter subslice.\<close>

fun Uint16 :: "bytes \<Rightarrow> uint16 result" where
  "Uint16 (b0 # b1 # _) = Inr (be_uint16 b0 b1)"
| "Uint16 _ = Inl (Panic ''index out of range'')"

fun Uint32 :: "bytes \<Rightarrow> uint32 result" where
  "Uint32 (b0 # b1 # b2 # b3 # _) = Inr (be_uint32 b0 b1 b2 b3)"
| "Uint32 _ = Inl (Panic ''index out of range'')"

lemma length_put_uint16 [simp]: "length (put_uint16 w) = 2"
  by (simp add: put_uint16_def)

lemma length_put_uint32 [simp]: "length (put_uint32 w) = 4"
  by (simp add: put_uint32_def)

lemma length_put_uint64 [simp]: "length (put_uint64 w) = 8"
  by (simp add: put_uint64_def)

lemma be_put_uint16 [simp]: "be_uint16 (hi16 w) (lo16 w) = w"
  unfolding be_uint16_def hi16_def lo16_def
  by (rule bit_word_eqI) (auto simp: bit_simps)

lemma hi16_be [simp]: "hi16 (be_uint16 a b) = a"
  unfolding be_uint16_def hi16_def
  by (rule bit_word_eqI) (auto simp: bit_simps dest: bit_imp_le_length)

lemma lo16_be [simp]: "lo16 (be_uint16 a b) = b"
  unfolding be_uint16_def lo16_def
  by (rule bit_word_eqI) (auto simp: bit_simps)

lemma be_put_uint32 [simp]:
  "be_uint32 (ucast (drop_bit 24 w)) (ucast (drop_bit 16 w)) (ucast (drop_bit 8 w)) (ucast w) = w"
  unfolding be_uint32_def
proof (rule bit_word_eqI)
  fix n assume "n < LENGTH(32)"
  then consider "n < 8" | "8 \<le> n" "n < 16" | "16 \<le> n" "n < 24" | "24 \<le> n" "n < 32"
    by fastforce
  then show "bit (push_bit 24 (ucast (ucast (drop_bit 24 w) :: byte)) OR
      push_bit 16 (ucast (ucast (drop_bit 16 w) :: byte)) OR
      push_bit 8 (ucast (ucast (drop_bit 8 w) :: byte)) OR ucast (ucast w :: byte) :: uint32) n
      = bit w n"
    by cases (auto simp: bit_simps)
qed

lemma Uint16_put [simp]: "Uint16 (put_uint16 w @ rest) = Inr w"
  by (simp add: put_uint16_def)

lemma Uint32_put [simp]: "Uint32 (put_uint32 w @ rest) = Inr w"
  by (simp add: put_uint32_def)

lemma Uint16_ok: "2 \<le> length b \<Longrightarrow> Uint16 b = Inr (be_uint16 (b ! 0) (b ! 1))"
  by (cases b rule: Uint16.cases) auto

lemma Uint32_ok:
  "4 \<le> length b \<Longrightarrow> Uint32 b = Inr (be_uint32 (b ! 0) (b ! 1) (b ! 2) (b ! 3))"
  by (cases b rule: Uint32.cases) (auto simp: numeral_2_eq_2 numeral_3_eq_3)

lemma unat_byte_less [simp]: "unat (b :: byte) < 256"
  using unsigned_less [of b] by simp

lemma unat_byte_le [simp]: "unat (b :: byte) \<le> 255"
  using unat_byte_less [of b] by linarith

lemma unat_uint16_less [simp]: "unat (w :: uint16) < 65536"
  using unsigned_less [of w] by simp

lemma unat_hi_lo: "256 * unat (hi16 w) + unat (lo16 w) = unat w"
proof -
  have "unat (hi16 w) = unat w div 256 mod 256" "unat (lo16 w) = unat w mod 256"
    by (simp_all add: hi16_def lo16_def unsigned_ucast_eq unsigned_drop_bit_eq take_bit_eq_mod drop_bit_eq_div unat_div_distrib)
  moreover have "unat w div 256 < 256" using unat_uint16_less [of w] by (intro less_mult_imp_div_less) simp
  ultimately show ?thesis by simp
qed

lemma unat_of_nat_uint32: "n < 4294967296 \<Longrightarrow> unat (of_nat n :: uint32) = n"
  by (simp add: unsigned_of_nat take_bit_nat_eq_self_iff)

lemma unat_of_nat_byte: "unat (of_nat n :: byte) = n mod 256"
  by (simp add: unat_of_nat)

lemma unat_of_nat_uint16: "unat (of_nat n :: uint16) = n mod 65536"
  by (simp add: unat_of_nat)

section \<open>Strings and byte slices\<close>

text \<open>
  A Go string is an immutable byte sequence: \<^verbatim>\<open>[]byte(s)\<close> and \<^verbatim>\<open>string(b)\<close> convert without loss.
\<close>

definition byte_of_char :: "char \<Rightarrow> byte" where
  "byte_of_char c = of_nat (of_char c)"

definition char_of_byte :: "byte \<Rightarrow> char" where
  "char_of_byte b = char_of (unat b)"

definition to_bytes :: "string \<Rightarrow> bytes" where
  "to_bytes s = map byte_of_char s"

definition to_string :: "bytes \<Rightarrow> string" where
  "to_string b = map char_of_byte b"

lemma char_of_byte_of_char [simp]: "char_of_byte (byte_of_char c) = c"
proof -
  have "(of_char c :: nat) < 256" by (simp add: less_eq_Suc_le of_char_def)
  then show ?thesis by (simp add: char_of_byte_def byte_of_char_def unat_of_nat_byte)
qed

lemma byte_of_char_of_byte [simp]: "byte_of_char (char_of_byte b) = b"
  by (simp add: char_of_byte_def byte_of_char_def)

lemma to_string_to_bytes [simp]: "to_string (to_bytes s) = s"
  by (simp add: to_string_def to_bytes_def comp_def)

lemma to_bytes_to_string [simp]: "to_bytes (to_string b) = b"
  by (simp add: to_string_def to_bytes_def comp_def)

lemma length_to_bytes [simp]: "length (to_bytes s) = length s"
  by (simp add: to_bytes_def)

lemma length_to_string [simp]: "length (to_string b) = length b"
  by (simp add: to_string_def)

lemma to_bytes_append [simp]: "to_bytes (s @ t) = to_bytes s @ to_bytes t"
  by (simp add: to_bytes_def)

lemma to_string_append [simp]: "to_string (a @ b) = to_string a @ to_string b"
  by (simp add: to_string_def)

lemma to_bytes_Nil_iff [simp]: "to_bytes s = [] \<longleftrightarrow> s = []"
  by (simp add: to_bytes_def)

lemma to_string_Nil_iff [simp]: "to_string b = [] \<longleftrightarrow> b = []"
  by (simp add: to_string_def)

lemma to_string_Nil [simp]: "to_string [] = []"
  by (simp add: to_string_def)

lemma to_bytes_inj [simp]: "to_bytes s = to_bytes t \<longleftrightarrow> s = t"
  by (metis to_string_to_bytes)

section \<open>Decimal printing\<close>

text \<open>\<^verbatim>\<open>fmt.Sprintf("%d", n)\<close>, and the reading that inverts it.\<close>

fun show_nat :: "nat \<Rightarrow> string" where
  "show_nat n = (if n < 10 then [char_of (48 + n)]
     else show_nat (n div 10) @ [char_of (48 + n mod 10)])"

declare show_nat.simps [simp del]

definition digit_val :: "char \<Rightarrow> nat" where
  "digit_val c = of_char c - 48"

definition read_nat :: "string \<Rightarrow> nat" where
  "read_nat s = foldl (\<lambda>acc c. 10 * acc + digit_val c) 0 s"

definition show_int :: "int \<Rightarrow> string" where
  "show_int i = (if i < 0 then CHR ''-'' # show_nat (nat (- i)) else show_nat (nat i))"

lemma digit_val_char [simp]: "d < 10 \<Longrightarrow> digit_val (char_of (48 + d)) = d"
  by (simp add: digit_val_def)

lemma read_show_nat [simp]: "read_nat (show_nat n) = n"
proof (induction n rule: show_nat.induct)
  case (1 n)
  show ?case
  proof (cases "n < 10")
    case True
    then show ?thesis by (subst show_nat.simps) (simp add: read_nat_def)
  next
    case False
    with "1.IH" have "read_nat (show_nat (n div 10)) = n div 10" by simp
    with False show ?thesis by (subst show_nat.simps) (simp add: read_nat_def)
  qed
qed

lemma show_nat_inj [simp]: "show_nat m = show_nat n \<longleftrightarrow> m = n"
  by (metis read_show_nat)

lemma show_nat_not_Nil [simp]: "show_nat n \<noteq> []"
  by (subst show_nat.simps) simp

lemma show_nat_hd_digit: "48 \<le> (of_char (hd (show_nat n)) :: nat)"
proof (induction n rule: show_nat.induct)
  case (1 n)
  then show ?case by (subst show_nat.simps) (simp add: hd_append)
qed

lemma show_int_inj [simp]: "show_int i = show_int j \<longleftrightarrow> i = j"
proof -
  have hd_minus: "show_nat n \<noteq> CHR ''-'' # t" for n t
  proof
    assume "show_nat n = CHR ''-'' # t"
    then have "(of_char (hd (show_nat n)) :: nat) = of_char (CHR ''-'')" by simp
    with show_nat_hd_digit [of n] show False by simp
  qed
  show ?thesis
    by (auto simp: show_int_def hd_minus hd_minus [symmetric] dest: sym split: if_splits)
qed

text \<open>
  \<^verbatim>\<open>strconv.ParseInt\<close> on a whole decimal string, and \<^verbatim>\<open>fmt.Sscanf(s, "%d", &v)\<close>, which skips blanks,
  reads the longest decimal prefix and leaves \<open>v\<close> alone when there is none.
\<close>

definition is_digit :: "char \<Rightarrow> bool" where
  "is_digit c \<longleftrightarrow> 48 \<le> (of_char c :: nat) \<and> (of_char c :: nat) \<le> 57"

fun parse_int :: "string \<Rightarrow> int option" where
  "parse_int [] = None"
| "parse_int (c # cs) =
     (if c = CHR ''-'' then (if cs \<noteq> [] \<and> list_all is_digit cs then Some (- int (read_nat cs)) else None)
      else if c = CHR ''+'' then (if cs \<noteq> [] \<and> list_all is_digit cs then Some (int (read_nat cs)) else None)
      else if list_all is_digit (c # cs) then Some (int (read_nat (c # cs))) else None)"

definition parse_int64 :: "string \<Rightarrow> int option" where
  "parse_int64 s = (case parse_int s of None \<Rightarrow> None
     | Some v \<Rightarrow> if - (2 ^ 63) \<le> v \<and> v < 2 ^ 63 then Some v else None)"

definition sscanf_d :: "string \<Rightarrow> int \<Rightarrow> int" where
  "sscanf_d s old =
     (let t = dropWhile (\<lambda>c. c = CHR '' '') s;
          sign = (if t \<noteq> [] \<and> (hd t = CHR ''-'' \<or> hd t = CHR ''+'') then [hd t] else []);
          digits = takeWhile is_digit (drop (length sign) t)
      in case parse_int64 (sign @ digits) of Some v \<Rightarrow> v | None \<Rightarrow> old)"

lemma is_digit_char [simp]: "(d :: nat) < 10 \<Longrightarrow> is_digit (char_of (48 + d))"
  by (simp add: is_digit_def)

lemma show_nat_digits: "list_all is_digit (show_nat n)"
proof (induction n rule: show_nat.induct)
  case (1 n)
  then show ?case by (subst show_nat.simps) simp
qed

lemma parse_show_int [simp]: "parse_int (show_int i) = Some i"
proof -
  obtain c cs where n: "show_nat (nat i) = c # cs" by (cases "show_nat (nat i)") auto
  then have "is_digit c" using show_nat_digits [of "nat i"] by simp
  then have "c \<noteq> CHR ''-''" and "c \<noteq> CHR ''+''" by (auto simp: is_digit_def)
  then show ?thesis
    using n show_nat_digits [of "nat i"] show_nat_digits [of "nat (- i)"] read_show_nat [of "nat i"]
    by (auto simp: show_int_def)
qed

section \<open>64-bit integers and durations\<close>

text \<open>Go's \<^verbatim>\<open>int64\<close> kept as \<open>int\<close>, with the wrap-around of the type; durations count nanoseconds.\<close>

definition wrap64 :: "int \<Rightarrow> int" where
  "wrap64 x = (x + 2 ^ 63) mod 2 ^ 64 - 2 ^ 63"

abbreviation second :: int where "second \<equiv> 1000000000"
abbreviation hour :: int where "hour \<equiv> 3600000000000"

lemma wrap64_id [simp]: "- (2 ^ 63) \<le> x \<Longrightarrow> x < 2 ^ 63 \<Longrightarrow> wrap64 x = x"
  by (simp add: wrap64_def)

lemma wrap64_range: "- (2 ^ 63) \<le> wrap64 x \<and> wrap64 x < 2 ^ 63"
  by (simp add: wrap64_def)

text \<open>\<^verbatim>\<open>fmt.Errorf("...: %w", err)\<close> puts a prefix before an error; a panic is not an error value.\<close>

fun wrap_error :: "string \<Rightarrow> failure \<Rightarrow> failure" where
  "wrap_error pre (Error e) = Error (pre @ e)"
| "wrap_error pre (Panic e) = Panic e"

text \<open>The text of an error.\<close>

definition show_failure :: "failure \<Rightarrow> string" where
  "show_failure e = (case e of Error m \<Rightarrow> m | Panic m \<Rightarrow> m)"

section \<open>A marshalling of string records\<close>

text \<open>
  Structures travel as JSON, which is the standard library's business and a parameter of the model.
  Length-prefixed strings are one marshalling that loses nothing; witnesses use it to show that
  the laws asked of the parameter can hold.
\<close>

definition enc_str :: "string \<Rightarrow> string" where
  "enc_str s = show_nat (length s) @ '':'' @ s"

definition dec_str :: "string \<Rightarrow> (string \<times> string) option" where
  "dec_str t = (case dropWhile is_digit t of
     [] \<Rightarrow> None
   | c # r \<Rightarrow> let n = read_nat (takeWhile is_digit t) in if n \<le> length r then Some (take n r, drop n r) else None)"

fun dec_strs :: "nat \<Rightarrow> string \<Rightarrow> string list option" where
  "dec_strs 0 t = Some []"
| "dec_strs (Suc n) t = (case dec_str t of None \<Rightarrow> None | Some (s, r) \<Rightarrow> map_option (\<lambda>ss. s # ss) (dec_strs n r))"

lemma dec_enc_str [simp]: "dec_str (enc_str s @ r) = Some (s, r)"
proof -
  have digits: "\<forall>c \<in> set (show_nat n). is_digit c" for n
    using show_nat_digits [of n] by (simp add: list_all_iff)
  have colon: "\<not> is_digit (CHR '':'')" by (simp add: is_digit_def)
  have "dropWhile is_digit (show_nat n @ CHR '':'' # x) = CHR '':'' # x"
    "takeWhile is_digit (show_nat n @ CHR '':'' # x) = show_nat n" for n x
    using digits [of n] colon by (simp_all add: dropWhile_append2 takeWhile_append2)
  then show ?thesis by (simp add: dec_str_def enc_str_def)
qed

lemma dec_enc_strs [simp]: "dec_strs (length ss) (concat (map enc_str ss) @ r) = Some ss"
  by (induction ss) simp_all

lemma dec_enc_strs_end: "n = length ss \<Longrightarrow> dec_strs n (concat (map enc_str ss)) = Some ss"
  using dec_enc_strs [of ss "[]"] by simp

section \<open>Readers\<close>

text \<open>
  An \<^verbatim>\<open>io.Reader\<close> is the list of bytes it still delivers before it ends.  \<^verbatim>\<open>io.ReadFull\<close> either
  takes exactly the requested bytes or fails: with \<^verbatim>\<open>EOF\<close> when nothing could be read and with
  \<^verbatim>\<open>unexpected EOF\<close> when the reader ended in the middle.
\<close>

definition ReadFull :: "bytes \<Rightarrow> nat \<Rightarrow> (bytes \<times> bytes) result" where
  "ReadFull r n = (if n \<le> length r then Inr (take n r, drop n r)
     else if r = [] then Inl (Error ''EOF'') else Inl (Error ''unexpected EOF''))"

lemma ReadFull_append [go_simps]: "length xs = n \<Longrightarrow> ReadFull (xs @ r) n = Inr (xs, r)"
  by (simp add: ReadFull_def)

lemma ReadFull_no_panic [simp]: "\<not> panics (ReadFull r n)"
  by (simp add: ReadFull_def)

lemma ReadFull_eq_Inr: "ReadFull r n = Inr (xs, r') \<longleftrightarrow> r = xs @ r' \<and> length xs = n"
  by (auto simp: ReadFull_def split: if_splits)

section \<open>Maps iterated in an arbitrary order\<close>

text \<open>
  Go iterates over a map in an unspecified order.  A loop over a map takes that order as the
  list of keys it visits; \<open>key_order\<close> says that the list is one such order.
\<close>

definition key_order :: "('k \<rightharpoonup> 'v) \<Rightarrow> 'k list \<Rightarrow> bool" where
  "key_order m ks \<longleftrightarrow> distinct ks \<and> set ks = dom m"

lemma key_orderD: "key_order m ks \<Longrightarrow> k \<in> set ks \<longleftrightarrow> m k \<noteq> None"
  by (auto simp: key_order_def)

end
