(* ===== verification/Mqttsn.thy ===== *)
theory Mqttsn
  imports Prelude
begin

text \<open>
  The MQTT-SN wire format of \<^verbatim>\<open>internal/protocol/iot/mqttsn\<close>: the message types, the frame
  parser \<open>ParseMessage\<close> that every UDP, DTLS and QUIC packet goes through, the buffered
  encoder, the stream decoder, the per-message decoders and the gateway's extension messages
  (STATUS, FETCH, CMD, CMDACK, RETRYINFO).  Indexing and slicing are checked, so that the
  absence of panics is a theorem and not a convention.
\<close>

section \<open>Message types (message.go, ext.go)\<close>

definition CONNECT :: byte where "CONNECT = 0x04"
definition CONNACK :: byte where "CONNACK = 0x05"
definition REGISTER :: byte where "REGISTER = 0x0A"
definition REGACK :: byte where "REGACK = 0x0B"
definition PUBLISH :: byte where "PUBLISH = 0x0C"
definition PUBACK :: byte where "PUBACK = 0x0D"
definition SUBSCRIBE :: byte where "SUBSCRIBE = 0x12"
definition SUBACK :: byte where "SUBACK = 0x13"
definition UNSUBSCRIBE :: byte where "UNSUBSCRIBE = 0x14"
definition UNSUBACK :: byte where "UNSUBACK = 0x15"
definition PINGREQ :: byte where "PINGREQ = 0x16"
definition PINGRESP :: byte where "PINGRESP = 0x17"
definition DISCONNECT :: byte where "DISCONNECT = 0x18"
definition STATUS :: byte where "STATUS = 0x1E"
definition FETCH :: byte where "FETCH = 0x1F"
definition CMD :: byte where "CMD = 0x20"
definition CMDACK :: byte where "CMDACK = 0x21"
definition RETRYINFO :: byte where "RETRYINFO = 0x22"

lemmas msg_type_defs = CONNECT_def CONNACK_def REGISTER_def REGACK_def PUBLISH_def PUBACK_def
  SUBSCRIBE_def SUBACK_def UNSUBSCRIBE_def UNSUBACK_def PINGREQ_def PINGRESP_def DISCONNECT_def
  STATUS_def FETCH_def CMD_def CMDACK_def RETRYINFO_def

section \<open>Message structures\<close>

record ConnectMessage =
  conn_Flags :: byte
  conn_ProtocolID :: byte
  conn_Duration :: uint16
  conn_ClientID :: string

record PublishMessage =
  pub_Flags :: byte
  pub_TopicID :: uint16
  pub_MsgID :: uint16
  pub_Data :: bytes

section \<open>Parsing a packet\<close>

definition ParseMessage :: "bytes \<Rightarrow> (byte \<times> bytes) result" where
  "ParseMessage data =
     (if length data < 2 then Inl (Error ''packet too short'')
      else bind_r (idx data 0) (\<lambda>b0.
        bind_r
          (if b0 = 0x01
           then if length data < 4 then Inl (Error ''packet too short for 3-byte length'')
             else bind_r (subslice data 1 3) (\<lambda>s. bind_r (Uint16 s) (\<lambda>w. Inr (unat w, 3)))
           else Inr (unat b0, 1))
        (\<lambda>(msgLength, msgTypeIndex).
          if msgLength < msgTypeIndex + 1 then Inl (Error ''invalid packet length'')
          else if msgLength > length data then Inl (Error ''packet length mismatch'')
          else bind_r (idx data msgTypeIndex) (\<lambda>t.
            bind_r (subslice data (msgTypeIndex + 1) msgLength) (\<lambda>body. Inr (t, body))))))"

section \<open>The encoder (codec.go)\<close>

record Encoder =
  enc_buffer :: bytes

definition NewEncoder :: Encoder where
  "NewEncoder = \<lparr>enc_buffer = []\<rparr>"

definition buffer_write :: "Encoder \<Rightarrow> bytes \<Rightarrow> Encoder" where
  "buffer_write e b = e\<lparr>enc_buffer := enc_buffer e @ b\<rparr>"

definition writeLength :: "Encoder \<Rightarrow> int \<Rightarrow> unit result \<times> Encoder" where
  "writeLength e len =
     (if len < 0 \<or> len > 65535 then (Inl (Error ''invalid message length''), e)
      else if len \<le> 255 then (Inr (), buffer_write e [of_int len])
      else (Inr (), buffer_write e (0x01 # put_uint16 (of_int len))))"

definition Encoder_EncodeConnect :: "Encoder \<Rightarrow> ConnectMessage \<Rightarrow> bytes result \<times> Encoder" where
  "Encoder_EncodeConnect e msg =
     (let e0 = e\<lparr>enc_buffer := []\<rparr>;
          len = 6 + int (length (conn_ClientID msg))
      in case writeLength e0 len of
           (Inl err, e1) \<Rightarrow> (Inl err, e1)
         | (Inr _, e1) \<Rightarrow>
             let e2 = buffer_write e1 [CONNECT];
                 e3 = buffer_write e2 [conn_Flags msg];
                 e4 = buffer_write e3 [conn_ProtocolID msg];
                 e5 = buffer_write e4 (put_uint16 (conn_Duration msg));
                 e6 = buffer_write e5 (to_bytes (conn_ClientID msg))
             in (Inr (enc_buffer e6), e6))"

definition Encoder_EncodePublish :: "Encoder \<Rightarrow> PublishMessage \<Rightarrow> bytes result \<times> Encoder" where
  "Encoder_EncodePublish e msg =
     (let e0 = e\<lparr>enc_buffer := []\<rparr>;
          len = 7 + int (length (pub_Data msg))
      in case writeLength e0 len of
           (Inl err, e1) \<Rightarrow> (Inl err, e1)
         | (Inr _, e1) \<Rightarrow>
             let e2 = buffer_write e1 [PUBLISH];
                 e3 = buffer_write e2 [pub_Flags msg];
                 e4 = buffer_write e3 (put_uint16 (pub_TopicID msg));
                 e5 = buffer_write e4 (put_uint16 (pub_MsgID msg));
                 e6 = buffer_write e5 (pub_Data msg)
             in (Inr (enc_buffer e6), e6))"

definition Encoder_EncodeSubscribe ::
    "Encoder \<Rightarrow> uint16 \<Rightarrow> string \<Rightarrow> byte \<Rightarrow> bytes result \<times> Encoder" where
  "Encoder_EncodeSubscribe e msgID topicName qos =
     (let e0 = e\<lparr>enc_buffer := []\<rparr>;
          len = 5 + int (length topicName)
      in case writeLength e0 len of
           (Inl err, e1) \<Rightarrow> (Inl err, e1)
         | (Inr _, e1) \<Rightarrow>
             let e2 = buffer_write e1 [SUBSCRIBE];
                 e3 = buffer_write e2 (put_uint16 msgID);
                 e4 = buffer_write e3 (to_bytes topicName);
                 e5 = buffer_write e4 [qos]
             in (Inr (enc_buffer e5), e5))"

definition EncodeConnect :: "ConnectMessage \<Rightarrow> bytes result" where
  "EncodeConnect msg = fst (Encoder_EncodeConnect NewEncoder msg)"

definition EncodePublish :: "PublishMessage \<Rightarrow> bytes result" where
  "EncodePublish msg = fst (Encoder_EncodePublish NewEncoder msg)"

definition EncodeSubscribe :: "uint16 \<Rightarrow> string \<Rightarrow> byte \<Rightarrow> bytes result" where
  "EncodeSubscribe msgID topicName qos = fst (Encoder_EncodeSubscribe NewEncoder msgID topicName qos)"

section \<open>The stream decoder (codec.go)\<close>

text \<open>The decoder's reader is the bytes it still delivers; each operation returns the rest.\<close>

definition readByte :: "bytes \<Rightarrow> (byte \<times> bytes) result" where
  "readByte r = bind_r (ReadFull r 1) (\<lambda>(b, r'). bind_r (idx b 0) (\<lambda>x. Inr (x, r')))"

definition readLength :: "bytes \<Rightarrow> (nat \<times> bytes) result" where
  "readLength r = bind_r (readByte r) (\<lambda>(firstByte, r1).
     if firstByte = 0x01
     then bind_r (ReadFull r1 2) (\<lambda>(lengthBytes, r2).
            bind_r (Uint16 lengthBytes) (\<lambda>w. Inr (unat w, r2)))
     else Inr (unat firstByte, r1))"

definition Decode :: "bytes \<Rightarrow> ((byte \<times> bytes) \<times> bytes) result" where
  "Decode r = bind_r (readLength r) (\<lambda>(len, r1).
     bind_r (readByte r1) (\<lambda>(msgType, r2).
       if int len - 2 < 0 then Inl (Panic ''makeslice: len out of range'')
       else bind_r (ReadFull r2 (len - 2)) (\<lambda>(body, r3). Inr ((msgType, body), r3))))"

section \<open>Per-message decoders (codec.go)\<close>

definition DecodeConnect :: "bytes \<Rightarrow> ConnectMessage result" where
  "DecodeConnect data =
     (if length data < 4 then Inl (Error ''invalid CONNECT message length'')
      else bind_r (idx data 0) (\<lambda>fl. bind_r (idx data 1) (\<lambda>pid.
        bind_r (subslice data 2 4) (\<lambda>s. bind_r (Uint16 s) (\<lambda>dur.
          if length data > 4
          then bind_r (subslice data 4 (length data)) (\<lambda>cid.
            Inr \<lparr>conn_Flags = fl, conn_ProtocolID = pid, conn_Duration = dur,
                 conn_ClientID = to_string cid\<rparr>)
          else Inr \<lparr>conn_Flags = fl, conn_ProtocolID = pid, conn_Duration = dur,
                 conn_ClientID = []\<rparr>)))))"

definition DecodePublish :: "bytes \<Rightarrow> PublishMessage result" where
  "DecodePublish data =
     (if length data < 5 then Inl (Error ''invalid PUBLISH message length'')
      else bind_r (idx data 0) (\<lambda>fl.
        bind_r (subslice data 1 3) (\<lambda>s1. bind_r (Uint16 s1) (\<lambda>tid.
        bind_r (subslice data 3 5) (\<lambda>s2. bind_r (Uint16 s2) (\<lambda>mid.
          if length data > 5
          then bind_r (subslice data 5 (length data)) (\<lambda>d.
            Inr \<lparr>pub_Flags = fl, pub_TopicID = tid, pub_MsgID = mid, pub_Data = d\<rparr>)
          else Inr \<lparr>pub_Flags = fl, pub_TopicID = tid, pub_MsgID = mid, pub_Data = []\<rparr>))))))"

definition DecodeSubscribe :: "bytes \<Rightarrow> (uint16 \<times> string \<times> byte) result" where
  "DecodeSubscribe data =
     (if length data < 4 then Inl (Error ''invalid SUBSCRIBE message length'')
      else bind_r (subslice data 0 2) (\<lambda>s. bind_r (Uint16 s) (\<lambda>msgID.
        bind_r (subslice data 2 (length data - 1)) (\<lambda>t.
        bind_r (idx data (length data - 1)) (\<lambda>qos. Inr (msgID, to_string t, qos))))))"

definition EncodeConnack :: "byte \<Rightarrow> bytes" where
  "EncodeConnack returnCode = [0x03, CONNACK, returnCode]"

definition EncodePuback :: "uint16 \<Rightarrow> uint16 \<Rightarrow> byte \<Rightarrow> bytes" where
  "EncodePuback topicID msgID returnCode =
     [0x07, PUBACK, hi16 topicID, lo16 topicID,
      hi16 msgID, lo16 msgID, returnCode]"

definition EncodePingreq :: bytes where "EncodePingreq = [0x02, PINGREQ]"
definition EncodePingresp :: bytes where "EncodePingresp = [0x02, PINGRESP]"
definition EncodeDisconnect :: bytes where "EncodeDisconnect = [0x02, DISCONNECT]"

definition ValidateMessage :: "byte \<Rightarrow> bytes \<Rightarrow> unit result" where
  "ValidateMessage msgType data =
     (if msgType = CONNECT then
        (if length data < 4 then Inl (Error ''invalid CONNECT message'') else Inr ())
      else if msgType = PUBLISH then
        (if length data < 5 then Inl (Error ''invalid PUBLISH message'') else Inr ())
      else if msgType = SUBSCRIBE then
        (if length data < 4 then Inl (Error ''invalid SUBSCRIBE message'') else Inr ())
      else if msgType = PINGREQ \<or> msgType = PINGRESP \<or> msgType = DISCONNECT then
        (if length data \<noteq> 0 then Inl (Error ''invalid message length'') else Inr ())
      else Inl (Error (''unknown message type: '' @ show_nat (unat msgType))))"

section \<open>Extension messages (ext.go)\<close>

text \<open>Every length here is one byte: \<^verbatim>\<open>byte(n)\<close> keeps the low eight bits only.\<close>

definition EncodeStatus :: "string \<Rightarrow> byte \<Rightarrow> bytes" where
  "EncodeStatus deviceID state =
     (let bodyLen = 1 + length deviceID + 1
      in [of_nat (1 + bodyLen)] @ [STATUS] @ to_bytes deviceID @ [state])"

definition DecodeStatus :: "bytes \<Rightarrow> (string \<times> byte) result" where
  "DecodeStatus data =
     (if length data < 2 then Inl (Error ''invalid STATUS message'')
      else bind_r (subslice data 0 (length data - 1)) (\<lambda>d.
        bind_r (idx data (length data - 1)) (\<lambda>state. Inr (to_string d, state))))"

definition EncodeFetch :: "string \<Rightarrow> bytes" where
  "EncodeFetch deviceID = [of_nat (2 + length deviceID)] @ [FETCH] @ to_bytes deviceID"

definition DecodeFetch :: "bytes \<Rightarrow> string result" where
  "DecodeFetch data =
     (if length data < 1 then Inl (Error ''invalid FETCH message'') else Inr (to_string data))"

definition EncodeCmd :: "string \<Rightarrow> string \<Rightarrow> byte \<Rightarrow> bytes \<Rightarrow> bytes" where
  "EncodeCmd deviceID cmdID cmdType payload =
     (let bodyLen = 1 + 1 + length deviceID + 1 + length cmdID + 1 + length payload
      in [of_nat (1 + bodyLen)] @ [CMD] @ [of_nat (length deviceID)] @ to_bytes deviceID @
         [of_nat (length cmdID)] @ to_bytes cmdID @ [cmdType] @ payload)"

definition DecodeCmd :: "bytes \<Rightarrow> (string \<times> string \<times> byte \<times> bytes) result" where
  "DecodeCmd data =
     (if length data < 3 then Inl (Error ''invalid CMD message'')
      else bind_r (idx data 0) (\<lambda>b. let devLen = unat b in
        if length data < 2 + devLen + 1 then Inl (Error ''invalid CMD message length'')
        else bind_r (subslice data 1 (1 + devLen)) (\<lambda>dev.
          bind_r (idx data (1 + devLen)) (\<lambda>c. let idLen = unat c; bodyStart = 2 + devLen in
            if length data < bodyStart + idLen + 1
            then Inl (Error ''invalid CMD message length'')
            else bind_r (subslice data bodyStart (bodyStart + idLen)) (\<lambda>cid.
              bind_r (idx data (bodyStart + idLen)) (\<lambda>cmdType.
              bind_r (subslice data (bodyStart + idLen + 1) (length data)) (\<lambda>payload.
                Inr (to_string dev, to_string cid, cmdType, payload))))))))"

definition EncodeCmdAck :: "string \<Rightarrow> string \<Rightarrow> byte \<Rightarrow> byte \<Rightarrow> bytes" where
  "EncodeCmdAck deviceID cmdID code resultState =
     (let bodyLen = 1 + 1 + length deviceID + 1 + length cmdID + 1 + 1
      in [of_nat (1 + bodyLen)] @ [CMDACK] @ [of_nat (length deviceID)] @ to_bytes deviceID @
         [of_nat (length cmdID)] @ to_bytes cmdID @ [code] @ [resultState])"

definition DecodeCmdAck :: "bytes \<Rightarrow> (string \<times> string \<times> byte \<times> byte) result" where
  "DecodeCmdAck data =
     (if length data < 5 then Inl (Error ''invalid CMDACK message'')
      else bind_r (idx data 0) (\<lambda>b. let devLen = unat b in
        if length data < 2 + devLen + 1 + 1 then Inl (Error ''invalid CMDACK message length'')
        else bind_r (subslice data 1 (1 + devLen)) (\<lambda>dev.
          bind_r (idx data (1 + devLen)) (\<lambda>c. let idLen = unat c; bodyStart = 2 + devLen in
            if length data < bodyStart + idLen + 2
            then Inl (Error ''invalid CMDACK message length'')
            else bind_r (subslice data bodyStart (bodyStart + idLen)) (\<lambda>cid.
              bind_r (idx data (bodyStart + idLen)) (\<lambda>code.
              bind_r (idx data (bodyStart + idLen + 1)) (\<lambda>state.
                Inr (to_string dev, to_string cid, code, state))))))))"

definition EncodeRetryInfo :: "uint16 \<Rightarrow> bytes" where
  "EncodeRetryInfo retryAfterSec =
     [0x04] @ [RETRYINFO] @ [hi16 retryAfterSec, lo16 retryAfterSec]"

definition DecodeRetryInfo :: "bytes \<Rightarrow> uint16 result" where
  "DecodeRetryInfo data =
     (if length data < 2 then Inl (Error ''invalid RETRYINFO message'')
      else bind_r (subslice data 0 2) Uint16)"

section \<open>Command types and states (ext.go)\<close>

definition CmdTypeChargeStart :: byte where "CmdTypeChargeStart = 0x01"
definition CmdTypeChargeStop :: byte where "CmdTypeChargeStop = 0x02"
definition CmdTypeSetParam :: byte where "CmdTypeSetParam = 0x03"
definition CmdTypeQuery :: byte where "CmdTypeQuery = 0x04"

lemmas cmd_type_defs = CmdTypeChargeStart_def CmdTypeChargeStop_def CmdTypeSetParam_def
  CmdTypeQuery_def

definition CmdTypeNames :: "byte \<rightharpoonup> string" where
  "CmdTypeNames = [CmdTypeChargeStart \<mapsto> ''charge.start'', CmdTypeChargeStop \<mapsto> ''charge.stop'',
     CmdTypeSetParam \<mapsto> ''set.param'', CmdTypeQuery \<mapsto> ''query'']"

definition StateStrToByte :: "string \<rightharpoonup> byte" where
  "StateStrToByte = [''idle'' \<mapsto> 0, ''charging'' \<mapsto> 1, ''fault'' \<mapsto> 2, ''offline'' \<mapsto> 3,
     ''preoccupy'' \<mapsto> 4]"

definition ByteToStateStr :: "byte \<rightharpoonup> string" where
  "ByteToStateStr = [0 \<mapsto> ''idle'', 1 \<mapsto> ''charging'', 2 \<mapsto> ''fault'', 3 \<mapsto> ''offline'',
     4 \<mapsto> ''preoccupy'']"

definition CmdTypeToByte :: "string \<Rightarrow> byte" where
  "CmdTypeToByte t =
     (if t = ''charge.start'' then CmdTypeChargeStart
      else if t = ''charge.stop'' then CmdTypeChargeStop
      else if t = ''set.param'' then CmdTypeSetParam
      else if t = ''query'' then CmdTypeQuery
      else 0)"

definition CmdTypeFromByte :: "byte \<Rightarrow> string" where
  "CmdTypeFromByte t =
     (case CmdTypeNames t of Some name \<Rightarrow> name | None \<Rightarrow> ''unknown_'' @ show_nat (unat t))"

section \<open>Frames\<close>

text \<open>
  What a frame is, independently of the code: a length that counts the whole frame, in one
  byte or as \<open>0x01\<close> and two bytes, the message type and the body.
\<close>

definition short_frame :: "byte \<Rightarrow> bytes \<Rightarrow> bytes" where
  "short_frame t body = of_nat (2 + length body) # t # body"

definition long_frame :: "byte \<Rightarrow> bytes \<Rightarrow> bytes" where
  "long_frame t body = 0x01 # put_uint16 (of_nat (4 + length body)) @ t # body"

text \<open>What the encoder writes: the length counts a header of two bytes in both forms.\<close>

definition enc_frame :: "byte \<Rightarrow> bytes \<Rightarrow> bytes result" where
  "enc_frame t body =
     (let n = 2 + length body in
      if n > 65535 then Inl (Error ''invalid message length'')
      else if n \<le> 255 then Inr (of_nat n # t # body)
      else Inr (0x01 # put_uint16 (of_nat n) @ t # body))"

lemma length_byte_ne_1: "2 \<le> n \<Longrightarrow> n \<le> 255 \<Longrightarrow> (of_nat n :: byte) \<noteq> 1"
proof
  assume n: "2 \<le> n" "n \<le> 255" and "(of_nat n :: byte) = 1"
  then have "unat (of_nat n :: byte) = 1" by simp
  with n show False by (simp add: unat_of_nat_byte)
qed

lemma ParseMessage_short_gen:
  assumes "m \<noteq> 1" and "2 \<le> unat m" and "unat m \<le> 2 + length body"
  shows "ParseMessage (m # t # body) = Inr (t, take (unat m - 2) body)"
  using assms by (simp add: ParseMessage_def go_simps eval_nat_numeral)

lemma ParseMessage_long_gen:
  assumes "4 \<le> unat w" and "unat w \<le> 4 + length body"
  shows "ParseMessage (0x01 # put_uint16 w @ t # body) = Inr (t, take (unat w - 4) body)"
proof -
  have "ParseMessage (0x01 # hi16 w # lo16 w # t # body) = Inr (t, take (unat w - 4) body)"
    using assms by (simp add: ParseMessage_def go_simps numeral_3_eq_3) (simp add: eval_nat_numeral)
  then show ?thesis by (simp add: put_uint16_def)
qed

lemma ParseMessage_short_frame:
  assumes "2 + length body \<le> 255"
  shows "ParseMessage (short_frame t body @ rest) = Inr (t, body)"
proof -
  have u: "unat (of_nat (2 + length body) :: byte) = 2 + length body"
    using assms by (simp only: unat_of_nat_byte) simp
  have "(of_nat (2 + length body) :: byte) \<noteq> 1"
    using assms by (intro length_byte_ne_1) auto
  then show ?thesis
    using ParseMessage_short_gen [of "of_nat (2 + length body)" "body @ rest" t] u
    by (simp add: short_frame_def)
qed

lemma ParseMessage_long_frame:
  assumes "4 + length body \<le> 65535"
  shows "ParseMessage (long_frame t body @ rest) = Inr (t, body)"
proof -
  have "unat (of_nat (4 + length body) :: uint16) = 4 + length body"
    using assms by (simp only: unat_of_nat_uint16) simp
  then show ?thesis
    using ParseMessage_long_gen [of "of_nat (4 + length body)" "body @ rest" t]
    by (simp add: long_frame_def)
qed

text \<open>The parser accepts exactly the frames, followed by anything.\<close>

lemma ParseMessage_iff:
  "ParseMessage data = Inr (t, body) \<longleftrightarrow>
     (\<exists>rest. 2 + length body \<le> 255 \<and> data = short_frame t body @ rest) \<or>
     (\<exists>rest. 4 + length body \<le> 65535 \<and> data = long_frame t body @ rest)"
proof
  assume R: "ParseMessage data = Inr (t, body)"
  then obtain m d where data: "data = m # d" and d: "d \<noteq> []"
    by (cases data; cases "tl data") (auto simp: ParseMessage_def)
  show "(\<exists>rest. 2 + length body \<le> 255 \<and> data = short_frame t body @ rest) \<or>
     (\<exists>rest. 4 + length body \<le> 65535 \<and> data = long_frame t body @ rest)"
  proof (cases "m = 1")
    case False
    with R data d obtain b where "d = t # b" and m: "2 \<le> unat m" "unat m \<le> 2 + length b"
      and body: "body = take (unat m - 2) b"
      by (cases d) (auto simp: ParseMessage_def go_simps eval_nat_numeral split: if_splits)
    moreover have len: "2 + length body = unat m" using m body by simp
    moreover have "of_nat (2 + length body) = m" by (simp only: len) simp
    ultimately have "data = short_frame t body @ drop (unat m - 2) b"
      by (simp add: short_frame_def data)
    moreover have "2 + length body \<le> 255" using len by simp
    ultimately show ?thesis by blast
  next
    case True
    with R data obtain b0 b1 t' b where d': "d = b0 # b1 # t' # b"
      by (cases d; cases "tl d"; cases "tl (tl d)") (auto simp: ParseMessage_def idx_def)
    define w where "w = be_uint16 b0 b1"
    have put: "put_uint16 w = [b0, b1]"
      by (simp add: w_def put_uint16_def)
    from R True data d' have tt: "t' = t" and w: "4 \<le> unat w" "unat w \<le> 4 + length b"
      and body: "body = take (unat w - 4) b"
      by (auto simp: ParseMessage_def go_simps eval_nat_numeral w_def [symmetric] split: if_splits)
    then have len: "4 + length body = unat w" by simp
    have "of_nat (4 + length body) = w" by (simp only: len) simp
    then have "data = long_frame t body @ drop (unat w - 4) b"
      using True data d' tt put body by (simp add: long_frame_def)
    moreover have "4 + length body \<le> 65535"
      using len unat_uint16_less [of w] by linarith
    ultimately show ?thesis by blast
  qed
next
  assume "(\<exists>rest. 2 + length body \<le> 255 \<and> data = short_frame t body @ rest) \<or>
     (\<exists>rest. 4 + length body \<le> 65535 \<and> data = long_frame t body @ rest)"
  then show "ParseMessage data = Inr (t, body)"
    using ParseMessage_short_frame ParseMessage_long_frame by blast
qed

lemma ParseMessage_no_panic: "\<not> panics (ParseMessage data)"
  by (auto simp: ParseMessage_def bind_r_panics idx_def subslice_def Uint16_ok
      split: if_splits prod.splits)

section \<open>What the encoder writes\<close>

lemma writeLength_cases:
  "writeLength e (int n) =
     (if n > 65535 then (Inl (Error ''invalid message length''), e)
      else if n \<le> 255 then (Inr (), buffer_write e [of_nat n])
      else (Inr (), buffer_write e (0x01 # put_uint16 (of_nat n))))"
  by (simp add: writeLength_def)

definition connect_body :: "ConnectMessage \<Rightarrow> bytes" where
  "connect_body m = [conn_Flags m, conn_ProtocolID m] @ put_uint16 (conn_Duration m) @
     to_bytes (conn_ClientID m)"

definition publish_body :: "PublishMessage \<Rightarrow> bytes" where
  "publish_body m = [pub_Flags m] @ put_uint16 (pub_TopicID m) @ put_uint16 (pub_MsgID m) @
     pub_Data m"

definition subscribe_body :: "uint16 \<times> string \<times> byte \<Rightarrow> bytes" where
  "subscribe_body m = (case m of (mid, topic, qos) \<Rightarrow> put_uint16 mid @ to_bytes topic @ [qos])"

lemma EncodeConnect_frame: "EncodeConnect m = enc_frame CONNECT (connect_body m)"
proof -
  define n where "n = 2 + length (connect_body m)"
  have "6 + int (length (conn_ClientID m)) = int n"
    by (simp add: n_def connect_body_def)
  then show ?thesis
    unfolding EncodeConnect_def Encoder_EncodeConnect_def enc_frame_def Let_def n_def [symmetric]
    by (simp add: writeLength_cases buffer_write_def connect_body_def)
qed

lemma EncodePublish_frame: "EncodePublish m = enc_frame PUBLISH (publish_body m)"
proof -
  define n where "n = 2 + length (publish_body m)"
  have "7 + int (length (pub_Data m)) = int n"
    by (simp add: n_def publish_body_def)
  then show ?thesis
    unfolding EncodePublish_def Encoder_EncodePublish_def enc_frame_def Let_def n_def [symmetric]
    by (simp add: writeLength_cases buffer_write_def publish_body_def)
qed

lemma EncodeSubscribe_frame:
  "EncodeSubscribe mid topic qos = enc_frame SUBSCRIBE (subscribe_body (mid, topic, qos))"
proof -
  define n where "n = 2 + length (subscribe_body (mid, topic, qos))"
  have "5 + int (length topic) = int n"
    by (simp add: n_def subscribe_body_def)
  then show ?thesis
    unfolding EncodeSubscribe_def Encoder_EncodeSubscribe_def enc_frame_def Let_def n_def [symmetric]
    by (simp add: writeLength_cases buffer_write_def subscribe_body_def)
qed

lemma enc_frame_shape:
  assumes "enc_frame t body = Inr f"
  shows "2 + length body \<le> 65535"
    and "2 + length body \<le> 255 \<Longrightarrow> f = short_frame t body"
    and "255 < 2 + length body \<Longrightarrow>
      f = 0x01 # put_uint16 (of_nat (2 + length body)) @ t # body"
  using assms by (auto simp: enc_frame_def short_frame_def Let_def split: if_splits)

lemma enc_frame_ok: "2 + length body \<le> 65535 \<Longrightarrow> \<exists>f. enc_frame t body = Inr f"
  by (simp add: enc_frame_def Let_def)

lemma readByte_Cons [go_simps]: "readByte (b # r) = Inr (b, r)"
  by (simp add: readByte_def ReadFull_def go_simps)

lemma Decode_no_length_panic:
  assumes "readLength r = Inr (len, r1)" and "2 \<le> len"
  shows "Decode r = bind_r (readByte r1) (\<lambda>(t, r2).
    bind_r (ReadFull r2 (len - 2)) (\<lambda>(body, r3). Inr ((t, body), r3)))"
  using assms by (auto simp: Decode_def)

lemma Decode_enc_frame:
  assumes "enc_frame t body = Inr f"
  shows "Decode (f @ rest) = Inr ((t, body), rest)"
proof (cases "2 + length body \<le> 255")
  case True
  have ne: "(of_nat (2 + length body) :: byte) \<noteq> 1"
    using True by (intro length_byte_ne_1) auto
  have "unat (of_nat (2 + length body) :: byte) = 2 + length body"
    using True by (simp only: unat_of_nat_byte) simp
  with ne have "readLength (f @ rest) = Inr (2 + length body, t # body @ rest)"
    using enc_frame_shape(2) [OF assms True]
    by (simp add: readLength_def short_frame_def go_simps del: of_nat_add of_nat_Suc)
  then show ?thesis
    by (simp add: Decode_no_length_panic readByte_Cons ReadFull_append)
next
  case False
  have "unat (of_nat (2 + length body) :: uint16) = 2 + length body"
    using enc_frame_shape(1) [OF assms] by (simp only: unat_of_nat_uint16) simp
  then have "readLength (f @ rest) = Inr (2 + length body, t # body @ rest)"
    using enc_frame_shape(3) [OF assms] False
    by (simp add: readLength_def readByte_Cons ReadFull_append del: of_nat_add of_nat_Suc)
       (simp add: put_uint16_def)
  then show ?thesis
    by (simp add: Decode_no_length_panic readByte_Cons ReadFull_append)
qed

lemma ParseMessage_enc_frame:
  assumes "enc_frame t body = Inr f"
  shows "ParseMessage (f @ rest) =
    Inr (t, if 2 + length body \<le> 255 then body else take (length body - 2) body)"
proof (cases "2 + length body \<le> 255")
  case True
  with enc_frame_shape(2) [OF assms] ParseMessage_short_frame show ?thesis by simp
next
  case False
  have "unat (of_nat (2 + length body) :: uint16) = 2 + length body"
    using enc_frame_shape(1) [OF assms] by (simp only: unat_of_nat_uint16) simp
  then show ?thesis
    using enc_frame_shape(3) [OF assms] False
      ParseMessage_long_gen [of "of_nat (2 + length body)" "body @ rest" t]
    by simp
qed

section \<open>Codecs built on the encoder\<close>

text \<open>
  An encoder writes a type and a body through \<open>enc_frame\<close>, and a decoder recovers the message
  from the body.  What follows for the two ways the gateway reads frames is proved once: the
  stream decoder inverts the encoder at every length; the packet parser inverts it up to 255
  bytes and beyond that loses the last two bytes of the body.
\<close>

locale frame_codec =
  fixes enc :: "'m \<Rightarrow> bytes result"
    and mtype :: byte
    and body :: "'m \<Rightarrow> bytes"
    and dec :: "bytes \<Rightarrow> 'm result"
    and wf :: "'m \<Rightarrow> bool"
  assumes enc_is_frame: "enc m = enc_frame mtype (body m)"
    and dec_body: "wf m \<Longrightarrow> dec (body m) = Inr m"
begin

lemma packet_roundtrip:
  assumes "wf m" and "2 + length (body m) \<le> 255"
  shows "\<exists>f. enc m = Inr f \<and> length f = 2 + length (body m) \<and>
    ParseMessage (f @ rest) = Inr (mtype, body m) \<and> dec (body m) = Inr m"
proof -
  obtain f where f: "enc_frame mtype (body m) = Inr f"
    using assms(2) enc_frame_ok [of "body m" mtype] by auto
  have "length f = 2 + length (body m)"
    using enc_frame_shape(2) [OF f assms(2)] by (simp add: short_frame_def)
  then show ?thesis
    using ParseMessage_enc_frame [OF f, of rest] assms f by (simp add: enc_is_frame dec_body)
qed

lemma stream_roundtrip:
  assumes "wf m" and "2 + length (body m) \<le> 65535"
  shows "\<exists>f. enc m = Inr f \<and> Decode (f @ rest) = Inr ((mtype, body m), rest) \<and>
    dec (body m) = Inr m"
proof -
  obtain f where f: "enc_frame mtype (body m) = Inr f"
    using assms(2) enc_frame_ok [of "body m" mtype] by auto
  then show ?thesis
    using Decode_enc_frame [OF f, of rest] assms by (simp add: enc_is_frame dec_body)
qed

lemma long_packet_truncated:
  assumes "enc m = Inr f" and "255 < 2 + length (body m)"
  shows "ParseMessage f = Inr (mtype, take (length (body m) - 2) (body m))"
    and "length f = 4 + length (body m)"
proof -
  from assms(1) have f: "enc_frame mtype (body m) = Inr f" by (simp add: enc_is_frame)
  show "ParseMessage f = Inr (mtype, take (length (body m) - 2) (body m))"
    using ParseMessage_enc_frame [OF f, of "[]"] assms(2) by simp
  show "length f = 4 + length (body m)"
    using enc_frame_shape(3) [OF f assms(2)] by simp
qed

lemma too_long:
  assumes "65535 < 2 + length (body m)"
  shows "enc m = Inl (Error ''invalid message length'')"
  using assms by (simp add: enc_is_frame enc_frame_def)

end

lemma DecodeConnect_body: "DecodeConnect (connect_body m) = Inr m"
  by (cases m) (simp add: DecodeConnect_def connect_body_def put_uint16_def go_simps
      eval_nat_numeral)

lemma DecodePublish_body: "DecodePublish (publish_body m) = Inr m"
  by (cases m) (simp add: DecodePublish_def publish_body_def put_uint16_def go_simps
      eval_nat_numeral)

lemma DecodeSubscribe_body:
  "topic \<noteq> [] \<Longrightarrow> DecodeSubscribe (subscribe_body (mid, topic, qos)) = Inr (mid, topic, qos)"
  by (cases topic) (simp_all add: DecodeSubscribe_def subscribe_body_def put_uint16_def go_simps
      eval_nat_numeral nth_append)

interpretation connect: frame_codec EncodeConnect CONNECT connect_body DecodeConnect "\<lambda>_. True"
  by unfold_locales (simp_all add: EncodeConnect_frame DecodeConnect_body)

interpretation publish: frame_codec EncodePublish PUBLISH publish_body DecodePublish "\<lambda>_. True"
  by unfold_locales (simp_all add: EncodePublish_frame DecodePublish_body)

interpretation subscribe: frame_codec "\<lambda>(mid, topic, qos). EncodeSubscribe mid topic qos" SUBSCRIBE
    subscribe_body DecodeSubscribe "\<lambda>(mid, topic, qos). topic \<noteq> []"
  by unfold_locales (auto simp: EncodeSubscribe_frame DecodeSubscribe_body)

section \<open>Extension codecs\<close>

text \<open>
  The extension messages write their length with a single \<^verbatim>\<open>byte(n)\<close> conversion.  They round
  trip while the frame fits in 255 bytes, and no longer frame parses back to its body.
\<close>

locale ext_codec =
  fixes enc :: "'m \<Rightarrow> bytes"
    and mtype :: byte
    and body :: "'m \<Rightarrow> bytes"
    and dec :: "bytes \<Rightarrow> 'm result"
    and wf :: "'m \<Rightarrow> bool"
  assumes enc_shape: "enc m = of_nat (2 + length (body m)) # mtype # body m"
    and dec_body: "wf m \<Longrightarrow> dec (body m) = Inr m"
begin

lemma roundtrip:
  assumes "wf m" and "2 + length (body m) \<le> 255"
  shows "ParseMessage (enc m @ rest) = Inr (mtype, body m)" and "dec (body m) = Inr m"
  using assms ParseMessage_short_frame [of "body m" mtype rest]
  by (simp_all add: enc_shape short_frame_def dec_body)

lemma overlong:
  assumes "255 < 2 + length (body m)"
  shows "ParseMessage (enc m) \<noteq> Inr (mtype, body m)"
proof
  assume "ParseMessage (enc m) = Inr (mtype, body m)"
  then obtain rest where "enc m = long_frame mtype (body m) @ rest"
    using assms by (auto simp: ParseMessage_iff)
  then have "length (enc m) \<ge> 4 + length (body m)" by (simp add: long_frame_def)
  then show False by (simp add: enc_shape)
qed

end

definition status_body :: "string \<times> byte \<Rightarrow> bytes" where
  "status_body m = (case m of (dev, st) \<Rightarrow> to_bytes dev @ [st])"

definition cmd_body :: "string \<times> string \<times> byte \<times> bytes \<Rightarrow> bytes" where
  "cmd_body m = (case m of (dev, cid, ty, payload) \<Rightarrow>
     [of_nat (length dev)] @ to_bytes dev @ [of_nat (length cid)] @ to_bytes cid @ [ty] @ payload)"

definition cmdack_body :: "string \<times> string \<times> byte \<times> byte \<Rightarrow> bytes" where
  "cmdack_body m = (case m of (dev, cid, code, st) \<Rightarrow>
     [of_nat (length dev)] @ to_bytes dev @ [of_nat (length cid)] @ to_bytes cid @ [code, st])"

lemma unat_length_byte: "n \<le> 255 \<Longrightarrow> unat (of_nat n :: byte) = n"
  by (simp add: unat_of_nat_byte)

lemma DecodeStatus_body: "dev \<noteq> [] \<Longrightarrow> DecodeStatus (status_body (dev, st)) = Inr (dev, st)"
  by (cases dev) (simp_all add: DecodeStatus_def status_body_def go_simps nth_append)

lemma DecodeCmd_body:
  assumes "length dev \<le> 255" and "length cid \<le> 255"
  shows "DecodeCmd (cmd_body (dev, cid, ty, payload)) = Inr (dev, cid, ty, payload)"
proof -
  have u: "unat (of_nat (length dev) :: byte) = length dev"
    "unat (of_nat (length cid) :: byte) = length cid"
    using assms by (simp_all add: unat_length_byte)
  show ?thesis
    by (simp add: DecodeCmd_def cmd_body_def go_simps u nth_append Let_def)
qed

lemma DecodeCmdAck_body:
  assumes "length dev \<le> 255" and "length cid \<le> 255" and "dev \<noteq> [] \<or> cid \<noteq> []"
  shows "DecodeCmdAck (cmdack_body (dev, cid, code, st)) = Inr (dev, cid, code, st)"
proof -
  have u: "unat (of_nat (length dev) :: byte) = length dev"
    "unat (of_nat (length cid) :: byte) = length cid"
    using assms by (simp_all add: unat_length_byte)
  have "1 \<le> length dev + length cid" using assms(3) by (cases dev; cases cid) auto
  with assms(3) show ?thesis
    by (auto simp: DecodeCmdAck_def cmdack_body_def go_simps u nth_append Let_def)
qed

lemma EncodeStatus_shape:
  "EncodeStatus dev st = of_nat (2 + length (status_body (dev, st))) # STATUS # status_body (dev, st)"
  by (simp add: EncodeStatus_def status_body_def Let_def)

lemma EncodeCmd_shape:
  "EncodeCmd dev cid ty payload = of_nat (2 + length (cmd_body (dev, cid, ty, payload))) # CMD #
     cmd_body (dev, cid, ty, payload)"
  by (simp add: EncodeCmd_def cmd_body_def Let_def)

lemma EncodeCmdAck_shape:
  "EncodeCmdAck dev cid code st = of_nat (2 + length (cmdack_body (dev, cid, code, st))) # CMDACK #
     cmdack_body (dev, cid, code, st)"
  by (simp add: EncodeCmdAck_def cmdack_body_def Let_def)

interpretation status: ext_codec "\<lambda>(dev, st). EncodeStatus dev st" STATUS status_body DecodeStatus
    "\<lambda>(dev, st). dev \<noteq> []"
  by unfold_locales (simp_all add: EncodeStatus_shape DecodeStatus_body split: prod.splits)

interpretation fetch: ext_codec EncodeFetch FETCH to_bytes DecodeFetch "\<lambda>dev. dev \<noteq> []"
  by unfold_locales (auto simp: EncodeFetch_def DecodeFetch_def)

interpretation cmd: ext_codec "\<lambda>(dev, cid, ty, payload). EncodeCmd dev cid ty payload" CMD cmd_body
    DecodeCmd "\<lambda>(dev, cid, ty, payload). length dev \<le> 255 \<and> length cid \<le> 255"
  by unfold_locales (auto simp only: EncodeCmd_shape DecodeCmd_body split: prod.splits)

interpretation cmdack: ext_codec "\<lambda>(dev, cid, code, st). EncodeCmdAck dev cid code st" CMDACK
    cmdack_body DecodeCmdAck
    "\<lambda>(dev, cid, code, st). length dev \<le> 255 \<and> length cid \<le> 255 \<and> (dev \<noteq> [] \<or> cid \<noteq> [])"
  by unfold_locales (auto simp only: EncodeCmdAck_shape DecodeCmdAck_body split: prod.splits)

interpretation retryinfo: ext_codec EncodeRetryInfo RETRYINFO put_uint16 DecodeRetryInfo "\<lambda>_. True"
  by unfold_locales (auto simp: EncodeRetryInfo_def DecodeRetryInfo_def put_uint16_def go_simps
      eval_nat_numeral)

section \<open>Absence of panics\<close>

lemma DecodeConnect_no_panic: "\<not> panics (DecodeConnect data)"
  by (auto simp: DecodeConnect_def bind_r_panics idx_def subslice_def Uint16_ok)

lemma DecodePublish_no_panic: "\<not> panics (DecodePublish data)"
  by (auto simp: DecodePublish_def bind_r_panics idx_def subslice_def Uint16_ok)

lemma DecodeSubscribe_no_panic: "\<not> panics (DecodeSubscribe data)"
  by (auto simp: DecodeSubscribe_def bind_r_panics idx_def subslice_def Uint16_ok)

lemma DecodeStatus_no_panic: "\<not> panics (DecodeStatus data)"
  by (auto simp: DecodeStatus_def bind_r_panics idx_def subslice_def)

lemma DecodeCmd_no_panic: "\<not> panics (DecodeCmd data)"
  by (auto simp: DecodeCmd_def bind_r_panics idx_def subslice_def Let_def)

lemma DecodeCmdAck_no_panic: "\<not> panics (DecodeCmdAck data)"
  by (auto simp: DecodeCmdAck_def bind_r_panics idx_def subslice_def Let_def)

lemma DecodeRetryInfo_no_panic: "\<not> panics (DecodeRetryInfo data)"
  by (auto simp: DecodeRetryInfo_def bind_r_panics subslice_def Uint16_ok)

lemmas decoders_no_panic = ParseMessage_no_panic DecodeConnect_no_panic DecodePublish_no_panic
  DecodeSubscribe_no_panic DecodeStatus_no_panic DecodeCmd_no_panic DecodeCmdAck_no_panic
  DecodeRetryInfo_no_panic

section \<open>Properties\<close>

text \<open>C25: A CONNECT or PUBLISH packet of at most 255 bytes survives the wire: the encoder
  produces a frame of exactly the announced length, and the packet parser followed by the
  message decoder returns the message, whatever bytes follow the frame in the datagram.\<close>

theorem wire_packet_roundtrip:
  assumes "length (conn_ClientID c) \<le> 249" and "length (pub_Data p) \<le> 248"
  shows "(\<exists>f b. EncodeConnect c = Inr f \<and> length f = 6 + length (conn_ClientID c) \<and>
            ParseMessage (f @ rest) = Inr (CONNECT, b) \<and> DecodeConnect b = Inr c) \<and>
         (\<exists>f b. EncodePublish p = Inr f \<and> length f = 7 + length (pub_Data p) \<and>
            ParseMessage (f @ rest) = Inr (PUBLISH, b) \<and> DecodePublish b = Inr p)"
  using connect.packet_roundtrip [of c rest] publish.packet_roundtrip [of p rest] assms
  by (fastforce simp: connect_body_def publish_body_def)

text \<open>Witness of the packet round trip: a concrete CONNECT and a concrete PUBLISH.\<close>

theorem wire_packet_roundtrip_witness:
  "\<exists>f b. EncodeConnect \<lparr>conn_Flags = 4, conn_ProtocolID = 1, conn_Duration = 120,
       conn_ClientID = ''dev_1''\<rparr> = Inr f \<and> ParseMessage (f @ []) = Inr (CONNECT, b)"
  using wire_packet_roundtrip [of "\<lparr>conn_Flags = 4, conn_ProtocolID = 1, conn_Duration = 120,
      conn_ClientID = ''dev_1''\<rparr>"
      "\<lparr>pub_Flags = 0x20, pub_TopicID = 1, pub_MsgID = 2, pub_Data = [1, 2]\<rparr>" "[]"]
  by fastforce

text \<open>Beyond 255 bytes the encoder announces two bytes less than it writes: the packet
  parser accepts the frame and silently drops the last two bytes of the body.\<close>

theorem wire_long_packet_truncated:
  assumes "EncodePublish p = Inr f" and "248 < length (pub_Data p)"
  shows "ParseMessage f = Inr (PUBLISH, take (length (publish_body p) - 2) (publish_body p)) \<and>
    length f = 9 + length (pub_Data p)"
  using publish.long_packet_truncated [OF assms(1)] assms(2) by (simp add: publish_body_def)

theorem wire_long_packet_truncated_witness:
  "\<exists>f. EncodePublish \<lparr>pub_Flags = 0, pub_TopicID = 1, pub_MsgID = 2,
       pub_Data = replicate 249 7\<rparr> = Inr f \<and> length f = 258"
proof -
  let ?p = "\<lparr>pub_Flags = 0, pub_TopicID = 1, pub_MsgID = 2, pub_Data = replicate 249 7\<rparr>"
  obtain f where f: "EncodePublish ?p = Inr f"
    using enc_frame_ok [of "publish_body ?p" PUBLISH]
    by (auto simp: EncodePublish_frame publish_body_def)
  then show ?thesis using wire_long_packet_truncated [OF f] by simp
qed

text \<open>The stream decoder inverts the encoder at every length the encoder accepts, up to
  65535 bytes, and leaves the rest of the stream untouched.\<close>

theorem wire_stream_roundtrip:
  assumes "length (pub_Data p) \<le> 65528"
  shows "\<exists>f b. EncodePublish p = Inr f \<and> Decode (f @ rest) = Inr ((PUBLISH, b), rest) \<and>
    DecodePublish b = Inr p"
  using publish.stream_roundtrip [of p rest] assms by (auto simp: publish_body_def)

theorem wire_stream_roundtrip_witness:
  "\<exists>f b. EncodePublish \<lparr>pub_Flags = 0, pub_TopicID = 1, pub_MsgID = 2,
       pub_Data = replicate 300 7\<rparr> = Inr f \<and> Decode (f @ [9]) = Inr ((PUBLISH, b), [9])"
  using wire_stream_roundtrip [of "\<lparr>pub_Flags = 0, pub_TopicID = 1, pub_MsgID = 2,
       pub_Data = replicate 300 7\<rparr>" "[9]"] by fastforce


end
