(* ===== verification/Floats.thy ===== *)
theory Floats
  imports Complex_Main "HOL-Library.Log_Nat"
begin

text \<open>
  IEEE-754 arithmetic as far as the sources use it.  A finite float is the rational number it
  denotes, and an operation returns the exact result rounded to the nearest value with \<open>p\<close>
  significant bits, ties to even: \<open>p = 24\<close> for \<^verbatim>\<open>float32\<close>, \<open>p = 53\<close> for \<^verbatim>\<open>float64\<close>.  The
  exponent is not bounded: overflow to infinity, subnormal numbers and NaN are outside the
  ranges the code computes with.
\<close>

definition pow2 :: "int \<Rightarrow> rat" where
  "pow2 e = (if 0 \<le> e then 2 ^ nat e else 1 / 2 ^ nat (- e))"

definition ilog2 :: "rat \<Rightarrow> int" where
  "ilog2 x = (if 1 \<le> x then bitlen \<lfloor>x\<rfloor> - 1 else - bitlen (\<lceil>1 / x\<rceil> - 1))"

definition round_even :: "rat \<Rightarrow> int" where
  "round_even y = (let f = \<lfloor>y\<rfloor>; d = y - of_int f in
     if d < 1 / 2 then f else if 1 / 2 < d then f + 1 else if even f then f else f + 1)"

definition fl :: "nat \<Rightarrow> rat \<Rightarrow> rat" where
  "fl p x = (if x = 0 then 0
     else let u = pow2 (ilog2 \<bar>x\<bar> - int p + 1) in of_int (round_even (x / u)) * u)"

section \<open>Powers of two and the binary exponent\<close>

lemma pow2_pos [simp]: "0 < pow2 e"
  by (simp add: pow2_def)

lemma pow2_nonzero [simp]: "pow2 e \<noteq> 0"
  using pow2_pos [of e] by (metis less_irrefl)

lemma pow2_add: "pow2 (a + b) = pow2 a * pow2 b"
proof -
  have int_pow: "pow2 e = 2 powi e" for e
    by (simp add: pow2_def power_int_def power_one_over inverse_eq_divide)
  show ?thesis by (simp add: int_pow power_int_add)
qed

lemma pow2_0 [simp]: "pow2 0 = 1" and pow2_1 [simp]: "pow2 1 = 2"
  by (simp_all add: pow2_def)

lemma pow2_nat: "0 \<le> e \<Longrightarrow> pow2 e = of_int (2 ^ nat e)"
  by (simp add: pow2_def)

lemma pow2_neg_inverse: "pow2 (- e) = 1 / pow2 e"
  using pow2_add [of e "- e"] by (simp add: field_simps)

lemma ilog2_bounds:
  assumes "0 < x"
  shows "pow2 (ilog2 x) \<le> x" and "x < pow2 (ilog2 x + 1)"
proof -
  show "pow2 (ilog2 x) \<le> x"
  proof (cases "1 \<le> x")
    case True
    then have f: "0 < \<lfloor>x\<rfloor>" by simp
    from bitlen_bounds [OF f] have "(2 :: int) ^ nat (bitlen \<lfloor>x\<rfloor> - 1) \<le> \<lfloor>x\<rfloor>" by simp
    then have "of_int (2 ^ nat (bitlen \<lfloor>x\<rfloor> - 1)) \<le> x" by linarith
    moreover have "0 \<le> bitlen \<lfloor>x\<rfloor> - 1" using f bitlen_eq_zero_iff [of "\<lfloor>x\<rfloor>"] bitlen_nonneg [of "\<lfloor>x\<rfloor>"] by linarith
    ultimately show ?thesis using True by (simp add: ilog2_def pow2_nat)
  next
    case False
    then have "1 < 1 / x" using assms by simp
    then have c: "0 < \<lceil>1 / x\<rceil> - 1" by linarith
    from bitlen_bounds [OF c] have "\<lceil>1 / x\<rceil> - 1 < 2 ^ nat (bitlen (\<lceil>1 / x\<rceil> - 1))" by simp
    then have "1 / x \<le> of_int (2 ^ nat (bitlen (\<lceil>1 / x\<rceil> - 1)))" by linarith
    moreover have "0 \<le> bitlen (\<lceil>1 / x\<rceil> - 1)" by (rule bitlen_nonneg)
    ultimately have "1 / x \<le> pow2 (bitlen (\<lceil>1 / x\<rceil> - 1))" by (simp add: pow2_nat)
    then have "1 / pow2 (bitlen (\<lceil>1 / x\<rceil> - 1)) \<le> x"
      using assms by (simp add: field_simps)
    then show ?thesis using False by (simp add: ilog2_def pow2_neg_inverse)
  qed
  show "x < pow2 (ilog2 x + 1)"
  proof (cases "1 \<le> x")
    case True
    then have f: "0 < \<lfloor>x\<rfloor>" by simp
    from bitlen_bounds [OF f] have "\<lfloor>x\<rfloor> < 2 ^ nat (bitlen \<lfloor>x\<rfloor>)" by simp
    then have "x < of_int (2 ^ nat (bitlen \<lfloor>x\<rfloor>))" by linarith
    then show ?thesis using True by (simp add: ilog2_def pow2_nat bitlen_nonneg)
  next
    case False
    then have "1 < 1 / x" using assms by simp
    then have c: "0 < \<lceil>1 / x\<rceil> - 1" by linarith
    let ?b = "bitlen (\<lceil>1 / x\<rceil> - 1)"
    from bitlen_bounds [OF c] have "2 ^ nat (?b - 1) \<le> \<lceil>1 / x\<rceil> - 1" by simp
    then have "of_int (2 ^ nat (?b - 1)) < 1 / x" by linarith
    moreover have "0 \<le> ?b - 1" using c bitlen_eq_zero_iff [of "\<lceil>1 / x\<rceil> - 1"] bitlen_nonneg [of "\<lceil>1 / x\<rceil> - 1"]
      by linarith
    ultimately have "pow2 (?b - 1) < 1 / x" by (simp add: pow2_nat)
    then have "x < 1 / pow2 (?b - 1)" using assms by (simp add: field_simps)
    then show ?thesis
      using False pow2_neg_inverse [of "?b - 1"] by (simp add: ilog2_def)
  qed
qed

section \<open>Rounding\<close>

lemma round_even_int [simp]: "round_even (of_int n) = n"
  by (simp add: round_even_def)

lemma round_even_nonneg: "0 \<le> y \<Longrightarrow> 0 \<le> round_even y"
  unfolding round_even_def Let_def by (auto intro: add_nonneg_nonneg)

lemma round_even_error: "\<bar>of_int (round_even y) - y\<bar> \<le> 1 / 2"
proof -
  define f where "f = \<lfloor>y\<rfloor>"
  have "of_int f \<le> y" and "y < of_int f + 1" unfolding f_def by linarith+
  then show ?thesis
    unfolding round_even_def Let_def f_def [symmetric] by (auto simp: abs_if field_simps)
qed

lemma fl_0 [simp]: "fl p 0 = 0"
  by (simp add: fl_def)

lemma fl_nonneg: "0 \<le> x \<Longrightarrow> 0 \<le> fl p x"
proof -
  assume "0 \<le> x"
  then have "0 \<le> round_even (x / pow2 (ilog2 \<bar>x\<bar> - int p + 1))"
    by (intro round_even_nonneg) (simp add: less_imp_le)
  then show "0 \<le> fl p x" by (simp add: fl_def Let_def less_imp_le)
qed

text \<open>The relative error of one operation is at most \<open>2\<^sup>-\<^sup>p\<close>.\<close>

lemma fl_error: "\<bar>fl p x - x\<bar> \<le> \<bar>x\<bar> / 2 ^ p"
proof (cases "x = 0")
  case False
  define e where "e = ilog2 \<bar>x\<bar>"
  define u where "u = pow2 (e - int p + 1)"
  have u: "0 < u" by (simp add: u_def)
  have "fl p x - x = (of_int (round_even (x / u)) - x / u) * u"
    using False u by (simp add: fl_def u_def e_def Let_def left_diff_distrib)
  then have "\<bar>fl p x - x\<bar> = \<bar>of_int (round_even (x / u)) - x / u\<bar> * u"
    using u by (simp add: abs_mult)
  also have "\<dots> \<le> 1 / 2 * u"
    using u round_even_error by (intro mult_right_mono) auto
  also have "\<dots> = pow2 e / 2 ^ p"
  proof -
    have "u = pow2 e * pow2 (- int p) * pow2 1"
      unfolding u_def pow2_add [symmetric] by simp
    moreover have "pow2 (- int p) = 1 / 2 ^ p" by (simp add: pow2_neg_inverse) (simp add: pow2_def)
    ultimately show ?thesis by simp
  qed
  also have "\<dots> \<le> \<bar>x\<bar> / 2 ^ p"
    using ilog2_bounds(1) [of "\<bar>x\<bar>"] False by (simp add: e_def divide_right_mono)
  finally show ?thesis .
qed simp

text \<open>Integers of at most \<open>p\<close> bits are exact.\<close>

lemma fl_int:
  assumes "\<bar>n\<bar> < 2 ^ p"
  shows "fl p (of_int n) = of_int n"
proof (cases "n = 0")
  case False
  define e where "e = ilog2 \<bar>of_int n :: rat\<bar>"
  have "pow2 e \<le> \<bar>of_int n\<bar>" using ilog2_bounds(1) [of "\<bar>of_int n\<bar>"] False by (simp add: e_def)
  also have "\<dots> < 2 ^ p" using assms by (metis of_int_abs of_int_less_iff of_int_numeral of_int_power)
  finally have "pow2 e < pow2 (int p)" by (simp add: pow2_def)
  have "e < int p"
  proof (rule ccontr)
    assume "\<not> e < int p"
    then have "pow2 e = pow2 (int p) * 2 ^ nat (e - int p)"
      using pow2_add [of "int p" "e - int p"] by (simp add: pow2_nat)
    moreover have "(1 :: rat) \<le> 2 ^ nat (e - int p)" by simp
    ultimately have "pow2 (int p) * 1 \<le> pow2 e"
      using pow2_pos [of "int p"] by (simp only: mult_le_cancel_left_pos)
    with \<open>pow2 e < pow2 (int p)\<close> show False by simp
  qed
  define k where "k = nat (int p - 1 - e)"
  have u: "pow2 (e - int p + 1) = 1 / 2 ^ k"
    using \<open>e < int p\<close> pow2_neg_inverse [of "int p - 1 - e"]
    by (simp add: k_def pow2_nat algebra_simps)
  have "of_int n / pow2 (e - int p + 1) = (of_int (n * 2 ^ k) :: rat)"
    by (simp add: u)
  then have "round_even (of_int n / pow2 (e - int p + 1)) = n * 2 ^ k"
    by (simp only: round_even_int)
  then show ?thesis using False by (simp add: fl_def e_def [symmetric] Let_def u)
qed simp

lemma fl_nat: "n < 2 ^ p \<Longrightarrow> fl p (of_nat n) = of_nat n"
  using fl_int [of "int n" p] by (simp add: nat_less_iff)

end
