(* ===== verification/Tlv.thy ===== *)
theory Tlv
  imports Prelude Floats
begin

text \<open>
  The type-length-value format of \<^verbatim>\<open>internal/protocol/iot/tlv/codec.go\<close>: an encoder that appends
  one field per \<open>Add\<close>, a decoder that walks a byte slice by position, and the typed getters.
  The decoder is shown to accept exactly the concatenations of encoded fields.
\<close>

section \<open>Field types\<close>

definition TypeTemperature :: byte where "TypeTemperature = 0x01"
definition TypeHumidity :: byte where "TypeHumidity = 0x02"
definition TypeVoltage :: byte where "TypeVoltage = 0x03"
definition TypeStatus :: byte where "TypeStatus = 0x04"
definition TypeAlarm :: byte where "TypeAlarm = 0x05"
definition TypeGPS :: byte where "TypeGPS = 0x07"
definition TypeDeviceID :: byte where "TypeDeviceID = 0x09"
definition TypeBattery :: byte where "TypeBattery = 0x0A"
definition TypeSignal :: byte where "TypeSignal = 0x0B"

lemmas tlv_type_defs = TypeTemperature_def TypeHumidity_def TypeVoltage_def TypeStatus_def
  TypeAlarm_def TypeGPS_def TypeDeviceID_def TypeBattery_def TypeSignal_def

record TLV =
  tlv_Type :: byte
  tlv_Length :: uint16
  tlv_Value :: bytes

section \<open>Encoder\<close>

text \<open>
  The dynamic types \<open>Add\<close> distinguishes; signed integers carry their two's complement bits, a
  \<^verbatim>\<open>float32\<close> the number it denotes, and any other Go type its name.
\<close>

datatype tlv_value =
    VUint8 byte | VUint16 uint16 | VUint32 uint32 | VUint64 uint64
  | VInt16 "16 word" | VInt32 "32 word" | VFloat32 rat
  | VString string | VBytes bytes | VOther string

record TlvEncoder =
  tlv_buffer :: bytes

definition NewTlvEncoder :: TlvEncoder where
  "NewTlvEncoder = \<lparr>tlv_buffer = []\<rparr>"

text \<open>
  The conversion \<^verbatim>\<open>uint32(f)\<close> of a float discards the fraction; when the value does not fit, the
  result depends on the implementation of Go, which is the parameter \<open>oor\<close>.
\<close>

definition float_to_uint32 :: "(rat \<Rightarrow> uint32) \<Rightarrow> rat \<Rightarrow> uint32" where
  "float_to_uint32 oor x =
     (let t = (if 0 \<le> x then \<lfloor>x\<rfloor> else \<lceil>x\<rceil>)
      in if 0 \<le> t \<and> t < 2 ^ 32 then of_int t else oor x)"

fun value_bytes :: "(rat \<Rightarrow> uint32) \<Rightarrow> tlv_value \<Rightarrow> bytes result" where
  "value_bytes oor (VUint8 v) = Inr [v]"
| "value_bytes oor (VUint16 v) = Inr (put_uint16 v)"
| "value_bytes oor (VUint32 v) = Inr (put_uint32 v)"
| "value_bytes oor (VUint64 v) = Inr (put_uint64 v)"
| "value_bytes oor (VInt16 v) = Inr (put_uint16 v)"
| "value_bytes oor (VInt32 v) = Inr (put_uint32 v)"
| "value_bytes oor (VFloat32 v) = Inr (put_uint32 (float_to_uint32 oor (fl 24 (v * 100))))"
| "value_bytes oor (VString v) = Inr (to_bytes v)"
| "value_bytes oor (VBytes v) = Inr v"
| "value_bytes oor (VOther ty) = Inl (Error (''unsupported type: '' @ ty))"

definition Add :: "(rat \<Rightarrow> uint32) \<Rightarrow> TlvEncoder \<Rightarrow> byte \<Rightarrow> tlv_value \<Rightarrow> unit result \<times> TlvEncoder" where
  "Add oor e tlvType value =
     (case value_bytes oor value of
        Inl err \<Rightarrow> (Inl err, e)
      | Inr valueBytes \<Rightarrow>
          if length valueBytes > 65535 then (Inl (Error ''value too long''), e)
          else let e1 = e\<lparr>tlv_buffer := tlv_buffer e @ [tlvType]\<rparr>;
                   e2 = e1\<lparr>tlv_buffer := tlv_buffer e1 @ put_uint16 (of_nat (length valueBytes))\<rparr>;
                   e3 = e2\<lparr>tlv_buffer := tlv_buffer e2 @ valueBytes\<rparr>
               in (Inr (), e3))"

definition Bytes :: "TlvEncoder \<Rightarrow> bytes" where
  "Bytes e = tlv_buffer e"

section \<open>Decoder\<close>

record TlvDecoder =
  dec_data :: bytes
  dec_pos :: nat

definition NewTlvDecoder :: "bytes \<Rightarrow> TlvDecoder" where
  "NewTlvDecoder data = \<lparr>dec_data = data, dec_pos = 0\<rparr>"

definition DecodeOne :: "TlvDecoder \<Rightarrow> TLV result \<times> TlvDecoder" where
  "DecodeOne d =
     (let data = dec_data d; pos = dec_pos d in
      if pos + 3 > length data then (Inl (Error ''unexpected EOF''), d)
      else case idx data pos of
        Inl e \<Rightarrow> (Inl e, d)
      | Inr ty \<Rightarrow>
        (case bind_r (subslice data (pos + 1) (pos + 1 + 2)) Uint16 of
           Inl e \<Rightarrow> (Inl e, d\<lparr>dec_pos := pos + 1\<rparr>)
         | Inr len \<Rightarrow>
           let d1 = d\<lparr>dec_pos := pos + 3\<rparr> in
           if pos + 3 + unat len > length data then (Inl (Error ''unexpected EOF''), d1)
           else case subslice data (pos + 3) (pos + 3 + unat len) of
             Inl e \<Rightarrow> (Inl e, d1)
           | Inr v \<Rightarrow> (Inr \<lparr>tlv_Type = ty, tlv_Length = len, tlv_Value = v\<rparr>,
                       d\<lparr>dec_pos := pos + 3 + unat len\<rparr>)))"

lemma DecodeOne_progress:
  assumes "DecodeOne d = (Inr t, d')"
  shows "dec_data d' = dec_data d" and "dec_pos d + 3 \<le> dec_pos d'"
    and "dec_pos d' \<le> length (dec_data d)"
  using assms by (auto simp: DecodeOne_def Let_def split: if_splits sum.splits)

lemma DecodeOne_measure:
  assumes "DecodeOne d = (Inr t, d')" and "dec_pos d < length (dec_data d)"
  shows "length (dec_data d') - dec_pos d' < length (dec_data d) - dec_pos d"
  using DecodeOne_progress [OF assms(1)] assms(2) by simp

function DecodeAll_loop :: "TlvDecoder \<Rightarrow> TLV list \<Rightarrow> TLV list result" where
  "DecodeAll_loop d tlvs =
     (if dec_pos d < length (dec_data d)
      then case DecodeOne d of
        (Inl e, _) \<Rightarrow> Inl e
      | (Inr t, d') \<Rightarrow> DecodeAll_loop d' (tlvs @ [t])
      else Inr tlvs)"
  by pat_completeness auto
termination
  by (relation "measure (\<lambda>(d, _). length (dec_data d) - dec_pos d)")
     (auto intro: DecodeOne_measure dest: sym)

definition DecodeAll :: "TlvDecoder \<Rightarrow> TLV list result" where
  "DecodeAll d = DecodeAll_loop d []"

section \<open>Getters\<close>

definition GetUint8 :: "TLV \<Rightarrow> byte result" where
  "GetUint8 t = (if tlv_Length t \<noteq> 1 then Inl (Error ''invalid uint8 length'')
     else idx (tlv_Value t) 0)"

definition GetUint16 :: "TLV \<Rightarrow> uint16 result" where
  "GetUint16 t = (if tlv_Length t \<noteq> 2 then Inl (Error ''invalid uint16 length'')
     else Uint16 (tlv_Value t))"

definition GetUint32 :: "TLV \<Rightarrow> uint32 result" where
  "GetUint32 t = (if tlv_Length t \<noteq> 4 then Inl (Error ''invalid uint32 length'')
     else Uint32 (tlv_Value t))"

definition GetString :: "TLV \<Rightarrow> string" where
  "GetString t = to_string (tlv_Value t)"

section \<open>Encoded fields\<close>

definition wf_tlv :: "TLV \<Rightarrow> bool" where
  "wf_tlv t \<longleftrightarrow> unat (tlv_Length t) = length (tlv_Value t)"

definition tlv_bytes :: "TLV \<Rightarrow> bytes" where
  "tlv_bytes t = tlv_Type t # put_uint16 (tlv_Length t) @ tlv_Value t"

lemma length_tlv_bytes [simp]: "length (tlv_bytes t) = 3 + length (tlv_Value t)"
  by (simp add: tlv_bytes_def)

lemma DecodeOne_encoded:
  assumes "wf_tlv t"
  shows "DecodeOne \<lparr>dec_data = pre @ tlv_bytes t @ rest, dec_pos = length pre\<rparr> =
    (Inr t, \<lparr>dec_data = pre @ tlv_bytes t @ rest, dec_pos = length pre + length (tlv_bytes t)\<rparr>)"
  using assms
  by (simp add: DecodeOne_def Let_def wf_tlv_def tlv_bytes_def put_uint16_def go_simps nth_append
      eval_nat_numeral add.assoc)

lemma DecodeOne_split:
  assumes "DecodeOne d = (Inr t, d')"
  shows "wf_tlv t"
    and "drop (dec_pos d) (dec_data d) = tlv_bytes t @ drop (dec_pos d') (dec_data d)"
proof -
  let ?x = "drop (dec_pos d) (dec_data d)"
  have "3 \<le> length ?x"
    using assms by (auto simp: DecodeOne_def Let_def split: if_splits)
  then obtain ty b0 b1 r where x: "?x = ty # b0 # b1 # r"
    by (cases ?x; cases "tl ?x"; cases "tl (tl ?x)") auto
  have rr: "drop (dec_pos d + 3) (dec_data d) = r"
    using x by (metis drop_drop add.commute drop0 drop_Suc_Cons numeral_3_eq_3)
  have at: "dec_data d ! dec_pos d = ty"
    using x by (metis hd_drop_conv_nth list.sel(1) drop_all leI list.distinct(1))
  have sl: "drop (Suc (dec_pos d)) (dec_data d) = b0 # b1 # r"
    using x by (metis drop_Suc list.sel(3) tl_drop)
  from assms x at sl rr
  have "t = \<lparr>tlv_Type = ty, tlv_Length = be_uint16 b0 b1, tlv_Value = take (unat (be_uint16 b0 b1)) r\<rparr>"
    and d': "dec_pos d' = dec_pos d + 3 + unat (be_uint16 b0 b1)"
    and len: "dec_pos d + 3 + unat (be_uint16 b0 b1) \<le> length (dec_data d)"
    by (auto simp: DecodeOne_def Let_def idx_def subslice_def split: if_splits)
  moreover have "unat (be_uint16 b0 b1) \<le> length r"
    using len rr by (metis add_le_imp_le_diff add.commute length_drop)
  ultimately show "wf_tlv t" and "?x = tlv_bytes t @ drop (dec_pos d') (dec_data d)"
    using x rr by (auto simp: wf_tlv_def tlv_bytes_def put_uint16_def add.commute
        drop_drop [symmetric] simp del: drop_drop)
qed

lemma tlv_bytes_not_Nil [simp]: "tlv_bytes t \<noteq> []"
  by (simp add: tlv_bytes_def)

declare DecodeAll_loop.simps [simp del]

lemma DecodeAll_loop_sound:
  "DecodeAll_loop d acc = Inr ts \<Longrightarrow>
     \<exists>us. ts = acc @ us \<and> list_all wf_tlv us \<and>
       drop (dec_pos d) (dec_data d) = concat (map tlv_bytes us)"
proof (induction d acc rule: DecodeAll_loop.induct)
  case (1 d acc)
  show ?case
  proof (cases "dec_pos d < length (dec_data d)")
    case False
    with "1.prems" show ?thesis by (auto simp: DecodeAll_loop.simps [of d acc])
  next
    case True
    with "1.prems" obtain t d' where one: "DecodeOne d = (Inr t, d')"
      and rest: "DecodeAll_loop d' (acc @ [t]) = Inr ts"
      by (auto simp: DecodeAll_loop.simps [of d acc] split: prod.splits sum.splits)
    from "1.IH" [OF True one [symmetric] refl rest] obtain us where
      us: "ts = (acc @ [t]) @ us" "list_all wf_tlv us"
        "drop (dec_pos d') (dec_data d') = concat (map tlv_bytes us)" by blast
    have "ts = acc @ (t # us) \<and> list_all wf_tlv (t # us) \<and>
      drop (dec_pos d) (dec_data d) = concat (map tlv_bytes (t # us))"
      using us DecodeOne_split [OF one] DecodeOne_progress(1) [OF one] by simp
    then show ?thesis by blast
  qed
qed

lemma DecodeAll_loop_complete:
  assumes "list_all wf_tlv us"
  shows "DecodeAll_loop \<lparr>dec_data = pre @ concat (map tlv_bytes us), dec_pos = length pre\<rparr> acc =
    Inr (acc @ us)"
  using assms
proof (induction us arbitrary: pre acc)
  case Nil
  then show ?case by (simp add: DecodeAll_loop.simps)
next
  case (Cons t us)
  then have one: "DecodeOne \<lparr>dec_data = pre @ tlv_bytes t @ concat (map tlv_bytes us),
      dec_pos = length pre\<rparr> = (Inr t, \<lparr>dec_data = (pre @ tlv_bytes t) @ concat (map tlv_bytes us),
      dec_pos = length (pre @ tlv_bytes t)\<rparr>)"
    using DecodeOne_encoded [of t pre "concat (map tlv_bytes us)"] by simp
  show ?case
    using Cons.IH [of "pre @ tlv_bytes t" "acc @ [t]"] Cons.prems
    by (subst DecodeAll_loop.simps) (simp add: one)
qed

lemma DecodeAll_iff:
  "DecodeAll (NewTlvDecoder data) = Inr ts \<longleftrightarrow>
     list_all wf_tlv ts \<and> data = concat (map tlv_bytes ts)"
  using DecodeAll_loop_sound [of "NewTlvDecoder data" "[]" ts]
    DecodeAll_loop_complete [of ts "[]" "[]"]
  by (auto simp: DecodeAll_def NewTlvDecoder_def)

lemma DecodeOne_error: "DecodeOne d = (Inl e, d') \<Longrightarrow> e = Error ''unexpected EOF''"
  by (auto simp: DecodeOne_def Let_def idx_def subslice_def Uint16_ok
      split: if_splits sum.splits)

lemma DecodeAll_loop_error: "DecodeAll_loop d acc = Inl e \<Longrightarrow> e = Error ''unexpected EOF''"
proof (induction d acc rule: DecodeAll_loop.induct)
  case (1 d acc)
  then show ?case
    by (auto simp: DecodeAll_loop.simps [of d acc] split: if_splits prod.splits sum.splits
        dest: DecodeOne_error)
qed

section \<open>Sequences of additions\<close>

text \<open>What one \<open>Add\<close> contributes: its field, or nothing when it returns an error.\<close>

definition field_of :: "(rat \<Rightarrow> uint32) \<Rightarrow> byte \<times> tlv_value \<Rightarrow> TLV list" where
  "field_of oor f = (case value_bytes oor (snd f) of
     Inl _ \<Rightarrow> []
   | Inr b \<Rightarrow> if length b > 65535 then []
       else [\<lparr>tlv_Type = fst f, tlv_Length = of_nat (length b), tlv_Value = b\<rparr>])"

definition add_all :: "(rat \<Rightarrow> uint32) \<Rightarrow> TlvEncoder \<Rightarrow> (byte \<times> tlv_value) list \<Rightarrow> TlvEncoder" where
  "add_all oor e fs = foldl (\<lambda>e f. snd (Add oor e (fst f) (snd f))) e fs"

lemma Add_field:
  "tlv_buffer (snd (Add oor e ty v)) = tlv_buffer e @ concat (map tlv_bytes (field_of oor (ty, v)))"
  by (auto simp: Add_def field_of_def tlv_bytes_def Let_def split: sum.splits)

lemma field_of_wf: "list_all wf_tlv (field_of oor f)"
  by (auto simp: field_of_def wf_tlv_def unat_of_nat_uint16 split: sum.splits)

lemma add_all_bytes:
  "tlv_buffer (add_all oor e fs) = tlv_buffer e @ concat (map tlv_bytes (concat (map (field_of oor) fs)))"
proof (induction fs arbitrary: e)
  case (Cons f fs)
  then show ?case by (simp add: add_all_def Add_field [of oor e "fst f" "snd f"])
qed (simp add: add_all_def)

section \<open>Properties\<close>

text \<open>C26: Whatever sequence of \<open>Add\<close> calls filled the encoder, decoding its bytes yields exactly
  the fields of the successful calls, in order; a failed call leaves no trace in the buffer.\<close>

theorem tlv_roundtrip:
  "DecodeAll (NewTlvDecoder (Bytes (add_all oor NewTlvEncoder fs))) =
     Inr (concat (map (field_of oor) fs))"
proof -
  have "list_all wf_tlv (concat (map (field_of oor) fs))"
    using field_of_wf by (induction fs) auto
  then show ?thesis
    by (simp add: DecodeAll_iff Bytes_def add_all_bytes NewTlvEncoder_def)
qed

text \<open>The decoder accepts exactly the concatenations of well-formed fields, so a payload has
  at most one reading; and it reports every other payload as an unexpected end, never by a panic.\<close>

theorem tlv_decode_exact:
  "(DecodeAll (NewTlvDecoder data) = Inr ts \<longleftrightarrow>
      list_all wf_tlv ts \<and> data = concat (map tlv_bytes ts)) \<and>
   (DecodeAll (NewTlvDecoder data) = Inl e \<longrightarrow> e = Error ''unexpected EOF'')"
  using DecodeAll_iff DecodeAll_loop_error by (auto simp: DecodeAll_def)

text \<open>Witness: a payload cut inside its second field is refused.\<close>

theorem tlv_decode_exact_witness:
  "DecodeAll (NewTlvDecoder [1, 0, 1, 7, 2, 0, 2, 5]) = Inl (Error ''unexpected EOF'')"
proof -
  have "isl (DecodeAll (NewTlvDecoder [1, 0, 1, 7, 2, 0, 2, 5]))" by code_simp
  then obtain e where "DecodeAll (NewTlvDecoder [1, 0, 1, 7, 2, 0, 2, 5]) = Inl e"
    by (auto simp: isl_def)
  then show ?thesis using tlv_decode_exact [of "[1, 0, 1, 7, 2, 0, 2, 5]"] by blast
qed

text \<open>The typed getters return what was added, for every integer width the handlers read and
  for strings; an encoded \<^verbatim>\<open>float32\<close> occupies four bytes, so the 16-bit getter the telemetry
  handler applies to temperatures rejects it.\<close>

theorem tlv_getters:
  "(\<exists>t. field_of oor (ty, VUint8 a) = [t] \<and> GetUint8 t = Inr a) \<and>
   (\<exists>t. field_of oor (ty, VUint16 b) = [t] \<and> GetUint16 t = Inr b) \<and>
   (\<exists>t. field_of oor (ty, VUint32 c) = [t] \<and> GetUint32 t = Inr c) \<and>
   (\<exists>t. field_of oor (ty, VFloat32 x) = [t] \<and>
      GetUint16 t = Inl (Error ''invalid uint16 length'')) \<and>
   (length s \<le> 65535 \<longrightarrow> (\<exists>t. field_of oor (ty, VString s) = [t] \<and> GetString t = s))"
  by (auto simp: field_of_def GetUint8_def GetUint16_def GetUint32_def GetString_def idx_def
      put_uint16_def put_uint32_def)

theorem tlv_getters_witness:
  "\<exists>t. field_of (\<lambda>_. 0) (TypeDeviceID, VString ''dev_1'') = [t] \<and> GetString t = ''dev_1''"
  using tlv_getters [of "\<lambda>_. 0" TypeDeviceID 0 0 0 0 "''dev_1''"] by simp

end
