(* ===== verification/Config.thy ===== *)
theory Config
  imports Prelude
begin

text \<open>
  \<^verbatim>\<open>internal/config/config.go\<close>: the configuration structures with their defaults, loading (file,
  parser by suffix, validation, environment overrides, key files), validation, and the list
  splitter the broker override uses.  The file system, the environment and the YAML and JSON
  parsers are arguments: a reader of files, a reader of variables and two functions that fill a
  configuration.  Go's \<^verbatim>\<open>int\<close> and \<^verbatim>\<open>int64\<close> settings are \<open>int\<close>; a product that can overflow is wrapped
  to 64 bits.
\<close>

section \<open>Structures and defaults\<close>

record AdminConfig =
  adm_Enabled :: bool
  adm_BuildDir :: string

record RuntimeConfig =
  rt_MaxProcs :: int

record LogConfig =
  log_Level :: string
  log_Format :: string
  log_Output :: string

record CendConfig =
  cend_Host :: string
  cend_Port :: int
  cend_MaxConnections :: int
  cend_HeartbeatTimeout :: int
  cend_ReadBufferSize :: int
  cend_WriteBufferSize :: int
  cend_EnableCompression :: bool
  cend_MaxMessageSize :: int

record IoTConfig =
  iot_Host :: string
  iot_Port :: int
  iot_DTLSPort :: int
  iot_PSK :: string
  iot_DTLSEnabled :: bool
  iot_MaxPacketSize :: int
  iot_ReadTimeout :: int
  iot_WriteTimeout :: int
  iot_SessionTimeout :: int
  iot_WorkerCount :: int
  iot_QUICEnabled :: bool
  iot_QUICPort :: int
  iot_QUICCert :: string
  iot_QUICKey :: string
  iot_QUICIdleSec :: int

record RedisConfig =
  red_Addr :: string
  red_Password :: string
  red_DB :: int
  red_PoolSize :: int
  red_MinIdleConns :: int
  red_MaxRetries :: int

record KafkaConfig =
  kaf_Brokers :: "string list"
  kaf_Topic :: string
  kaf_GroupID :: string
  kaf_BatchSize :: int

record AuthConfig =
  auth_JWTPrivateKey :: string
  auth_JWTPublicKey :: string
  auth_JWTPrivateKeyFile :: string
  auth_JWTPublicKeyFile :: string
  auth_JWTIssuer :: string
  auth_JWTTTLSeconds :: int
  auth_PSKDevices :: "string \<rightharpoonup> string"

record MonitorConfig =
  mon_Host :: string
  mon_Port :: int

record ShadowConfig =
  shc_Enabled :: bool
  shc_OfflineTTLSeconds :: int
  shc_PreoccupyTimeoutSeconds :: int
  shc_CmdTTLSeconds :: int
  shc_MaxCmdBatch :: int
  shc_PushEnabled :: bool
  shc_GeoEnabled :: bool
  shc_OfflineScanSeconds :: int

record RateLimitConfig =
  rl_Enabled :: bool
  rl_ConnectRate :: int
  rl_ConnectBurst :: int
  rl_UDPPerIPRate :: int
  rl_UDPPerIPBurst :: int
  rl_CendAcceptRate :: int

record Config =
  cfg_Runtime :: RuntimeConfig
  cfg_Log :: LogConfig
  cfg_Cend :: CendConfig
  cfg_IoT :: IoTConfig
  cfg_Redis :: RedisConfig
  cfg_Kafka :: KafkaConfig
  cfg_Auth :: AuthConfig
  cfg_Monitor :: MonitorConfig
  cfg_Shadow :: ShadowConfig
  cfg_RateLimit :: RateLimitConfig
  cfg_Admin :: AdminConfig

definition DefaultConfig :: Config where
  "DefaultConfig = \<lparr>
     cfg_Runtime = \<lparr>rt_MaxProcs = 4\<rparr>,
     cfg_Log = \<lparr>log_Level = ''info'', log_Format = ''json'', log_Output = ''stdout''\<rparr>,
     cfg_Cend = \<lparr>cend_Host = ''0.0.0.0'', cend_Port = 8080, cend_MaxConnections = 100000,
       cend_HeartbeatTimeout = 120, cend_ReadBufferSize = 65536, cend_WriteBufferSize = 65536,
       cend_EnableCompression = True, cend_MaxMessageSize = 1048576\<rparr>,
     cfg_IoT = \<lparr>iot_Host = ''0.0.0.0'', iot_Port = 5683, iot_DTLSPort = 5684, iot_PSK = [],
       iot_DTLSEnabled = True, iot_MaxPacketSize = 65535, iot_ReadTimeout = 30, iot_WriteTimeout = 10,
       iot_SessionTimeout = 300, iot_WorkerCount = 2048, iot_QUICEnabled = False, iot_QUICPort = 5685,
       iot_QUICCert = ''config/keys/quic_cert.pem'', iot_QUICKey = ''config/keys/quic_key.pem'',
       iot_QUICIdleSec = 300\<rparr>,
     cfg_Redis = \<lparr>red_Addr = ''localhost:6379'', red_Password = [], red_DB = 0,
       red_PoolSize = 300, red_MinIdleConns = 10, red_MaxRetries = 3\<rparr>,
     cfg_Kafka = \<lparr>kaf_Brokers = [''localhost:9092''], kaf_Topic = ''gateway_messages'',
       kaf_GroupID = ''gateway_group'', kaf_BatchSize = 100\<rparr>,
     cfg_Auth = \<lparr>auth_JWTPrivateKey = [], auth_JWTPublicKey = [], auth_JWTPrivateKeyFile = [],
       auth_JWTPublicKeyFile = [], auth_JWTIssuer = ''dual-gateway'', auth_JWTTTLSeconds = 7200,
       auth_PSKDevices = Map.empty\<rparr>,
     cfg_Monitor = \<lparr>mon_Host = ''0.0.0.0'', mon_Port = 9090\<rparr>,
     cfg_Shadow = \<lparr>shc_Enabled = True, shc_OfflineTTLSeconds = 120,
       shc_PreoccupyTimeoutSeconds = 60, shc_CmdTTLSeconds = 86400, shc_MaxCmdBatch = 10,
       shc_PushEnabled = True, shc_GeoEnabled = True, shc_OfflineScanSeconds = 15\<rparr>,
     cfg_RateLimit = \<lparr>rl_Enabled = True, rl_ConnectRate = 10000, rl_ConnectBurst = 10000,
       rl_UDPPerIPRate = 10000, rl_UDPPerIPBurst = 20000, rl_CendAcceptRate = 5000\<rparr>,
     cfg_Admin = \<lparr>adm_Enabled = True, adm_BuildDir = ''build''\<rparr>\<rparr>"

section \<open>Splitting and trimming\<close>

definition hasSuffix :: "string \<Rightarrow> string list \<Rightarrow> bool" where
  "hasSuffix s suffixes =
     list_ex (\<lambda>suffix. length suffix \<le> length s \<and> drop (length s - length suffix) s = suffix) suffixes"

definition is_blank :: "char \<Rightarrow> bool" where
  "is_blank c \<longleftrightarrow> c = CHR '' '' \<or> c = CHR 0x09"

fun trim_left :: "string \<Rightarrow> string" where
  "trim_left [] = []"
| "trim_left (c # s) = (if is_blank c then trim_left s else c # s)"

function trim_right :: "string \<Rightarrow> string" where
  "trim_right s = (if 0 < length s \<and> is_blank (s ! (length s - 1)) then trim_right (take (length s - 1) s) else s)"
  by auto
termination by (relation "measure length") auto

declare trim_right.simps [simp del]

definition trimSpace :: "string \<Rightarrow> string" where
  "trimSpace s = trim_right (trim_left s)"

text \<open>\<^verbatim>\<open>string(b)\<close> of a byte is the UTF-8 encoding of the code point: two bytes from 128 on.\<close>

definition string_of_byte :: "char \<Rightarrow> string" where
  "string_of_byte c = (let n = (of_char c :: nat) in
     if n < 128 then [c] else [char_of (192 + n div 64), char_of (128 + n mod 64)])"

function split_loop :: "string \<Rightarrow> string \<Rightarrow> nat \<Rightarrow> nat \<Rightarrow> string list \<Rightarrow> string list" where
  "split_loop s sep i start result =
     (if i < length s then
        (if string_of_byte (s ! i) = sep
         then (let part = trimSpace (take (i - start) (drop start s))
               in split_loop s sep (i + 1) (i + 1) (if part \<noteq> [] then result @ [part] else result))
         else split_loop s sep (i + 1) start result)
      else (let part = trimSpace (drop start s) in if part \<noteq> [] then result @ [part] else result))"
  by pat_completeness auto
termination by (relation "measure (\<lambda>(s, _, i, _). length s - i)") auto

declare split_loop.simps [simp del]

definition splitAndTrim :: "string \<Rightarrow> string \<Rightarrow> string list" where
  "splitAndTrim s sep = split_loop s sep 0 0 []"

section \<open>Validation, overrides, loading\<close>

definition JWTTTL :: "AuthConfig \<Rightarrow> int" where
  "JWTTTL a = (if auth_JWTTTLSeconds a \<le> 0 then 2 * hour else wrap64 (auth_JWTTTLSeconds a * second))"

definition Validate :: "Config \<Rightarrow> unit result" where
  "Validate c =
     (if rt_MaxProcs (cfg_Runtime c) \<le> 0 then Inl (Error ''max_procs must be positive'')
      else if cend_Port (cfg_Cend c) \<le> 0 \<or> 65535 < cend_Port (cfg_Cend c)
      then Inl (Error (''invalid C-end port: '' @ show_int (cend_Port (cfg_Cend c))))
      else if iot_Port (cfg_IoT c) \<le> 0 \<or> 65535 < iot_Port (cfg_IoT c)
      then Inl (Error (''invalid IoT port: '' @ show_int (iot_Port (cfg_IoT c))))
      else if iot_DTLSPort (cfg_IoT c) \<noteq> 0 \<and> (iot_DTLSPort (cfg_IoT c) \<le> 0 \<or> 65535 < iot_DTLSPort (cfg_IoT c))
      then Inl (Error (''invalid IoT DTLS port: '' @ show_int (iot_DTLSPort (cfg_IoT c))))
      else if iot_QUICEnabled (cfg_IoT c) \<and> (iot_QUICPort (cfg_IoT c) \<le> 0 \<or> 65535 < iot_QUICPort (cfg_IoT c))
      then Inl (Error (''invalid IoT QUIC port: '' @ show_int (iot_QUICPort (cfg_IoT c))))
      else if iot_QUICEnabled (cfg_IoT c) \<and>
              (iot_QUICPort (cfg_IoT c) = iot_Port (cfg_IoT c) \<or> iot_QUICPort (cfg_IoT c) = iot_DTLSPort (cfg_IoT c))
      then Inl (Error (''IoT QUIC port conflicts with UDP/DTLS port: '' @ show_int (iot_QUICPort (cfg_IoT c))))
      else if red_PoolSize (cfg_Redis c) \<le> 0 then Inl (Error ''redis pool size must be positive'')
      else if length (kaf_Brokers (cfg_Kafka c)) = 0 then Inl (Error ''kafka brokers cannot be empty'')
      else Inr ())"

definition ApplyEnvOverrides :: "(string \<Rightarrow> string) \<Rightarrow> Config \<Rightarrow> Config" where
  "ApplyEnvOverrides Getenv c0 =
     (let c1 = (let v = Getenv ''REDIS_ADDR'' in
                if v \<noteq> [] then c0\<lparr>cfg_Redis := (cfg_Redis c0)\<lparr>red_Addr := v\<rparr>\<rparr> else c0);
          c2 = (let v = Getenv ''KAFKA_BROKERS'' in
                if v \<noteq> [] then c1\<lparr>cfg_Kafka := (cfg_Kafka c1)\<lparr>kaf_Brokers := splitAndTrim v '',''\<rparr>\<rparr> else c1);
          c3 = (let v = Getenv ''LOG_LEVEL'' in
                if v \<noteq> [] then c2\<lparr>cfg_Log := (cfg_Log c2)\<lparr>log_Level := v\<rparr>\<rparr> else c2)
      in c3)"

definition LoadJWTKeyFiles :: "(string \<Rightarrow> string result) \<Rightarrow> Config \<Rightarrow> Config result" where
  "LoadJWTKeyFiles ReadFile c =
     bind_r (if auth_JWTPrivateKeyFile (cfg_Auth c) \<noteq> []
             then (case ReadFile (auth_JWTPrivateKeyFile (cfg_Auth c)) of
                     Inl e \<Rightarrow> Inl (wrap_error ''failed to read private key file: '' e)
                   | Inr data \<Rightarrow> Inr (c\<lparr>cfg_Auth := (cfg_Auth c)\<lparr>auth_JWTPrivateKey := data\<rparr>\<rparr>))
             else Inr c)
       (\<lambda>c. if auth_JWTPublicKeyFile (cfg_Auth c) \<noteq> []
             then (case ReadFile (auth_JWTPublicKeyFile (cfg_Auth c)) of
                     Inl e \<Rightarrow> Inl (wrap_error ''failed to read public key file: '' e)
                   | Inr data \<Rightarrow> Inr (c\<lparr>cfg_Auth := (cfg_Auth c)\<lparr>auth_JWTPublicKey := data\<rparr>\<rparr>))
             else Inr c)"

definition parse_config :: "(string \<Rightarrow> Config \<Rightarrow> Config result) \<Rightarrow> (string \<Rightarrow> Config \<Rightarrow> Config result) \<Rightarrow>
    string \<Rightarrow> string \<Rightarrow> Config \<Rightarrow> Config result" where
  "parse_config yaml_Unmarshal json_Unmarshal path data config =
     (if hasSuffix path [''.yaml'', ''.yml''] then
        (case yaml_Unmarshal data config of
           Inl e \<Rightarrow> Inl (wrap_error ''failed to parse YAML config: '' e) | Inr c \<Rightarrow> Inr c)
      else if hasSuffix path [''.json''] then
        (case json_Unmarshal data config of
           Inl e \<Rightarrow> Inl (wrap_error ''failed to parse JSON config: '' e) | Inr c \<Rightarrow> Inr c)
      else Inl (Error (''unsupported config file format: '' @ path)))"

definition Load :: "(string \<Rightarrow> string result) \<Rightarrow> (string \<Rightarrow> string) \<Rightarrow>
    (string \<Rightarrow> Config \<Rightarrow> Config result) \<Rightarrow> (string \<Rightarrow> Config \<Rightarrow> Config result) \<Rightarrow> string \<Rightarrow> Config result" where
  "Load ReadFile Getenv yaml_Unmarshal json_Unmarshal path =
     (case ReadFile path of
        Inl e \<Rightarrow> Inl (wrap_error ''failed to read config file: '' e)
      | Inr data \<Rightarrow>
          bind_r (parse_config yaml_Unmarshal json_Unmarshal path data DefaultConfig) (\<lambda>config.
          (case Validate config of
             Inl e \<Rightarrow> Inl (wrap_error ''invalid config: '' e)
           | Inr _ \<Rightarrow>
               (case LoadJWTKeyFiles ReadFile (ApplyEnvOverrides Getenv config) of
                  Inl e \<Rightarrow> Inl (wrap_error ''failed to load JWT key files: '' e)
                | Inr c \<Rightarrow> Inr c))))"

section \<open>Lemmas\<close>

subsection \<open>Trimming and splitting meet their reference definitions\<close>

lemma trim_left_dropWhile: "trim_left s = dropWhile is_blank s"
  by (induction s) auto

lemma trim_right_dropWhile: "trim_right s = rev (dropWhile is_blank (rev s))"
proof (induction s rule: trim_right.induct)
  case (1 s)
  show ?case
  proof (cases s rule: rev_cases)
    case Nil then show ?thesis by (simp add: trim_right.simps)
  next
    case (snoc xs x)
    then show ?thesis using 1 by (subst trim_right.simps) (auto simp: nth_append)
  qed
qed

text \<open>The textbook splitter: the pieces between the separators, empty ones included.\<close>

fun split_on :: "char \<Rightarrow> string \<Rightarrow> string list" where
  "split_on c [] = [[]]"
| "split_on c (x # xs) = (if x = c then [] # split_on c xs
     else (case split_on c xs of [] \<Rightarrow> [[x]] | y # ys \<Rightarrow> (x # y) # ys))"

definition pieces :: "char \<Rightarrow> string \<Rightarrow> string list" where
  "pieces c s = filter (\<lambda>p. p \<noteq> []) (map trimSpace (split_on c s))"

lemma split_on_no_sep: "c \<notin> set s \<Longrightarrow> split_on c s = [s]"
  by (induction s) auto

lemma split_on_sep: "c \<notin> set pre \<Longrightarrow> split_on c (pre @ c # s) = pre # split_on c s"
  by (induction pre) auto

lemma split_loop_pieces:
  assumes "string_of_byte c = [c]" "start \<le> i" "i \<le> length s" "c \<notin> set (take (i - start) (drop start s))"
  shows "split_loop s [c] i start result = result @ pieces c (drop start s)"
  using assms(2-)
proof (induction s "[c]" i start result rule: split_loop.induct)
  case (1 s i start result)
  have sep: "string_of_byte x = [c] \<longleftrightarrow> x = c" for x
    using assms(1) by (auto simp: string_of_byte_def Let_def split: if_splits)
  show ?case
  proof (cases "i < length s")
    case False
    then have "take (i - start) (drop start s) = drop start s" by simp
    then have "split_on c (drop start s) = [drop start s]" using 1 by (simp add: split_on_no_sep)
    then show ?thesis using False by (subst split_loop.simps) (simp add: pieces_def Let_def)
  next
    case True
    define pre where "pre = take (i - start) (drop start s)"
    have split: "drop start s = pre @ s ! i # drop (i + 1) s"
      using True 1(3) unfolding pre_def
      by (metis Cons_nth_drop_Suc Suc_eq_plus1 append_take_drop_id drop_drop le_add_diff_inverse2)
    show ?thesis
    proof (cases "s ! i = c")
      case True
      have "split_loop s [c] i start result =
          (if trimSpace pre \<noteq> [] then result @ [trimSpace pre] else result) @ pieces c (drop (i + 1) s)"
        using 1(1) \<open>i < length s\<close> True by (subst split_loop.simps) (simp add: sep pre_def Let_def)
      moreover have "split_on c (drop start s) = pre # split_on c (drop (i + 1) s)"
        unfolding split True using split_on_sep [OF 1(5) [folded pre_def]] by simp
      ultimately show ?thesis by (simp add: pieces_def)
    next
      case False
      have "take (i + 1 - start) (drop start s) = pre @ [s ! i]"
        using \<open>i < length s\<close> 1(3) by (simp add: pre_def Suc_diff_le take_Suc_conv_app_nth)
      then show ?thesis
        using 1 \<open>i < length s\<close> False by (subst split_loop.simps) (simp add: sep pre_def)
    qed
  qed
qed

lemma blank_pieces:
  "\<forall>ch \<in> set s. ch = c \<or> is_blank ch \<Longrightarrow> filter (\<lambda>p. p \<noteq> []) (map trimSpace (split_on c s)) = []"
proof -
  assume a: "\<forall>ch \<in> set s. ch = c \<or> is_blank ch"
  have "\<forall>p \<in> set (split_on c s). list_all is_blank p" using a
    by (induction s) (auto split: list.splits)
  then show ?thesis
    by (auto simp: filter_empty_conv trimSpace_def trim_left_dropWhile trim_right_dropWhile list_all_iff dest!: set_dropWhileD)
qed

lemma Validate_ok_iff: "Validate c = Inr () \<longleftrightarrow>
    0 < rt_MaxProcs (cfg_Runtime c) \<and>
    cend_Port (cfg_Cend c) \<in> {1..65535} \<and> iot_Port (cfg_IoT c) \<in> {1..65535} \<and>
    iot_DTLSPort (cfg_IoT c) \<in> {0..65535} \<and>
    (iot_QUICEnabled (cfg_IoT c) \<longrightarrow> iot_QUICPort (cfg_IoT c) \<in> {1..65535} \<and>
       iot_QUICPort (cfg_IoT c) \<noteq> iot_Port (cfg_IoT c) \<and> iot_QUICPort (cfg_IoT c) \<noteq> iot_DTLSPort (cfg_IoT c)) \<and>
    0 < red_PoolSize (cfg_Redis c) \<and> kaf_Brokers (cfg_Kafka c) \<noteq> []"
  by (auto simp: Validate_def)

lemma ApplyEnvOverrides_frame:
  "cfg_Runtime (ApplyEnvOverrides env c) = cfg_Runtime c"
  "cfg_Cend (ApplyEnvOverrides env c) = cfg_Cend c"
  "cfg_IoT (ApplyEnvOverrides env c) = cfg_IoT c"
  "cfg_Auth (ApplyEnvOverrides env c) = cfg_Auth c"
  "red_PoolSize (cfg_Redis (ApplyEnvOverrides env c)) = red_PoolSize (cfg_Redis c)"
  "kaf_Brokers (cfg_Kafka (ApplyEnvOverrides env c)) =
     (if env ''KAFKA_BROKERS'' = [] then kaf_Brokers (cfg_Kafka c) else splitAndTrim (env ''KAFKA_BROKERS'') '','')"
  by (simp_all add: ApplyEnvOverrides_def Let_def)

lemma LoadJWTKeyFiles_frame:
  assumes "LoadJWTKeyFiles ReadFile c = Inr c'"
  shows "cfg_Runtime c' = cfg_Runtime c" "cfg_Cend c' = cfg_Cend c" "cfg_IoT c' = cfg_IoT c"
    "cfg_Redis c' = cfg_Redis c" "cfg_Kafka c' = cfg_Kafka c"
  using assms by (auto simp: LoadJWTKeyFiles_def bind_r_eq_Inr split: if_splits sum.splits)

lemma Load_Inr:
  assumes "Load ReadFile env y j path = Inr c'"
  obtains data c where "parse_config y j path data DefaultConfig = Inr c" "Validate c = Inr ()"
    "LoadJWTKeyFiles ReadFile (ApplyEnvOverrides env c) = Inr c'"
proof -
  obtain data c where p: "parse_config y j path data DefaultConfig = Inr c"
    and v: "(case Validate c of Inl e \<Rightarrow> Inl (wrap_error ''invalid config: '' e)
       | Inr _ \<Rightarrow> (case LoadJWTKeyFiles ReadFile (ApplyEnvOverrides env c) of
            Inl e \<Rightarrow> Inl (wrap_error ''failed to load JWT key files: '' e) | Inr c \<Rightarrow> Inr c)) = Inr c'"
    using assms by (cases "ReadFile path") (auto simp: Load_def bind_r_eq_Inr)
  show ?thesis
    using that [OF p] v by (cases "Validate c"; cases "LoadJWTKeyFiles ReadFile (ApplyEnvOverrides env c)") auto
qed

section \<open>Properties\<close>

text \<open>The broker list splitter returns exactly the non-empty trimmed pieces between commas, in order.\<close>

theorem splitAndTrim_pieces:
  "splitAndTrim s '','' = filter (\<lambda>p. p \<noteq> []) (map trimSpace (split_on CHR '','' s)) \<and>
   trimSpace s = rev (dropWhile is_blank (rev (dropWhile is_blank s)))"
  using split_loop_pieces [of "CHR '',''" 0 0 s "[]"]
  by (simp add: splitAndTrim_def pieces_def trimSpace_def trim_left_dropWhile trim_right_dropWhile string_of_byte_def)

text \<open>
  A loaded configuration has positive processor and pool counts, ports in range and a QUIC
  port apart from the UDP and DTLS ports, whatever the environment overrides; and its broker
  list is non-empty unless the environment replaced it.
\<close>

theorem load_validated:
  assumes "Load ReadFile env y j path = Inr c"
  shows "0 < rt_MaxProcs (cfg_Runtime c) \<and> 0 < red_PoolSize (cfg_Redis c) \<and>
    cend_Port (cfg_Cend c) \<in> {1..65535} \<and> iot_Port (cfg_IoT c) \<in> {1..65535} \<and>
    (iot_QUICEnabled (cfg_IoT c) \<longrightarrow> iot_QUICPort (cfg_IoT c) \<in> {1..65535} \<and>
       iot_QUICPort (cfg_IoT c) \<noteq> iot_Port (cfg_IoT c) \<and> iot_QUICPort (cfg_IoT c) \<noteq> iot_DTLSPort (cfg_IoT c)) \<and>
    (kaf_Brokers (cfg_Kafka c) \<noteq> [] \<or> pieces CHR '','' (env ''KAFKA_BROKERS'') = [] \<and> env ''KAFKA_BROKERS'' \<noteq> [])"
  using assms
proof (rule Load_Inr)
  fix data c0
  assume v: "Validate c0 = Inr ()" and k: "LoadJWTKeyFiles ReadFile (ApplyEnvOverrides env c0) = Inr c"
  note k_frame = LoadJWTKeyFiles_frame [OF k]
  have "splitAndTrim (env ''KAFKA_BROKERS'') '','' = pieces CHR '','' (env ''KAFKA_BROKERS'')"
    using split_loop_pieces [of "CHR '',''" 0 0 _ "[]"] by (simp add: splitAndTrim_def string_of_byte_def)
  then show ?thesis
    using v unfolding Validate_ok_iff k_frame ApplyEnvOverrides_frame by simp
qed

theorem load_validated_witness:
  "(\<exists>c. Load (\<lambda>_. Inr []) (\<lambda>_. []) (\<lambda>_ c. Inr c) (\<lambda>_ c. Inr c) ''a.yml'' = Inr c \<and> cend_Port (cfg_Cend c) = 8080 \<and>
     kaf_Brokers (cfg_Kafka c) \<noteq> [])"
proof -
  have l: "Load (\<lambda>_. Inr []) (\<lambda>_. []) (\<lambda>_ c. Inr c) (\<lambda>_ c. Inr c) ''a.yml'' = Inr DefaultConfig"
    by (simp add: Load_def parse_config_def hasSuffix_def Validate_def DefaultConfig_def
        LoadJWTKeyFiles_def ApplyEnvOverrides_def)
  from load_validated [OF this] have "kaf_Brokers (cfg_Kafka DefaultConfig) \<noteq> []" by simp
  with l show ?thesis by (simp add: DefaultConfig_def)
qed

text \<open>
  Validation runs before the environment overrides: a broker variable made only of commas
  and blanks passes and leaves a configuration with no broker at all.
\<close>

theorem load_env_can_empty_brokers:
  assumes "env ''KAFKA_BROKERS'' \<noteq> []" "\<forall>ch \<in> set (env ''KAFKA_BROKERS''). ch = CHR '','' \<or> is_blank ch"
    and "Load ReadFile env y j path = Inr c"
  shows "kaf_Brokers (cfg_Kafka c) = []"
  using assms(3)
proof (rule Load_Inr)
  fix data c0
  assume "LoadJWTKeyFiles ReadFile (ApplyEnvOverrides env c0) = Inr c"
  then have "kaf_Brokers (cfg_Kafka c) = pieces CHR '','' (env ''KAFKA_BROKERS'')"
    using assms(1) split_loop_pieces [of "CHR '',''" 0 0 _ "[]"]
    by (simp add: LoadJWTKeyFiles_frame ApplyEnvOverrides_frame splitAndTrim_def string_of_byte_def)
  also have "\<dots> = []"
    unfolding pieces_def using assms(2) by (simp add: blank_pieces)
  finally show ?thesis .
qed

theorem load_env_can_empty_brokers_witness:
  "(\<exists>c. Load (\<lambda>_. Inr []) (\<lambda>_. '' ,'') (\<lambda>_ c. Inr c) (\<lambda>_ c. Inr c) ''a.yml'' = Inr c \<and> kaf_Brokers (cfg_Kafka c) = [])"
proof -
  obtain c where l: "Load (\<lambda>_. Inr []) (\<lambda>_. '' ,'') (\<lambda>_ c. Inr c) (\<lambda>_ c. Inr c) ''a.yml'' = Inr c"
    by (simp add: Load_def parse_config_def hasSuffix_def Validate_def DefaultConfig_def
        LoadJWTKeyFiles_def ApplyEnvOverrides_def)
  from load_env_can_empty_brokers [OF _ _ this] l show ?thesis by (auto simp: is_blank_def)
qed

end
