(* ===== verification/Redis.thy ===== *)
theory Redis
  imports Prelude
begin

text \<open>
  The Redis side of the gateway.  The Redis server and the client library are outside the
  repository: their commands are the fields of a record \<open>redis_ops\<close> over an opaque store, an
  argument of every definition that talks to Redis, and what the code relies on are the named
  laws \<open>redis_hash_laws\<close> and \<open>redis_list_laws\<close>.  The theory also models
  \<^verbatim>\<open>internal/redis/client.go\<close>: the degraded local mode, the registries of gateways, users and
  devices, and publishing.  Structures that the code marshals to JSON are kept as the
  structures; \<open>json_ops\<close> stands for the marshalling where the result is stored as a string.
\<close>

section \<open>The Redis commands the sources use\<close>

record 'r redis_ops =
  RT :: "'r \<Rightarrow> (string \<times> bool) option \<times> 'r"
    \<comment> \<open>the next round trip: its error, if it fails, with whether the server still executed it;
        and the store the request meets, in which other clients may have run\<close>
  HGET :: "'r \<Rightarrow> string \<Rightarrow> string \<Rightarrow> string option"
  HGETALL :: "'r \<Rightarrow> string \<Rightarrow> (string \<times> string) list"
  HMSET :: "'r \<Rightarrow> string \<Rightarrow> (string \<times> string) list \<Rightarrow> 'r"
  HDEL :: "'r \<Rightarrow> string \<Rightarrow> string \<Rightarrow> 'r"
  SETEX :: "'r \<Rightarrow> string \<Rightarrow> string \<Rightarrow> string \<Rightarrow> 'r"
  GETK :: "'r \<Rightarrow> string \<Rightarrow> string option"
  EXPIRE :: "'r \<Rightarrow> string \<Rightarrow> int \<Rightarrow> 'r"
  SCAN :: "'r \<Rightarrow> string \<Rightarrow> string list"
  EXISTS :: "'r \<Rightarrow> string \<Rightarrow> bool"
  LRANGE :: "'r \<Rightarrow> string \<Rightarrow> string list"
  RPUSH :: "'r \<Rightarrow> string \<Rightarrow> string \<Rightarrow> 'r"
  LREM1 :: "'r \<Rightarrow> string \<Rightarrow> string \<Rightarrow> 'r"
  LUA_TONUMBER :: "string \<Rightarrow> int option"
  LUA_TOSTRING :: "int \<Rightarrow> string"

text \<open>One round trip: the call may fail, before or after the server has executed it.\<close>

definition rt_call :: "'r redis_ops \<Rightarrow> 'r \<Rightarrow> ('r \<Rightarrow> 'v result \<times> 'r) \<Rightarrow> 'v result \<times> 'r" where
  "rt_call ops r f = (case RT ops r of
     (None, r') \<Rightarrow> f r'
   | (Some (e, executed), r') \<Rightarrow> (Inl (Error e), if executed then snd (f r') else r'))"

text \<open>\<^verbatim>\<open>SET key value NX EX ttl\<close>.\<close>

definition SETNX :: "'r redis_ops \<Rightarrow> 'r \<Rightarrow> string \<Rightarrow> string \<Rightarrow> string \<Rightarrow> bool \<times> 'r" where
  "SETNX ops r k v ttl = (if EXISTS ops r k then (False, r) else (True, SETEX ops r k v ttl))"

definition redis_hash_laws :: "'r redis_ops \<Rightarrow> bool" where
  "redis_hash_laws ops \<longleftrightarrow>
     (\<forall>r k fs k' f. HGET ops (HMSET ops r k fs) k' f =
        (if k' = k then (case map_of (rev fs) f of Some v \<Rightarrow> Some v | None \<Rightarrow> HGET ops r k f)
         else HGET ops r k' f)) \<and>
     (\<forall>r k f k' f'. HGET ops (HDEL ops r k f) k' f' =
        (if k' = k \<and> f' = f then None else HGET ops r k' f')) \<and>
     (\<forall>r k v t k' f. k' \<noteq> k \<longrightarrow> HGET ops (SETEX ops r k v t) k' f = HGET ops r k' f) \<and>
     (\<forall>r k t k' f. HGET ops (EXPIRE ops r k t) k' f = HGET ops r k' f) \<and>
     (\<forall>r k f. map_of (HGETALL ops r k) f = HGET ops r k f) \<and>
     (\<forall>v. LUA_TONUMBER ops (LUA_TOSTRING ops v) = Some v)"

definition redis_list_laws :: "'r redis_ops \<Rightarrow> bool" where
  "redis_list_laws ops \<longleftrightarrow>
     (\<forall>r k x k'. LRANGE ops (RPUSH ops r k x) k' =
        (if k' = k then LRANGE ops r k @ [x] else LRANGE ops r k')) \<and>
     (\<forall>r k x k'. LRANGE ops (LREM1 ops r k x) k' =
        (if k' = k then remove1 x (LRANGE ops r k) else LRANGE ops r k')) \<and>
     (\<forall>r k v t k'. k' \<noteq> k \<longrightarrow> LRANGE ops (SETEX ops r k v t) k' = LRANGE ops r k') \<and>
     (\<forall>r k t k'. LRANGE ops (EXPIRE ops r k t) k' = LRANGE ops r k') \<and>
     (\<forall>r k v t k'. EXISTS ops (SETEX ops r k v t) k' \<longleftrightarrow> k' = k \<or> EXISTS ops r k') \<and>
     (\<forall>r k x k'. k' \<noteq> k \<longrightarrow> EXISTS ops (RPUSH ops r k x) k' = EXISTS ops r k') \<and>
     (\<forall>r k x k'. k' \<noteq> k \<longrightarrow> EXISTS ops (LREM1 ops r k x) k' = EXISTS ops r k') \<and>
     (\<forall>r k t k'. k' \<noteq> k \<longrightarrow> EXISTS ops (EXPIRE ops r k t) k' = EXISTS ops r k')"

section \<open>Structures that travel through Redis\<close>

record ConnectionInfo =
  ci_UserID :: string
  ci_ConnectionID :: string
  ci_GatewayID :: string
  ci_GatewayType :: string
  ci_Timestamp :: int

record IoTDeviceInfo =
  di_DeviceID :: string
  di_GatewayID :: string
  di_Address :: string
  di_LastSeen :: int
  di_Status :: string

record GatewayRecord =
  gr_id :: string
  gr_type :: string
  gr_addr :: string
  gr_time :: int

record ShadowEvent =
  ev_DeviceID :: string
  ev_State :: string
  ev_Version :: int
  ev_Timestamp :: int
  ev_GatewayID :: string

record CmdTrigger =
  trig_DeviceID :: string
  trig_CmdID :: string
  trig_CmdType :: string

record CmdResult =
  cr_cmd_id :: string
  cr_device_id :: string
  cr_code :: byte
  cr_result_state :: string
  cr_timestamp :: int

record ForwardMsg =
  fw_gateway_id :: string
  fw_user_id :: string
  fw_message :: bytes
  fw_timestamp :: int

datatype payload =
    EventMsg ShadowEvent | TriggerMsg CmdTrigger | ResultMsg CmdResult | ForwardPayload ForwardMsg

record json_ops =
  json_conn :: "ConnectionInfo \<Rightarrow> string"
  unjson_conn :: "string \<Rightarrow> ConnectionInfo option"
  json_dev :: "IoTDeviceInfo \<Rightarrow> string"
  unjson_dev :: "string \<Rightarrow> IoTDeviceInfo option"
  json_gw :: "GatewayRecord \<Rightarrow> string"
  unjson_gw :: "string \<Rightarrow> GatewayRecord option"

text \<open>Marshalling a value gives a non-empty document that unmarshals to it (valid UTF-8 strings).\<close>

definition json_conn_ok :: "json_ops \<Rightarrow> ConnectionInfo \<Rightarrow> bool" where
  "json_conn_ok js i \<longleftrightarrow> json_conn js i \<noteq> [] \<and> unjson_conn js (json_conn js i) = Some i"

definition json_dev_ok :: "json_ops \<Rightarrow> IoTDeviceInfo \<Rightarrow> bool" where
  "json_dev_ok js i \<longleftrightarrow> json_dev js i \<noteq> [] \<and> unjson_dev js (json_dev js i) = Some i"

text \<open>
  The package state after \<open>Init\<close>: local mode (no client) or not, the server's store, the local
  maps of the degraded mode, and the log of what was handed to \<^verbatim>\<open>PUBLISH\<close>.
\<close>

record 'r RedisState =
  localMode :: bool
  store :: 'r
  localGateways :: "string \<rightharpoonup> string"
  localOnline :: "string \<rightharpoonup> string"
  localIoTDev :: "string \<rightharpoonup> string"
  published :: "(string \<times> payload) list"

section \<open>internal/redis/client.go\<close>

definition IsLocalMode :: "'r RedisState \<Rightarrow> bool" where
  "IsLocalMode g = localMode g"

text \<open>\<open>Init\<close> pings the server and degrades to local mode when the ping fails; it never errs.\<close>

definition Init :: "bool \<Rightarrow> 'r RedisState \<Rightarrow> unit result \<times> 'r RedisState" where
  "Init ping_ok g = (if \<not> ping_ok then (Inr (), g\<lparr>localMode := True\<rparr>)
                     else (Inr (), g\<lparr>localMode := False\<rparr>))"

definition store_call :: "'r redis_ops \<Rightarrow> 'r RedisState \<Rightarrow> ('r \<Rightarrow> 'v result \<times> 'r) \<Rightarrow> 'v result \<times> 'r RedisState" where
  "store_call ops g f = (let (v, r') = rt_call ops (store g) f in (v, g\<lparr>store := r'\<rparr>))"

text \<open>One \<^verbatim>\<open>HGET\<close> round trip; a missing field is the client's \<^verbatim>\<open>redis.Nil\<close> error.\<close>

definition hget_call :: "'r redis_ops \<Rightarrow> string \<Rightarrow> string \<Rightarrow> 'r RedisState \<Rightarrow> string result \<times> 'r RedisState" where
  "hget_call ops key field g = store_call ops g (\<lambda>r.
     ((case HGET ops r key field of None \<Rightarrow> Inl (Error ''redis: nil'') | Some d \<Rightarrow> Inr d), r))"

text \<open>A local lookup reads the empty string for a missing key, which is the not-found error.\<close>

definition local_get :: "(string \<rightharpoonup> string) \<Rightarrow> string \<Rightarrow> string \<Rightarrow> string result" where
  "local_get m k notfound = (let data = (case m k of Some d \<Rightarrow> d | None \<Rightarrow> []) in
     if data = [] then Inl (Error notfound) else Inr data)"

definition unmarshal :: "(string \<Rightarrow> 'a option) \<Rightarrow> string \<Rightarrow> 'a result" where
  "unmarshal un data = (case un data of None \<Rightarrow> Inl (Error ''json'') | Some x \<Rightarrow> Inr x)"

definition RegisterGateway :: "'r redis_ops \<Rightarrow> json_ops \<Rightarrow> int \<Rightarrow> string \<Rightarrow> string \<Rightarrow> string \<Rightarrow>
    'r RedisState \<Rightarrow> unit result \<times> 'r RedisState" where
  "RegisterGateway ops js now gatewayID gatewayType addr g =
     (let jsonData = json_gw js \<lparr>gr_id = gatewayID, gr_type = gatewayType, gr_addr = addr, gr_time = now\<rparr> in
      if localMode g then (Inr (), g\<lparr>localGateways := (localGateways g)(gatewayID \<mapsto> jsonData)\<rparr>)
      else store_call ops g (\<lambda>r. (Inr (), HMSET ops r ''gateways'' [(gatewayID, jsonData)])))"

definition UnregisterGateway :: "'r redis_ops \<Rightarrow> string \<Rightarrow> 'r RedisState \<Rightarrow> unit result \<times> 'r RedisState" where
  "UnregisterGateway ops gatewayID g =
     (if localMode g then (Inr (), g\<lparr>localGateways := (localGateways g)(gatewayID := None)\<rparr>)
      else store_call ops g (\<lambda>r. (Inr (), HDEL ops r ''gateways'' gatewayID)))"

definition GetGatewayInfo :: "'r redis_ops \<Rightarrow> json_ops \<Rightarrow> string \<Rightarrow> 'r RedisState \<Rightarrow>
    GatewayRecord result \<times> 'r RedisState" where
  "GetGatewayInfo ops js gatewayID g =
     (let (data, g') = (if localMode g
            then (local_get (localGateways g) gatewayID (''gateway '' @ gatewayID @ '' not found''), g)
            else hget_call ops ''gateways'' gatewayID g)
      in (bind_r data (unmarshal (unjson_gw js)), g'))"

definition AddOnlineUser :: "'r redis_ops \<Rightarrow> json_ops \<Rightarrow> int \<Rightarrow> string \<Rightarrow> string \<Rightarrow> string \<Rightarrow>
    'r RedisState \<Rightarrow> unit result \<times> 'r RedisState" where
  "AddOnlineUser ops js now userID connectionID gatewayID g =
     (let data = json_conn js \<lparr>ci_UserID = userID, ci_ConnectionID = connectionID, ci_GatewayID = gatewayID,
            ci_GatewayType = ''cend'', ci_Timestamp = now\<rparr> in
      if localMode g then (Inr (), g\<lparr>localOnline := (localOnline g)(userID \<mapsto> data)\<rparr>)
      else store_call ops g (\<lambda>r. (Inr (), HMSET ops r ''online_users'' [(userID, data)])))"

definition RemoveOnlineUser :: "'r redis_ops \<Rightarrow> string \<Rightarrow> 'r RedisState \<Rightarrow> unit result \<times> 'r RedisState" where
  "RemoveOnlineUser ops userID g =
     (if localMode g then (Inr (), g\<lparr>localOnline := (localOnline g)(userID := None)\<rparr>)
      else store_call ops g (\<lambda>r. (Inr (), HDEL ops r ''online_users'' userID)))"

definition GetUserConnection :: "'r redis_ops \<Rightarrow> json_ops \<Rightarrow> string \<Rightarrow> 'r RedisState \<Rightarrow>
    ConnectionInfo result \<times> 'r RedisState" where
  "GetUserConnection ops js userID g =
     (let (data, g') = (if localMode g
            then (local_get (localOnline g) userID (''user '' @ userID @ '' not online''), g)
            else hget_call ops ''online_users'' userID g)
      in (bind_r data (unmarshal (unjson_conn js)), g'))"

definition RegisterIoTDevice :: "'r redis_ops \<Rightarrow> json_ops \<Rightarrow> int \<Rightarrow> string \<Rightarrow> string \<Rightarrow> string \<Rightarrow>
    'r RedisState \<Rightarrow> unit result \<times> 'r RedisState" where
  "RegisterIoTDevice ops js now deviceID gatewayID address g =
     (let data = json_dev js \<lparr>di_DeviceID = deviceID, di_GatewayID = gatewayID, di_Address = address,
            di_LastSeen = now, di_Status = ''online''\<rparr> in
      if localMode g then (Inr (), g\<lparr>localIoTDev := (localIoTDev g)(deviceID \<mapsto> data)\<rparr>)
      else store_call ops g (\<lambda>r. (Inr (), HMSET ops r ''iot_devices'' [(deviceID, data)])))"

definition RemoveIoTDevice :: "'r redis_ops \<Rightarrow> string \<Rightarrow> 'r RedisState \<Rightarrow> unit result \<times> 'r RedisState" where
  "RemoveIoTDevice ops deviceID g =
     (if localMode g then (Inr (), g\<lparr>localIoTDev := (localIoTDev g)(deviceID := None)\<rparr>)
      else store_call ops g (\<lambda>r. (Inr (), HDEL ops r ''iot_devices'' deviceID)))"

definition GetIoTDeviceInfo :: "'r redis_ops \<Rightarrow> json_ops \<Rightarrow> string \<Rightarrow> 'r RedisState \<Rightarrow>
    IoTDeviceInfo result \<times> 'r RedisState" where
  "GetIoTDeviceInfo ops js deviceID g =
     (let (data, g') = (if localMode g
            then (local_get (localIoTDev g) deviceID (''device '' @ deviceID @ '' not found''), g)
            else hget_call ops ''iot_devices'' deviceID g)
      in (bind_r data (unmarshal (unjson_dev js)), g'))"

text \<open>
  The heartbeat keeps the gateway and the address of an entry; it never creates one.  In Redis
  mode a script does the update: an entry it cannot decode makes the script fail, while local
  mode leaves such an entry alone.
\<close>

definition gw_luaHeartbeat :: "'r redis_ops \<Rightarrow> json_ops \<Rightarrow> string \<Rightarrow> string \<Rightarrow> int \<Rightarrow> 'r \<Rightarrow> int result \<times> 'r" where
  "gw_luaHeartbeat ops js key field now r =
     (case HGET ops r key field of
        None \<Rightarrow> (Inr 0, r)
      | Some v \<Rightarrow> (case unjson_dev js v of
          None \<Rightarrow> (Inl (Error ''cjson''), r)
        | Some info \<Rightarrow> (Inr 1, HMSET ops r key
            [(field, json_dev js (info\<lparr>di_LastSeen := now, di_Status := ''online''\<rparr>))])))"

definition UpdateIoTDeviceHeartbeat :: "'r redis_ops \<Rightarrow> json_ops \<Rightarrow> int \<Rightarrow> string \<Rightarrow>
    'r RedisState \<Rightarrow> unit result \<times> 'r RedisState" where
  "UpdateIoTDeviceHeartbeat ops js now deviceID g =
     (if localMode g
      then (case localIoTDev g deviceID of
              None \<Rightarrow> (Inr (), g)
            | Some info \<Rightarrow> (case unjson_dev js info of
                None \<Rightarrow> (Inr (), g)
              | Some old \<Rightarrow> (Inr (), g\<lparr>localIoTDev := (localIoTDev g)(deviceID \<mapsto>
                   json_dev js (old\<lparr>di_LastSeen := now, di_Status := ''online''\<rparr>))\<rparr>)))
      else (let (v, g') = store_call ops g (gw_luaHeartbeat ops js ''iot_devices'' deviceID now)
            in (bind_r v (\<lambda>_. Inr ()), g')))"

text \<open>Without a server a publication is dropped silently.\<close>

definition redis_PublishMessage :: "'r redis_ops \<Rightarrow> string \<Rightarrow> payload \<Rightarrow> 'r RedisState \<Rightarrow>
    unit result \<times> 'r RedisState" where
  "redis_PublishMessage ops channel message g =
     (if localMode g then (Inr (), g)
      else case RT ops (store g) of
        (None, r) \<Rightarrow> (Inr (), g\<lparr>store := r, published := published g @ [(channel, message)]\<rparr>)
      | (Some (e, executed), r) \<Rightarrow> (Inl (Error e),
          if executed then g\<lparr>store := r, published := published g @ [(channel, message)]\<rparr>
          else g\<lparr>store := r\<rparr>))"

text \<open>A subscription runs the handler on every payload of the channel, in order.\<close>

definition SubscribeMessage :: "'r RedisState \<Rightarrow> string \<Rightarrow> (payload \<Rightarrow> 's \<Rightarrow> 's) \<Rightarrow> 's \<Rightarrow> 's" where
  "SubscribeMessage g channel handler s =
     (if localMode g then s
      else fold handler (map snd (filter (\<lambda>(ch, _). ch = channel) (published g))) s)"

section \<open>Laws used as simplification rules\<close>

lemma hash_laws:
  assumes "redis_hash_laws ops"
  shows "HGET ops (HMSET ops r k fs) k' f =
      (if k' = k then (case map_of (rev fs) f of Some v \<Rightarrow> Some v | None \<Rightarrow> HGET ops r k f)
       else HGET ops r k' f)"
    and "HGET ops (HDEL ops r k f0) k' f = (if k' = k \<and> f = f0 then None else HGET ops r k' f)"
    and "k' \<noteq> k \<Longrightarrow> HGET ops (SETEX ops r k v t) k' f = HGET ops r k' f"
    and "HGET ops (EXPIRE ops r k n) k' f = HGET ops r k' f"
    and "map_of (HGETALL ops r k) f = HGET ops r k f"
    and "LUA_TONUMBER ops (LUA_TOSTRING ops i) = Some i"
  using assms by (simp_all add: redis_hash_laws_def)

lemma list_laws:
  assumes "redis_list_laws ops"
  shows "LRANGE ops (RPUSH ops r k x) k' = (if k' = k then LRANGE ops r k @ [x] else LRANGE ops r k')"
    and "LRANGE ops (LREM1 ops r k x) k' =
      (if k' = k then remove1 x (LRANGE ops r k) else LRANGE ops r k')"
    and "k' \<noteq> k \<Longrightarrow> LRANGE ops (SETEX ops r k v t) k' = LRANGE ops r k'"
    and "LRANGE ops (EXPIRE ops r k n) k' = LRANGE ops r k'"
    and "EXISTS ops (SETEX ops r k v t) k' \<longleftrightarrow> k' = k \<or> EXISTS ops r k'"
    and "k' \<noteq> k \<Longrightarrow> EXISTS ops (RPUSH ops r k x) k' = EXISTS ops r k'"
    and "k' \<noteq> k \<Longrightarrow> EXISTS ops (LREM1 ops r k x) k' = EXISTS ops r k'"
    and "k' \<noteq> k \<Longrightarrow> EXISTS ops (EXPIRE ops r k n) k' = EXISTS ops r k'"
  using assms by (simp_all add: redis_list_laws_def)

text \<open>A quiet server: every round trip succeeds and no other client runs.\<close>

definition quiet :: "'r redis_ops \<Rightarrow> bool" where
  "quiet ops \<longleftrightarrow> (\<forall>r. RT ops r = (None, r))"

lemma rt_call_quiet [simp]: "quiet ops \<Longrightarrow> rt_call ops r f = f r"
  by (simp add: rt_call_def quiet_def)

lemma store_call_quiet [simp]: "quiet ops \<Longrightarrow>
    store_call ops g f = (fst (f (store g)), g\<lparr>store := snd (f (store g))\<rparr>)"
  by (simp add: store_call_def split: prod.split)

lemma redis_PublishMessage_local [simp]: "localMode g \<Longrightarrow> redis_PublishMessage ops ch m g = (Inr (), g)"
  by (simp add: redis_PublishMessage_def)

lemma redis_PublishMessage_mode [simp]: "localMode (snd (redis_PublishMessage ops ch m g)) = localMode g"
  by (auto simp: redis_PublishMessage_def split: option.split prod.split)

lemma redis_PublishMessage_quiet: "\<not> localMode g \<Longrightarrow> quiet ops \<Longrightarrow>
    redis_PublishMessage ops ch m g = (Inr (), g\<lparr>published := published g @ [(ch, m)]\<rparr>)"
  by (simp add: redis_PublishMessage_def quiet_def)

lemma redis_PublishMessage_store [simp]: "quiet ops \<Longrightarrow> store (snd (redis_PublishMessage ops ch m g)) = store g"
  by (simp add: redis_PublishMessage_def quiet_def)

section \<open>A store that keeps the laws\<close>

text \<open>
  A Redis store as two maps, hashes and lists, with the plain keys kept in a third: it shows
  that the laws can hold together, and witnesses evaluate on it.
\<close>

record map_store =
  ms_hash :: "string \<Rightarrow> (string \<times> string) list"
  ms_list :: "string \<Rightarrow> string list"
  ms_kv :: "(string \<times> string) list"
  ms_keys :: "string list"

definition ms_empty :: map_store where
  "ms_empty = \<lparr>ms_hash = \<lambda>_. [], ms_list = \<lambda>_. [], ms_kv = [], ms_keys = []\<rparr>"

definition map_redis :: "map_store redis_ops" where
  "map_redis = \<lparr>
     RT = \<lambda>r. (None, r),
     HGET = \<lambda>r k f. map_of (ms_hash r k) f,
     HGETALL = \<lambda>r k. ms_hash r k,
     HMSET = \<lambda>r k fs. r\<lparr>ms_hash := (ms_hash r)(k := rev fs @ ms_hash r k), ms_keys := List.insert k (ms_keys r)\<rparr>,
     HDEL = \<lambda>r k f. r\<lparr>ms_hash := (ms_hash r)(k := filter (\<lambda>(f', _). f' \<noteq> f) (ms_hash r k))\<rparr>,
     SETEX = \<lambda>r k v t. r\<lparr>ms_kv := (k, v) # ms_kv r\<rparr>,
     GETK = \<lambda>r k. map_of (ms_kv r) k,
     EXPIRE = \<lambda>r k t. r,
     SCAN = \<lambda>r p. filter (\<lambda>k. take (length p) k = p) (ms_keys r),
     EXISTS = \<lambda>r k. map_of (ms_kv r) k \<noteq> None,
     LRANGE = \<lambda>r k. ms_list r k,
     RPUSH = \<lambda>r k x. r\<lparr>ms_list := (ms_list r)(k := ms_list r k @ [x])\<rparr>,
     LREM1 = \<lambda>r k x. r\<lparr>ms_list := (ms_list r)(k := remove1 x (ms_list r k))\<rparr>,
     LUA_TONUMBER = parse_int,
     LUA_TOSTRING = show_int\<rparr>"

lemma map_redis_sel:
  "HGET map_redis r k f = map_of (ms_hash r k) f"
  "HGETALL map_redis r k = ms_hash r k"
  "LRANGE map_redis r k = ms_list r k"
  "EXISTS map_redis r k \<longleftrightarrow> map_of (ms_kv r) k \<noteq> None"
  "SCAN map_redis r p = filter (\<lambda>k. take (length p) k = p) (ms_keys r)"
  "LUA_TONUMBER map_redis = parse_int" "LUA_TOSTRING map_redis = show_int"
  by (simp_all add: map_redis_def)

lemma map_of_filter_neq: "map_of (filter (\<lambda>(f', _). f' \<noteq> f) xs) g = (if g = f then None else map_of xs g)"
  by (induction xs) auto

lemma map_redis_hash_laws: "redis_hash_laws map_redis"
  by (auto simp: redis_hash_laws_def map_redis_def map_of_filter_neq map_add_def split: option.split)

lemma map_redis_list_laws: "redis_list_laws map_redis"
  by (auto simp: redis_list_laws_def map_redis_def)

lemma map_redis_quiet [simp]: "quiet map_redis"
  by (simp add: map_redis_def quiet_def)

definition empty_redis :: "bool \<Rightarrow> map_store RedisState" where
  "empty_redis local = \<lparr>localMode = local, store = ms_empty, localGateways = Map.empty, localOnline = Map.empty,
     localIoTDev = Map.empty, published = []\<rparr>"

section \<open>A marshalling of the records\<close>

text \<open>The netstring codec of the prelude instantiates the marshalling of the three records.\<close>

definition net_records :: json_ops where
  "net_records = \<lparr>
     json_conn = \<lambda>i. concat (map enc_str [ci_UserID i, ci_ConnectionID i, ci_GatewayID i, ci_GatewayType i,
       show_int (ci_Timestamp i)]),
     unjson_conn = \<lambda>t. (case dec_strs 5 t of
         Some [u, c, g, ty, at] \<Rightarrow> map_option (\<lambda>a. \<lparr>ci_UserID = u, ci_ConnectionID = c, ci_GatewayID = g,
           ci_GatewayType = ty, ci_Timestamp = a\<rparr>) (parse_int at)
       | _ \<Rightarrow> None),
     json_dev = \<lambda>i. concat (map enc_str [di_DeviceID i, di_GatewayID i, di_Address i, show_int (di_LastSeen i), di_Status i]),
     unjson_dev = \<lambda>t. (case dec_strs 5 t of
         Some [d, g, a, at, st] \<Rightarrow> map_option (\<lambda>l. \<lparr>di_DeviceID = d, di_GatewayID = g, di_Address = a,
           di_LastSeen = l, di_Status = st\<rparr>) (parse_int at)
       | _ \<Rightarrow> None),
     json_gw = \<lambda>i. concat (map enc_str [gr_id i, gr_type i, gr_addr i, show_int (gr_time i)]),
     unjson_gw = \<lambda>t. (case dec_strs 4 t of
         Some [i, ty, a, at] \<Rightarrow> map_option (\<lambda>l. \<lparr>gr_id = i, gr_type = ty, gr_addr = a, gr_time = l\<rparr>) (parse_int at)
       | _ \<Rightarrow> None)\<rparr>"

lemma net_records_ok: "json_conn_ok net_records i" "json_dev_ok net_records j"
proof -
  let ?cs = "[ci_UserID i, ci_ConnectionID i, ci_GatewayID i, ci_GatewayType i, show_int (ci_Timestamp i)]"
  let ?ds = "[di_DeviceID j, di_GatewayID j, di_Address j, show_int (di_LastSeen j), di_Status j]"
  have "dec_strs 5 (concat (map enc_str ?cs)) = Some ?cs" "dec_strs 5 (concat (map enc_str ?ds)) = Some ?ds"
    by (rule dec_enc_strs_end, simp)+
  moreover have "enc_str x \<noteq> []" for x by (simp add: enc_str_def)
  ultimately show "json_conn_ok net_records i" "json_dev_ok net_records j"
    unfolding json_conn_ok_def json_dev_ok_def net_records_def
    by (simp_all del: dec_strs.simps map_eq_Cons_conv list.map concat.simps)
qed

section \<open>The device registry\<close>

definition dev_entry :: "string \<Rightarrow> string \<Rightarrow> string \<Rightarrow> int \<Rightarrow> IoTDeviceInfo" where
  "dev_entry d gw addr t = \<lparr>di_DeviceID = d, di_GatewayID = gw, di_Address = addr, di_LastSeen = t, di_Status = ''online''\<rparr>"

lemma GetIoTDeviceInfo_quiet:
  "quiet ops \<Longrightarrow> GetIoTDeviceInfo ops js d g =
     (bind_r (if localMode g then local_get (localIoTDev g) d (''device '' @ d @ '' not found'')
              else (case HGET ops (store g) ''iot_devices'' d of None \<Rightarrow> Inl (Error ''redis: nil'') | Some t \<Rightarrow> Inr t))
        (unmarshal (unjson_dev js)), g)"
  by (simp add: GetIoTDeviceInfo_def hget_call_def)

text \<open>
  A heartbeat refreshes the registry entry of a device and keeps the gateway and the address it
  was registered with; once the device is removed, a late heartbeat does not bring it back.  Both
  hold with the Redis server and in local mode, for records whose JSON form decodes to them.
\<close>

theorem device_registry_lifecycle:
  assumes "quiet ops" "redis_hash_laws ops"
    and "json_dev_ok js (dev_entry d gw addr t1)" "json_dev_ok js (dev_entry d gw addr t2)"
    and g1: "g1 = snd (RegisterIoTDevice ops js t1 d gw addr g)"
    and g2: "g2 = snd (UpdateIoTDeviceHeartbeat ops js t2 d g1)"
    and g3: "g3 = snd (UpdateIoTDeviceHeartbeat ops js t3 d (snd (RemoveIoTDevice ops d g2)))"
  shows "fst (GetIoTDeviceInfo ops js d g2) = Inr (dev_entry d gw addr t2) \<and>
    (\<exists>e. fst (GetIoTDeviceInfo ops js d g3) = Inl e)"
proof -
  note laws = hash_laws [OF assms(2)] GetIoTDeviceInfo_quiet [OF assms(1)] assms(1)
  note ok = assms(3,4) [unfolded json_dev_ok_def dev_entry_def]
  have up: "dev_entry d gw addr t1\<lparr>di_LastSeen := t2, di_Status := ''online''\<rparr> = dev_entry d gw addr t2"
    by (simp add: dev_entry_def)
  have r1: "if localMode g then localMode g1 \<and> localIoTDev g1 d = Some (json_dev js (dev_entry d gw addr t1))
      else \<not> localMode g1 \<and> HGET ops (store g1) ''iot_devices'' d = Some (json_dev js (dev_entry d gw addr t1))"
    unfolding g1 by (simp add: RegisterIoTDevice_def Let_def laws dev_entry_def)
  have r2: "if localMode g then localMode g2 \<and> localIoTDev g2 d = Some (json_dev js (dev_entry d gw addr t2))
      else \<not> localMode g2 \<and> HGET ops (store g2) ''iot_devices'' d = Some (json_dev js (dev_entry d gw addr t2))"
    unfolding g2 using r1 assms(3) up
    by (auto simp: UpdateIoTDeviceHeartbeat_def gw_luaHeartbeat_def laws json_dev_ok_def split: if_splits)
  have r3: "if localMode g then localMode g3 \<and> localIoTDev g3 d = None
      else \<not> localMode g3 \<and> HGET ops (store g3) ''iot_devices'' d = None"
    unfolding g3 using r2
    by (auto simp: UpdateIoTDeviceHeartbeat_def RemoveIoTDevice_def gw_luaHeartbeat_def laws split: if_splits)
  show ?thesis
    using r2 r3 assms(4) by (auto simp: laws local_get_def unmarshal_def json_dev_ok_def Let_def split: if_splits)
qed

theorem device_registry_lifecycle_witness:
  "let g1 = snd (RegisterIoTDevice map_redis net_records 5 ''dev'' ''gw-1'' ''10.0.0.9:5683'' (empty_redis False));
       g2 = snd (UpdateIoTDeviceHeartbeat map_redis net_records 8 ''dev'' g1)
   in fst (GetIoTDeviceInfo map_redis net_records ''dev'' g2) = Inr (dev_entry ''dev'' ''gw-1'' ''10.0.0.9:5683'' 8)"
  using device_registry_lifecycle [OF map_redis_quiet map_redis_hash_laws net_records_ok(2) net_records_ok(2) refl refl refl]
  by (simp add: Let_def)

end
