(* ===== verification/Shadow.thy ===== *)
theory Shadow
  imports Config Redis
begin

text \<open>
  \<^verbatim>\<open>internal/shadow/shadow.go\<close>: the device shadow.  A manager keeps one shadow per device, in the
  local map when the gateway runs degraded and in a Redis hash, changed only by Lua scripts,
  otherwise.  Each script is a function on the store; \<open>tonumber\<close> failing aborts a script and keeps
  the writes it has done.  A Go pair \<^verbatim>\<open>(*Shadow, error)\<close> is a pair of options, since the code
  sometimes returns both.  \<open>now\<close> is the wall clock in seconds and \<open>ms\<close> in milliseconds.
  The mutex makes every operation atomic, so an operation is one step.
\<close>

section \<open>States, transitions, structures\<close>

definition StateIdle :: string where "StateIdle = ''idle''"
definition StatePreoccupy :: string where "StatePreoccupy = ''preoccupy''"
definition StateCharging :: string where "StateCharging = ''charging''"
definition StateFault :: string where "StateFault = ''fault''"
definition StateOffline :: string where "StateOffline = ''offline''"

lemmas state_defs [simp] =
  StateIdle_def StatePreoccupy_def StateCharging_def StateFault_def StateOffline_def

definition StateFromTLV :: "byte \<Rightarrow> string option" where
  "StateFromTLV b = (if b = 0 then Some StateIdle else if b = 1 then Some StateCharging
     else if b = 2 then Some StateFault else if b = 3 then Some StateOffline else None)"

definition StateToTLV :: "string \<Rightarrow> byte option" where
  "StateToTLV s = (if s = StateIdle then Some 0 else if s = StateCharging then Some 1
     else if s = StateFault then Some 2 else if s = StateOffline then Some 3
     else if s = StatePreoccupy then Some 4 else None)"

record Shadow =
  sh_DeviceID :: string
  sh_State :: string
  sh_Version :: int
  sh_UpdatedAt :: int
  sh_GatewayID :: string
  sh_Online :: bool
  sh_LastSeen :: int

definition transitions :: "string \<Rightarrow> string list option" where
  "transitions from =
     (if from = StateIdle then Some [StatePreoccupy, StateCharging, StateFault, StateOffline]
      else if from = StatePreoccupy then Some [StateIdle, StateCharging, StateFault, StateOffline]
      else if from = StateCharging then Some [StateIdle, StateFault, StateOffline]
      else if from = StateFault then Some [StateIdle, StateFault, StateOffline]
      else if from = StateOffline then Some [StateIdle, StatePreoccupy, StateFault, StateOffline]
      else None)"

definition CanTransition :: "string \<Rightarrow> string \<Rightarrow> bool" where
  "CanTransition from to = (case transitions from of Some m \<Rightarrow> to \<in> set m | None \<Rightarrow> from = to)"

definition legalReport :: "string \<Rightarrow> string \<Rightarrow> bool" where
  "legalReport cur to =
     (if to = StateIdle then cur = StatePreoccupy \<or> cur = StateCharging \<or> cur = StateOffline \<or> cur = StateFault
      else if to = StateCharging then cur = StatePreoccupy \<or> cur = StateIdle
      else if to = StateFault \<or> to = StateOffline then True
      else cur = to)"

definition EventChannel :: string where "EventChannel = ''shadow:events''"
definition CmdChannel :: string where "CmdChannel = ''shadow:cmds''"
definition CmdResultChan :: string where "CmdResultChan = ''shadow:cmdresults''"

record Manager =
  m_Enabled :: bool
  m_offlineTTL :: int
  m_preoccupyTimeout :: int
  m_EventsPublished :: int
  m_PreoccupyOK :: int
  m_PreoccupyReject :: int
  m_TransitionOK :: int
  m_TransitionReject :: int
  m_RollbackCount :: int
  m_OfflineCount :: int
  m_local :: "string \<rightharpoonup> Shadow"
  m_localTTL :: "string \<rightharpoonup> int"

definition NewManager :: "ShadowConfig \<Rightarrow> Manager" where
  "NewManager cfg =
     (let offlineTTL = wrap64 (shc_OfflineTTLSeconds cfg * second);
          preoccupyTimeout = wrap64 (shc_PreoccupyTimeoutSeconds cfg * second)
      in \<lparr>m_Enabled = shc_Enabled cfg,
          m_offlineTTL = (if offlineTTL \<le> 0 then 120 * second else offlineTTL),
          m_preoccupyTimeout = (if preoccupyTimeout \<le> 0 then 60 * second else preoccupyTimeout),
          m_EventsPublished = 0, m_PreoccupyOK = 0, m_PreoccupyReject = 0, m_TransitionOK = 0,
          m_TransitionReject = 0, m_RollbackCount = 0, m_OfflineCount = 0,
          m_local = Map.empty, m_localTTL = Map.empty\<rparr>)"

definition shadowKeyPrefix :: string where "shadowKeyPrefix = ''shadow:dev:''"
definition shadowKey :: "string \<Rightarrow> string" where "shadowKey deviceID = shadowKeyPrefix @ deviceID"
definition onlineKey :: "string \<Rightarrow> string" where "onlineKey deviceID = ''shadow:online:'' @ deviceID"

type_synonym shadow_ret = "Shadow option \<times> failure option"

section \<open>The Lua scripts\<close>

datatype lua_val = LInt int | LStr string

type_synonym 'r script = "'r \<Rightarrow> lua_val list result \<times> 'r"

definition hget_or :: "'r redis_ops \<Rightarrow> 'r \<Rightarrow> string \<Rightarrow> string \<Rightarrow> string \<Rightarrow> string" where
  "hget_or ops r k f d = (case HGET ops r k f of Some v \<Rightarrow> v | None \<Rightarrow> d)"

text \<open>The write all three state scripts end with: the next version, the state and the time.\<close>

definition lua_bump :: "'r redis_ops \<Rightarrow> string \<Rightarrow> string \<Rightarrow> string \<Rightarrow> (int \<Rightarrow> lua_val list) \<Rightarrow> 'r script" where
  "lua_bump ops key to now reply r =
     (case LUA_TONUMBER ops (hget_or ops r key ''version'' ''0'') of
        None \<Rightarrow> (Inl (Error ''attempt to perform arithmetic on a nil value''), r)
      | Some v \<Rightarrow> (Inr (reply (v + 1)),
           HMSET ops r key [(''state'', to), (''version'', LUA_TOSTRING ops (v + 1)), (''updated_at'', now)]))"

definition luaPreoccupy :: "'r redis_ops \<Rightarrow> string \<Rightarrow> string \<Rightarrow> 'r script" where
  "luaPreoccupy ops key now r =
     (let state = hget_or ops r key ''state'' ''offline'' in
      if state = ''idle'' \<or> state = ''offline''
      then lua_bump ops key ''preoccupy'' now (\<lambda>v. [LInt 1, LInt v]) r
      else (Inr [LInt 0, LStr state], r))"

definition luaTransition :: "'r redis_ops \<Rightarrow> string \<Rightarrow> string \<Rightarrow> string \<Rightarrow> string \<Rightarrow> 'r script" where
  "luaTransition ops key from to now r =
     (let state = hget_or ops r key ''state'' ''offline'';
          legal = (if to = state then True
                   else if from = ''*'' then to = ''fault'' \<or> to = ''offline''
                   else state = from)
      in if legal then lua_bump ops key to now (\<lambda>v. [LInt 1, LInt v]) r
         else (Inr [LInt 0, LStr state], r))"

definition lua_legal_report :: "string \<Rightarrow> string \<Rightarrow> bool" where
  "lua_legal_report cur to =
     (if to = cur then True
      else if to = ''idle'' \<and> (cur = ''preoccupy'' \<or> cur = ''charging'' \<or> cur = ''offline'' \<or> cur = ''fault'') then True
      else if to = ''charging'' \<and> (cur = ''preoccupy'' \<or> cur = ''idle'') then True
      else if to = ''fault'' then True
      else if to = ''offline'' then True
      else False)"

definition luaHeartbeat :: "'r redis_ops \<Rightarrow> string \<Rightarrow> string \<Rightarrow> string \<Rightarrow> string \<Rightarrow> string \<Rightarrow> string \<Rightarrow> 'r script" where
  "luaHeartbeat ops key okey now ttl state gatewayID r =
     (let r1 = SETEX ops r okey now ttl;
          r2 = (if gatewayID \<noteq> [] then HMSET ops r1 key [(''gateway_id'', gatewayID)] else r1)
      in if state \<noteq> [] then
           (let cur = hget_or ops r2 key ''state'' ''offline'' in
            if lua_legal_report cur state
            then lua_bump ops key state now (\<lambda>v. [LInt 1, LInt v, LStr state]) r2
            else (Inr [LInt 0, LStr cur, LStr state], r2))
         else (Inr [LInt 1, LInt (-1), LStr []], r2))"

definition luaTouchHeartbeat :: "'r redis_ops \<Rightarrow> string \<Rightarrow> string \<Rightarrow> string \<Rightarrow> string \<Rightarrow> string \<Rightarrow> 'r script" where
  "luaTouchHeartbeat ops key okey now ttl gatewayID r =
     (let r1 = SETEX ops r okey now ttl;
          r2 = (if gatewayID \<noteq> [] then EXPIRE ops (HMSET ops r1 key [(''gateway_id'', gatewayID)]) key 604800 else r1)
      in (Inr [LInt 1], r2))"

text \<open>The type assertions \<^verbatim>\<open>x.(int64)\<close> and \<^verbatim>\<open>x.(string)\<close> on a reply, and printing one with \<^verbatim>\<open>%v\<close>.\<close>

fun as_int64 :: "lua_val \<Rightarrow> int result" where
  "as_int64 (LInt i) = Inr i"
| "as_int64 (LStr s) = Inl (Panic ''interface conversion'')"

fun as_string :: "lua_val \<Rightarrow> string result" where
  "as_string (LStr s) = Inr s"
| "as_string (LInt i) = Inl (Panic ''interface conversion'')"

fun show_val :: "lua_val \<Rightarrow> string" where
  "show_val (LInt i) = show_int i"
| "show_val (LStr s) = s"

section \<open>The manager's operations\<close>

definition publishEvent :: "'r redis_ops \<Rightarrow> int \<Rightarrow> string \<Rightarrow> string \<Rightarrow> int \<Rightarrow> string \<Rightarrow>
    Manager \<times> 'r RedisState \<Rightarrow> Manager \<times> 'r RedisState" where
  "publishEvent ops ms deviceID state version gatewayID = (\<lambda>(m, g).
     (m\<lparr>m_EventsPublished := m_EventsPublished m + 1\<rparr>,
      snd (redis_PublishMessage ops EventChannel
        (EventMsg \<lparr>ev_DeviceID = deviceID, ev_State = state, ev_Version = version,
                   ev_Timestamp = ms, ev_GatewayID = gatewayID\<rparr>) g)))"

definition Touch :: "'r redis_ops \<Rightarrow> int \<Rightarrow> string \<Rightarrow> string \<Rightarrow> Manager \<times> 'r RedisState \<Rightarrow>
    unit result \<times> Manager \<times> 'r RedisState" where
  "Touch ops now deviceID gatewayID = (\<lambda>(m, g).
     if \<not> m_Enabled m then (Inr (), m, g)
     else if IsLocalMode g then
       (let s = (case m_local m deviceID of Some s \<Rightarrow> s
                 | None \<Rightarrow> \<lparr>sh_DeviceID = deviceID, sh_State = StateIdle, sh_Version = 0, sh_UpdatedAt = now,
                            sh_GatewayID = [], sh_Online = False, sh_LastSeen = 0\<rparr>)
        in (Inr (), m\<lparr>m_local := (m_local m)(deviceID \<mapsto> s\<lparr>sh_GatewayID := gatewayID\<rparr>),
                      m_localTTL := (m_localTTL m)(deviceID \<mapsto> now)\<rparr>, g))
     else (let (v, g') = store_call ops g (luaTouchHeartbeat ops (shadowKey deviceID) (onlineKey deviceID)
                (show_int now) (show_int (m_offlineTTL m div second)) gatewayID)
           in (bind_r v (\<lambda>_. Inr ()), m, g')))"

definition tryPreoccupy :: "'r redis_ops \<Rightarrow> int \<Rightarrow> string \<Rightarrow> Manager \<times> 'r RedisState \<Rightarrow>
    shadow_ret \<times> Manager \<times> 'r RedisState" where
  "tryPreoccupy ops now deviceID = (\<lambda>(m, g).
     if \<not> m_Enabled m then ((None, None), m, g)
     else if IsLocalMode g then
       (case m_local m deviceID of
          None \<Rightarrow> ((None, Some (Error (''shadow not found: '' @ deviceID))), m, g)
        | Some s \<Rightarrow>
            if sh_State s \<noteq> StateIdle \<and> sh_State s \<noteq> StateOffline
            then ((Some s, Some (Error (''device '' @ deviceID @ '' state='' @ sh_State s @ '' cannot preoccupy''))), m, g)
            else (let s' = s\<lparr>sh_State := StatePreoccupy, sh_Version := sh_Version s + 1, sh_UpdatedAt := now\<rparr>
                  in ((Some s', None), m\<lparr>m_local := (m_local m)(deviceID \<mapsto> s'),
                        m_localTTL := (m_localTTL m)(deviceID \<mapsto> now)\<rparr>, g)))
     else (let (res, g') = store_call ops g (luaPreoccupy ops (shadowKey deviceID) (show_int now)) in
       ((case res of
           Inl err \<Rightarrow> (None, Some (if err = Error ''redis: nil'' then Error (''shadow not found: '' @ deviceID) else err))
         | Inr arr \<Rightarrow>
             if length arr < 2 then (None, Some (Error ''unexpected lua result''))
             else (case as_int64 (arr ! 0) of
                 Inl p \<Rightarrow> (None, Some p)
               | Inr c \<Rightarrow>
                   if c = 1 then
                     (case as_int64 (arr ! 1) of
                        Inl p \<Rightarrow> (None, Some p)
                      | Inr v \<Rightarrow> (Some \<lparr>sh_DeviceID = deviceID, sh_State = StatePreoccupy, sh_Version = v,
                          sh_UpdatedAt = now, sh_GatewayID = [], sh_Online = False, sh_LastSeen = 0\<rparr>, None))
                   else (None, Some (Error (''device '' @ deviceID @ '' state='' @ show_val (arr ! 1) @ '' cannot preoccupy''))))),
        m, g')))"

definition TryPreoccupy :: "'r redis_ops \<Rightarrow> int \<Rightarrow> int \<Rightarrow> string \<Rightarrow> Manager \<times> 'r RedisState \<Rightarrow>
    shadow_ret \<times> Manager \<times> 'r RedisState" where
  "TryPreoccupy ops now ms deviceID st =
     (let ((s, err), m, g) = tryPreoccupy ops now deviceID st in
      if err = None then
        (case s of
           Some sh \<Rightarrow> ((s, err), publishEvent ops ms deviceID (sh_State sh) (sh_Version sh) (sh_GatewayID sh)
                          (m\<lparr>m_PreoccupyOK := m_PreoccupyOK m + 1\<rparr>, g))
         | None \<Rightarrow> ((s, err), m\<lparr>m_PreoccupyReject := m_PreoccupyReject m + 1\<rparr>, g))
      else ((s, err), m, g))"

definition transition :: "'r redis_ops \<Rightarrow> int \<Rightarrow> string \<Rightarrow> string \<Rightarrow> string \<Rightarrow> string \<Rightarrow> Manager \<times> 'r RedisState \<Rightarrow>
    shadow_ret \<times> Manager \<times> 'r RedisState" where
  "transition ops now deviceID from to gatewayID = (\<lambda>(m, g).
     if \<not> m_Enabled m then ((None, None), m, g)
     else if IsLocalMode g then
       (case m_local m deviceID of
          None \<Rightarrow> ((None, Some (Error (''shadow not found: '' @ deviceID))), m, g)
        | Some s \<Rightarrow>
            if from \<noteq> ''*'' \<and> sh_State s \<noteq> from
            then ((None, Some (Error (''state mismatch: have='' @ sh_State s @ '' want='' @ from))), m, g)
            else (let s1 = s\<lparr>sh_State := to, sh_Version := sh_Version s + 1, sh_UpdatedAt := now\<rparr>;
                      s' = (if gatewayID \<noteq> [] then s1\<lparr>sh_GatewayID := gatewayID\<rparr> else s1)
                  in ((Some s', None), m\<lparr>m_local := (m_local m)(deviceID \<mapsto> s')\<rparr>, g)))
     else (let (res, g') = store_call ops g (luaTransition ops (shadowKey deviceID) from to (show_int now)) in
       ((case res of
           Inl err \<Rightarrow> (None, Some err)
         | Inr arr \<Rightarrow>
             if length arr < 2 then (None, Some (Error ''unexpected lua result''))
             else (case as_int64 (arr ! 0) of
                 Inl p \<Rightarrow> (None, Some p)
               | Inr c \<Rightarrow>
                   if c = 1 then
                     (case as_int64 (arr ! 1) of
                        Inl p \<Rightarrow> (None, Some p)
                      | Inr v \<Rightarrow> (Some \<lparr>sh_DeviceID = deviceID, sh_State = to, sh_Version = v,
                          sh_UpdatedAt = now, sh_GatewayID = [], sh_Online = False, sh_LastSeen = 0\<rparr>, None))
                   else (None, Some (Error (''transition rejected: '' @ show_val (arr ! 1)))))),
        m, g')))"

definition Transition :: "'r redis_ops \<Rightarrow> int \<Rightarrow> int \<Rightarrow> string \<Rightarrow> string \<Rightarrow> string \<Rightarrow> string \<Rightarrow>
    Manager \<times> 'r RedisState \<Rightarrow> shadow_ret \<times> Manager \<times> 'r RedisState" where
  "Transition ops now ms deviceID from to gatewayID = (\<lambda>(m, g).
     if \<not> CanTransition from to \<and> from \<noteq> ''*''
     then ((None, Some (Error (''invalid transition '' @ from @ ''->'' @ to))),
           m\<lparr>m_TransitionReject := m_TransitionReject m + 1\<rparr>, g)
     else (let ((s, err), m, g) = transition ops now deviceID from to gatewayID (m, g) in
       (case (err, s) of
          (None, Some sh) \<Rightarrow> ((s, err), publishEvent ops ms deviceID (sh_State sh) (sh_Version sh) gatewayID
                               (m\<lparr>m_TransitionOK := m_TransitionOK m + 1\<rparr>, g))
        | _ \<Rightarrow> ((s, err), m, g))))"

definition ReportHeartbeatWithGateway :: "'r redis_ops \<Rightarrow> int \<Rightarrow> int \<Rightarrow> string \<Rightarrow> string \<Rightarrow> string \<Rightarrow>
    Manager \<times> 'r RedisState \<Rightarrow> unit result \<times> Manager \<times> 'r RedisState" where
  "ReportHeartbeatWithGateway ops now ms deviceID state gatewayID = (\<lambda>(m, g).
     if \<not> m_Enabled m then (Inr (), m, g)
     else if IsLocalMode g then
       (let s0 = (case m_local m deviceID of Some s \<Rightarrow> s
                  | None \<Rightarrow> \<lparr>sh_DeviceID = deviceID, sh_State = StateIdle, sh_Version = 0, sh_UpdatedAt = now,
                             sh_GatewayID = [], sh_Online = False, sh_LastSeen = 0\<rparr>);
            s = (if gatewayID \<noteq> [] then s0\<lparr>sh_GatewayID := gatewayID\<rparr> else s0);
            m1 = m\<lparr>m_local := (m_local m)(deviceID \<mapsto> s), m_localTTL := (m_localTTL m)(deviceID \<mapsto> now)\<rparr>
        in if state \<noteq> [] \<and> state \<noteq> sh_State s then
             (if legalReport (sh_State s) state
              then (let s' = s\<lparr>sh_State := state, sh_Version := sh_Version s + 1, sh_UpdatedAt := now\<rparr>
                    in (Inr (), publishEvent ops ms deviceID state (sh_Version s') gatewayID
                         (m1\<lparr>m_local := (m_local m1)(deviceID \<mapsto> s'), m_TransitionOK := m_TransitionOK m1 + 1\<rparr>, g)))
              else (Inr (), m1\<lparr>m_TransitionReject := m_TransitionReject m1 + 1\<rparr>, g))
           else (Inr (), m1, g))
     else (let (res, g') = store_call ops g (luaHeartbeat ops (shadowKey deviceID) (onlineKey deviceID)
                (show_int now) (show_int (m_offlineTTL m div second)) state gatewayID)
       in case res of
            Inl err \<Rightarrow> (Inl err, m, g')
          | Inr arr \<Rightarrow>
              if length arr < 3 then (Inl (Error ''unexpected lua result''), m, g')
              else (case as_int64 (arr ! 0) of
                  Inl p \<Rightarrow> (Inl p, m, g')
                | Inr c \<Rightarrow>
                    if c = 1 then
                      (case as_int64 (arr ! 1) of
                         Inl p \<Rightarrow> (Inl p, m, g')
                       | Inr v \<Rightarrow>
                           if 0 < v then
                             (case as_string (arr ! 2) of
                                Inl p \<Rightarrow> (Inl p, m\<lparr>m_TransitionOK := m_TransitionOK m + 1\<rparr>, g')
                              | Inr st \<Rightarrow> (Inr (), publishEvent ops ms deviceID st v gatewayID
                                            (m\<lparr>m_TransitionOK := m_TransitionOK m + 1\<rparr>, g')))
                           else (Inr (), m, g'))
                    else if c = 0 then (Inr (), m\<lparr>m_TransitionReject := m_TransitionReject m + 1\<rparr>, g')
                    else (Inr (), m, g'))))"

definition ReportHeartbeat :: "'r redis_ops \<Rightarrow> int \<Rightarrow> int \<Rightarrow> string \<Rightarrow> string \<Rightarrow>
    Manager \<times> 'r RedisState \<Rightarrow> unit result \<times> Manager \<times> 'r RedisState" where
  "ReportHeartbeat ops now ms deviceID state = ReportHeartbeatWithGateway ops now ms deviceID state []"

definition ReportState :: "'r redis_ops \<Rightarrow> int \<Rightarrow> int \<Rightarrow> string \<Rightarrow> string \<Rightarrow> string \<Rightarrow>
    Manager \<times> 'r RedisState \<Rightarrow> unit result \<times> Manager \<times> 'r RedisState" where
  "ReportState ops now ms deviceID state gatewayID = ReportHeartbeatWithGateway ops now ms deviceID state gatewayID"

definition to_error :: "shadow_ret \<Rightarrow> unit result" where
  "to_error r = (case snd r of Some e \<Rightarrow> Inl e | None \<Rightarrow> Inr ())"

definition MarkOffline :: "'r redis_ops \<Rightarrow> int \<Rightarrow> int \<Rightarrow> string \<Rightarrow> Manager \<times> 'r RedisState \<Rightarrow>
    unit result \<times> Manager \<times> 'r RedisState" where
  "MarkOffline ops now ms deviceID = (\<lambda>(m, g).
     let (r, st) = Transition ops now ms deviceID ''*'' StateOffline []
           (m\<lparr>m_OfflineCount := m_OfflineCount m + 1\<rparr>, g)
     in (to_error r, st))"

definition RollbackPreoccupy :: "'r redis_ops \<Rightarrow> int \<Rightarrow> int \<Rightarrow> string \<Rightarrow> Manager \<times> 'r RedisState \<Rightarrow>
    unit result \<times> Manager \<times> 'r RedisState" where
  "RollbackPreoccupy ops now ms deviceID = (\<lambda>(m, g).
     let (r, st) = Transition ops now ms deviceID StatePreoccupy StateIdle []
           (m\<lparr>m_RollbackCount := m_RollbackCount m + 1\<rparr>, g)
     in (to_error r, st))"

definition offline_shadow :: "string \<Rightarrow> Shadow" where
  "offline_shadow deviceID = \<lparr>sh_DeviceID = deviceID, sh_State = StateOffline, sh_Version = 0,
     sh_UpdatedAt = 0, sh_GatewayID = [], sh_Online = False, sh_LastSeen = 0\<rparr>"

definition field :: "(string \<times> string) list \<Rightarrow> string \<Rightarrow> string" where
  "field fs k = (case map_of fs k of Some v \<Rightarrow> v | None \<Rightarrow> [])"

definition Get :: "'r redis_ops \<Rightarrow> int \<Rightarrow> string \<Rightarrow> Manager \<times> 'r RedisState \<Rightarrow>
    Shadow result \<times> Manager \<times> 'r RedisState" where
  "Get ops now deviceID = (\<lambda>(m, g).
     if \<not> m_Enabled m then (Inr (offline_shadow deviceID), m, g)
     else if IsLocalMode g then
       (case m_local m deviceID of
          None \<Rightarrow> (Inr (offline_shadow deviceID), m, g)
        | Some s \<Rightarrow>
            (let lastSeen = (case m_localTTL m deviceID of Some t \<Rightarrow> t | None \<Rightarrow> 0);
                 online = now - lastSeen \<le> m_offlineTTL m div second
             in (Inr (s\<lparr>sh_Online := online, sh_LastSeen := lastSeen\<rparr>), m, g)))
     else
       (let (res, g') = store_call ops g (\<lambda>r. (Inr (HGETALL ops r (shadowKey deviceID), GETK ops r (onlineKey deviceID)), r))
        in (bind_r res (\<lambda>(fs, onl).
              if length fs = 0 then Inr (offline_shadow deviceID)
              else (let onlineStr = (case onl of Some s \<Rightarrow> s | None \<Rightarrow> []) in
                Inr \<lparr>sh_DeviceID = deviceID,
                     sh_State = (if field fs ''state'' = [] then StateOffline else field fs ''state''),
                     sh_Version = sscanf_d (field fs ''version'') 0,
                     sh_UpdatedAt = sscanf_d (field fs ''updated_at'') 0,
                     sh_GatewayID = field fs ''gateway_id'',
                     sh_Online = onlineStr \<noteq> [],
                     sh_LastSeen = (case parse_int64 onlineStr of Some t \<Rightarrow> t | None \<Rightarrow> 0)\<rparr>)),
            m, g')))"

definition IsOnline :: "'r redis_ops \<Rightarrow> int \<Rightarrow> string \<Rightarrow> Manager \<times> 'r RedisState \<Rightarrow>
    bool \<times> Manager \<times> 'r RedisState" where
  "IsOnline ops now deviceID st =
     (let (r, st') = Get ops now deviceID st
      in ((case r of Inl _ \<Rightarrow> False | Inr s \<Rightarrow> sh_Online s), st'))"

text \<open>
  The rollback sweep.  The local sweep visits the map in an order it is given; the Redis sweep
  visits the keys \<^verbatim>\<open>SCAN\<close> returns, reading each hash in a round trip of its own.
\<close>

fun recover_local :: "'r redis_ops \<Rightarrow> int \<Rightarrow> int \<Rightarrow> string list \<Rightarrow> Manager \<times> 'r RedisState \<Rightarrow>
    Manager \<times> 'r RedisState" where
  "recover_local ops now ms [] (m, g) = (m, g)"
| "recover_local ops now ms (d # ds) (m, g) =
     (case m_local m d of
        Some s \<Rightarrow>
          if sh_State s = StatePreoccupy \<and> m_preoccupyTimeout m div second < now - sh_UpdatedAt s
          then (let s' = s\<lparr>sh_State := StateIdle, sh_Version := sh_Version s + 1, sh_UpdatedAt := now\<rparr>
                in recover_local ops now ms ds (publishEvent ops ms d StateIdle (sh_Version s') []
                     (m\<lparr>m_local := (m_local m)(d \<mapsto> s'), m_RollbackCount := m_RollbackCount m + 1\<rparr>, g)))
          else recover_local ops now ms ds (m, g)
      | None \<Rightarrow> recover_local ops now ms ds (m, g))"

definition TrimPrefix :: "string \<Rightarrow> string \<Rightarrow> string" where
  "TrimPrefix s p = (if take (length p) s = p then drop (length p) s else s)"

fun recover_redis :: "'r redis_ops \<Rightarrow> int \<Rightarrow> int \<Rightarrow> string list \<Rightarrow> Manager \<times> 'r RedisState \<Rightarrow>
    Manager \<times> 'r RedisState" where
  "recover_redis ops now ms [] (m, g) = (m, g)"
| "recover_redis ops now ms (key # keys) (m, g) =
     (let deviceID = TrimPrefix key shadowKeyPrefix;
          (vals, g1) = store_call ops g (\<lambda>r. (Inr (hget_or ops r key ''state'' [], hget_or ops r key ''updated_at'' []), r))
      in case vals of
           Inl _ \<Rightarrow> recover_redis ops now ms keys (m, g1)
         | Inr (state, updated) \<Rightarrow>
             if state = StatePreoccupy \<and> m_preoccupyTimeout m div second < now - sscanf_d updated 0
             then recover_redis ops now ms keys (snd (RollbackPreoccupy ops now ms deviceID (m, g1)))
             else recover_redis ops now ms keys (m, g1))"

definition recoverExpiredPreoccupy :: "'r redis_ops \<Rightarrow> int \<Rightarrow> int \<Rightarrow> string list \<Rightarrow> Manager \<times> 'r RedisState \<Rightarrow>
    Manager \<times> 'r RedisState" where
  "recoverExpiredPreoccupy ops now ms order = (\<lambda>(m, g).
     if IsLocalMode g then recover_local ops now ms order (m, g)
     else (let (keys, g1) = store_call ops g (\<lambda>r. (Inr (SCAN ops r shadowKeyPrefix), r)) in
       case keys of
         Inl _ \<Rightarrow> (m, g1)
       | Inr ks \<Rightarrow> recover_redis ops now ms ks (m, g1)))"

definition Manager_Stats :: "Manager \<Rightarrow> (string \<times> int) list" where
  "Manager_Stats m = [(''shadow_events'', m_EventsPublished m), (''shadow_preoccupy_ok'', m_PreoccupyOK m),
     (''shadow_preoccupy_reject'', m_PreoccupyReject m), (''shadow_transition_ok'', m_TransitionOK m),
     (''shadow_transition_reject'', m_TransitionReject m), (''shadow_rollback'', m_RollbackCount m),
     (''shadow_offline'', m_OfflineCount m)]"

end
