(* ===== verification/ShadowSpec.thy ===== *)
theory ShadowSpec
  imports Shadow
begin

text \<open>
  What the shadow promises, stated once for both of its implementations.  Every manager
  operation is a step; an abstraction reads a device's state and version.  The locale
  \<open>shadow_backend\<close> holds the contract (which moves each operation may make, and that each move
  adds one to the version) and its consequences over runs; it is interpreted on the local map
  and on the Lua scripts over a Redis store that keeps the laws of \<open>redis_hash_laws\<close>.
\<close>

section \<open>Operations as steps\<close>

datatype shadow_op =
    OpTouch string string
  | OpPre string
  | OpReport string string string
  | OpTransition string string string string
  | OpOffline string
  | OpRollback string
  | OpRecover "string list"

type_synonym timed_op = "(int \<times> int) \<times> shadow_op"
type_synonym 'r shadow_sys = "'r redis_ops \<times> Manager \<times> 'r RedisState"

definition ret_ok :: "shadow_ret \<Rightarrow> bool" where
  "ret_ok r \<longleftrightarrow> fst r \<noteq> None \<and> snd r = None"

fun step :: "timed_op \<Rightarrow> 'r shadow_sys \<Rightarrow> bool \<times> 'r shadow_sys" where
  "step ((now, ms), OpTouch d gw) (ops, st) =
     (let (r, st') = Touch ops now d gw st in (r = Inr (), ops, st'))"
| "step ((now, ms), OpPre d) (ops, st) =
     (let (r, st') = TryPreoccupy ops now ms d st in (ret_ok r, ops, st'))"
| "step ((now, ms), OpReport d state gw) (ops, st) =
     (let (r, st') = ReportHeartbeatWithGateway ops now ms d state gw st in (r = Inr (), ops, st'))"
| "step ((now, ms), OpTransition d from to gw) (ops, st) =
     (let (r, st') = Transition ops now ms d from to gw st in (ret_ok r, ops, st'))"
| "step ((now, ms), OpOffline d) (ops, st) =
     (let (r, st') = MarkOffline ops now ms d st in (r = Inr (), ops, st'))"
| "step ((now, ms), OpRollback d) (ops, st) =
     (let (r, st') = RollbackPreoccupy ops now ms d st in (r = Inr (), ops, st'))"
| "step ((now, ms), OpRecover order) (ops, st) =
     (True, ops, recoverExpiredPreoccupy ops now ms order st)"

definition run :: "timed_op list \<Rightarrow> 'r shadow_sys \<Rightarrow> 'r shadow_sys" where
  "run xs s = fold (\<lambda>x s. snd (step x s)) xs s"

section \<open>The contract\<close>

text \<open>The moves of a device's state that an operation may make.\<close>

fun allowed :: "shadow_op \<Rightarrow> string \<Rightarrow> string \<Rightarrow> string \<Rightarrow> bool" where
  "allowed (OpTouch d' gw) d cur to = False"
| "allowed (OpPre d') d cur to \<longleftrightarrow> d = d' \<and> cur \<in> {''idle'', ''offline''} \<and> to = ''preoccupy''"
| "allowed (OpReport d' st gw) d cur to \<longleftrightarrow> d = d' \<and> to = st \<and> (cur = to \<or> legalReport cur to)"
| "allowed (OpTransition d' from t gw) d cur to \<longleftrightarrow> d = d' \<and> to = t \<and>
     (from = ''*'' \<or> CanTransition from to \<and> (cur = from \<or> cur = to))"
| "allowed (OpOffline d') d cur to \<longleftrightarrow> d = d' \<and> to = ''offline''"
| "allowed (OpRollback d') d cur to \<longleftrightarrow> d = d' \<and> cur \<in> {''preoccupy'', ''idle''} \<and> to = ''idle''"
| "allowed (OpRecover ds) d cur to \<longleftrightarrow> cur = ''preoccupy'' \<and> to = ''idle''"

definition moved :: "shadow_op \<Rightarrow> string \<Rightarrow> string \<times> int \<Rightarrow> string \<times> int \<Rightarrow> bool" where
  "moved x d p q \<longleftrightarrow> q = p \<or> snd q = snd p + 1 \<and> allowed x d (fst p) (fst q)"

lemma moved_refl [simp]: "moved x d p p"
  by (simp add: moved_def)

text \<open>The operations that can make a device free to be taken again.\<close>

fun frees :: "shadow_op \<Rightarrow> string \<Rightarrow> bool" where
  "frees (OpReport d' st gw) d \<longleftrightarrow> d = d' \<and> st \<in> {''idle'', ''offline''}"
| "frees (OpTransition d' from t gw) d \<longleftrightarrow> d = d' \<and> t \<in> {''idle'', ''offline''}"
| "frees (OpOffline d') d \<longleftrightarrow> d = d'"
| "frees (OpRollback d') d \<longleftrightarrow> d = d'"
| "frees (OpRecover ds) d \<longleftrightarrow> True"
| "frees (OpTouch d' gw) d \<longleftrightarrow> False"
| "frees (OpPre d') d \<longleftrightarrow> False"

lemma allowed_frees: "allowed x d cur to \<Longrightarrow> to \<in> {''idle'', ''offline''} \<Longrightarrow> frees x d"
  by (cases x) auto

definition states :: "string set" where
  "states = {''idle'', ''preoccupy'', ''charging'', ''fault'', ''offline''}"

fun names_state :: "shadow_op \<Rightarrow> bool" where
  "names_state (OpTransition d from to gw) \<longleftrightarrow> to \<in> states"
| "names_state x \<longleftrightarrow> True"

lemma allowed_states: "allowed x d cur to \<Longrightarrow> cur \<in> states \<Longrightarrow> names_state x \<Longrightarrow> to \<in> states"
  by (cases x) (auto simp: states_def legalReport_def split: if_splits)

locale shadow_backend =
  fixes valid :: "'s \<Rightarrow> bool"
    and look :: "'s \<Rightarrow> string \<Rightarrow> string \<times> int"
    and act :: "timed_op \<Rightarrow> 's \<Rightarrow> bool \<times> 's"
  assumes keeps: "valid s \<Longrightarrow> valid (snd (act x s))"
    and moves: "valid s \<Longrightarrow> moved (snd x) d (look s d) (look (snd (act x s)) d)"
    and takes: "valid s \<Longrightarrow> fst (act (t, OpPre d) s) \<Longrightarrow>
      fst (look s d) \<in> {''idle'', ''offline''} \<and> fst (look (snd (act (t, OpPre d) s)) d) = ''preoccupy''"
begin

definition acts :: "timed_op list \<Rightarrow> 's \<Rightarrow> 's" where
  "acts xs s = fold (\<lambda>x s. snd (act x s)) xs s"

lemma acts_simps [simp]: "acts [] s = s" "acts (x # xs) s = acts xs (snd (act x s))"
  by (simp_all add: acts_def)

lemma acts_valid: "valid s \<Longrightarrow> valid (acts xs s)"
  by (induction xs arbitrary: s) (auto intro: keeps)

lemma version_order:
  "valid s \<Longrightarrow> snd (look s d) \<le> snd (look (acts xs s) d) \<and>
     (snd (look (acts xs s) d) = snd (look s d) \<longrightarrow> look (acts xs s) d = look s d)"
proof (induction xs arbitrary: s)
  case (Cons x xs)
  have "moved (snd x) d (look s d) (look (snd (act x s)) d)" using moves [OF Cons.prems] .
  then show ?case using Cons.IH [OF keeps [OF Cons.prems, of x]] by (auto simp: moved_def)
qed simp

lemma stays_taken:
  "valid s \<Longrightarrow> fst (look s d) \<notin> {''idle'', ''offline''} \<Longrightarrow> \<forall>x \<in> set xs. \<not> frees (snd x) d \<Longrightarrow>
     fst (look (acts xs s) d) \<notin> {''idle'', ''offline''}"
proof (induction xs arbitrary: s)
  case (Cons x xs)
  have "moved (snd x) d (look s d) (look (snd (act x s)) d)" using moves [OF Cons.prems(1)] .
  then have "fst (look (snd (act x s)) d) \<notin> {''idle'', ''offline''}"
    using Cons.prems allowed_frees [of "snd x" d] by (auto simp: moved_def)
  then show ?case using Cons keeps by auto
qed simp

lemma taken_once:
  assumes "valid s" "fst (act (t, OpPre d) s)" "\<forall>x \<in> set xs. \<not> frees (snd x) d"
  shows "\<not> fst (act (t', OpPre d) (acts xs (snd (act (t, OpPre d) s))))"
proof
  let ?s1 = "snd (act (t, OpPre d) s)"
  assume "fst (act (t', OpPre d) (acts xs ?s1))"
  then have "fst (look (acts xs ?s1) d) \<in> {''idle'', ''offline''}"
    using takes acts_valid keeps assms(1) by blast
  moreover have "fst (look ?s1 d) \<notin> {''idle'', ''offline''}" using takes [OF assms(1,2)] by simp
  ultimately show False using stays_taken [OF keeps [OF assms(1)] _ assms(3)] by blast
qed

lemma states_kept:
  "valid s \<Longrightarrow> fst (look s d) \<in> states \<Longrightarrow> \<forall>x \<in> set xs. names_state (snd x) \<Longrightarrow>
     fst (look (acts xs s) d) \<in> states"
proof (induction xs arbitrary: s)
  case (Cons x xs)
  have "moved (snd x) d (look s d) (look (snd (act x s)) d)" using moves [OF Cons.prems(1)] .
  then have "fst (look (snd (act x s)) d) \<in> states"
    using Cons.prems allowed_states [of "snd x" d] by (auto simp: moved_def)
  then show ?case using Cons keeps by auto
qed simp

end

section \<open>The local map keeps the contract\<close>

definition local_valid :: "'r shadow_sys \<Rightarrow> bool" where
  "local_valid = (\<lambda>(ops, m, g). m_Enabled m \<and> localMode g)"

text \<open>Sweeping a device and then the rest moves each device at most once.\<close>

lemma swept_again:
  assumes "L1 = L \<or> L1 = L(d := (''idle'', snd (L d) + (1 :: int)))" "fst (L d) = ''preoccupy''"
    and "\<forall>e. L2 e = L1 e \<or> fst (L1 e) = ''preoccupy'' \<and> L2 e = (''idle'', snd (L1 e) + 1)"
  shows "\<forall>e. L2 e = L e \<or> fst (L e) = ''preoccupy'' \<and> L2 e = (''idle'', snd (L e) + 1)"
proof
  fix e
  show "L2 e = L e \<or> fst (L e) = ''preoccupy'' \<and> L2 e = (''idle'', snd (L e) + 1)"
    using assms(1,2) assms(3) [rule_format, of e] by (cases "e = d") auto
qed

definition mlook :: "Manager \<Rightarrow> string \<Rightarrow> string \<times> int" where
  "mlook m d = (case m_local m d of None \<Rightarrow> (''idle'', 0) | Some s \<Rightarrow> (sh_State s, sh_Version s))"

definition local_look :: "'r shadow_sys \<Rightarrow> string \<Rightarrow> string \<times> int" where
  "local_look = (\<lambda>(ops, m, g). mlook m)"

lemma mlook_upd [simp]:
  "mlook (m\<lparr>m_local := l(d \<mapsto> s)\<rparr>) d' = (if d' = d then (sh_State s, sh_Version s) else mlook (m\<lparr>m_local := l\<rparr>) d')"
  by (simp add: mlook_def)

lemma mlook_frame [simp]:
  "mlook (m\<lparr>m_localTTL := a\<rparr>) = mlook m" "mlook (m\<lparr>m_EventsPublished := b\<rparr>) = mlook m"
  "mlook (m\<lparr>m_PreoccupyOK := b\<rparr>) = mlook m" "mlook (m\<lparr>m_PreoccupyReject := b\<rparr>) = mlook m"
  "mlook (m\<lparr>m_TransitionOK := b\<rparr>) = mlook m" "mlook (m\<lparr>m_TransitionReject := b\<rparr>) = mlook m"
  "mlook (m\<lparr>m_RollbackCount := b\<rparr>) = mlook m" "mlook (m\<lparr>m_OfflineCount := b\<rparr>) = mlook m"
  by (simp_all add: mlook_def fun_eq_iff)

lemma publishEvent_local [simp]: "localMode g \<Longrightarrow>
    publishEvent ops ms d st v gw (m, g) = (m\<lparr>m_EventsPublished := m_EventsPublished m + 1\<rparr>, g)"
  by (simp add: publishEvent_def)

lemma Touch_local: "m_Enabled m \<Longrightarrow> localMode g \<Longrightarrow> Touch ops now d gw (m, g) = (r, m', g') \<Longrightarrow>
    g' = g \<and> m_Enabled m' \<and> mlook m' = mlook m"
  by (cases "m_local m d") (auto simp: Touch_def IsLocalMode_def mlook_def fun_eq_iff)

lemma Pre_local: "m_Enabled m \<Longrightarrow> localMode g \<Longrightarrow> TryPreoccupy ops now ms d (m, g) = (r, m', g') \<Longrightarrow>
    g' = g \<and> m_Enabled m' \<and>
      (if ret_ok r then mlook m' = (mlook m)(d := (''preoccupy'', snd (mlook m d) + 1)) \<and>
                        fst (mlook m d) \<in> {''idle'', ''offline''}
       else mlook m' = mlook m)"
  by (cases "m_local m d")
     (auto simp: TryPreoccupy_def tryPreoccupy_def IsLocalMode_def ret_ok_def mlook_def fun_eq_iff Let_def
      split: if_splits)

lemma Report_local: "m_Enabled m \<Longrightarrow> localMode g \<Longrightarrow>
    ReportHeartbeatWithGateway ops now ms d st gw (m, g) = (r, m', g') \<Longrightarrow>
    g' = g \<and> m_Enabled m' \<and>
      mlook m' = (if st \<noteq> [] \<and> st \<noteq> fst (mlook m d) \<and> legalReport (fst (mlook m d)) st
                  then (mlook m)(d := (st, snd (mlook m d) + 1)) else mlook m)"
  by (cases "m_local m d")
     (auto simp: ReportHeartbeatWithGateway_def IsLocalMode_def mlook_def fun_eq_iff Let_def split: if_splits)

lemma Transition_local: "m_Enabled m \<Longrightarrow> localMode g \<Longrightarrow>
    Transition ops now ms d from to gw (m, g) = (r, m', g') \<Longrightarrow>
    g' = g \<and> m_Enabled m' \<and>
      (if ret_ok r then mlook m' = (mlook m)(d := (to, snd (mlook m d) + 1)) \<and>
                        (from = ''*'' \<or> CanTransition from to \<and> fst (mlook m d) = from)
       else mlook m' = mlook m)"
  by (cases "m_local m d")
     (auto simp: Transition_def transition_def IsLocalMode_def ret_ok_def mlook_def fun_eq_iff Let_def
      split: if_splits)

lemma Recover_local: "m_Enabled m \<Longrightarrow> localMode g \<Longrightarrow> recover_local ops now ms ds (m, g) = (m', g') \<Longrightarrow>
    g' = g \<and> m_Enabled m' \<and>
      (\<forall>d. mlook m' d = mlook m d \<or> fst (mlook m d) = ''preoccupy'' \<and> mlook m' d = (''idle'', snd (mlook m d) + 1))"
proof (induction ds arbitrary: m)
  case (Cons d ds)
  show ?case
  proof (cases "m_local m d")
    case None then show ?thesis using Cons by simp
  next
    case (Some s)
    show ?thesis
    proof (cases "sh_State s = StatePreoccupy \<and> m_preoccupyTimeout m div second < now - sh_UpdatedAt s")
      case False
      then have "recover_local ops now ms ds (m, g) = (m', g')" using Cons.prems(3) Some by auto
      then show ?thesis using Cons.IH Cons.prems(1,2) by blast
    next
      case True
      define m1 where "m1 = m\<lparr>m_local := (m_local m)(d \<mapsto> s\<lparr>sh_State := StateIdle, sh_Version := sh_Version s + 1,
        sh_UpdatedAt := now\<rparr>), m_RollbackCount := m_RollbackCount m + 1, m_EventsPublished := m_EventsPublished m + 1\<rparr>"
      have look1: "mlook m1 d' = (if d' = d then (''idle'', snd (mlook m d) + 1) else mlook m d')" for d'
        using Some by (simp add: m1_def mlook_def)
      have pre: "fst (mlook m d) = ''preoccupy''" using True Some by (simp add: mlook_def)
      have "recover_local ops now ms (d # ds) (m, g) = recover_local ops now ms ds (m1, g)"
        using Some True Cons.prems by (simp add: m1_def Let_def)
      moreover have "m_Enabled m1" using Cons.prems by (simp add: m1_def)
      ultimately have h: "g' = g \<and> m_Enabled m' \<and> (\<forall>d. mlook m' d = mlook m1 d \<or>
          fst (mlook m1 d) = ''preoccupy'' \<and> mlook m' d = (''idle'', snd (mlook m1 d) + 1))"
        using Cons.IH [of m1] Cons.prems(2,3) by simp
      have "mlook m1 = (mlook m)(d := (''idle'', snd (mlook m d) + 1))" using look1 by auto
      then show ?thesis using h swept_again [of "mlook m1" "mlook m" d "mlook m'"] pre by blast
    qed
  qed
qed simp

text \<open>The lemmas that say what each operation does in local mode drive the interpretation.\<close>

interpretation loc: shadow_backend local_valid local_look step
proof
  fix s :: "'r shadow_sys" and x :: timed_op and d
  obtain ops m g where s: "s = (ops, m, g)" by (cases s)
  obtain now ms op where x: "x = ((now, ms), op)" by (cases x) auto
  assume "local_valid s"
  then have v: "m_Enabled m" "localMode g" by (simp_all add: local_valid_def s)
  have "local_valid (snd (step x s)) \<and> moved (snd x) d (local_look s d) (local_look (snd (step x s)) d)"
  proof (cases op)
    case (OpTouch d' gw)
    obtain r m' g' where e: "Touch ops now d' gw (m, g) = (r, m', g')" by (cases "Touch ops now d' gw (m, g)") auto
    show ?thesis using Touch_local [OF v e] v
      by (auto simp: s x OpTouch e local_valid_def local_look_def moved_def split: if_splits)
  next
    case (OpPre d')
    obtain r m' g' where e: "TryPreoccupy ops now ms d' (m, g) = (r, m', g')" by (cases "TryPreoccupy ops now ms d' (m, g)") auto
    show ?thesis using Pre_local [OF v e] v
      by (auto simp: s x OpPre e local_valid_def local_look_def moved_def split: if_splits)
  next
    case (OpReport d' st gw)
    obtain r m' g' where e: "ReportHeartbeatWithGateway ops now ms d' st gw (m, g) = (r, m', g')" by (cases "ReportHeartbeatWithGateway ops now ms d' st gw (m, g)") auto
    show ?thesis using Report_local [OF v e] v
      by (auto simp: s x OpReport e local_valid_def local_look_def moved_def split: if_splits)
  next
    case (OpTransition d' a b gw)
    obtain r m' g' where e: "Transition ops now ms d' a b gw (m, g) = (r, m', g')" by (cases "Transition ops now ms d' a b gw (m, g)") auto
    show ?thesis using Transition_local [OF v e] v
      by (auto simp: s x OpTransition e local_valid_def local_look_def moved_def split: if_splits)
  next
    case (OpOffline d')
    obtain r m' g' where e: "Transition ops now ms d' ''*'' ''offline'' [] (m\<lparr>m_OfflineCount := m_OfflineCount m + 1\<rparr>, g) = (r, m', g')" by (cases "Transition ops now ms d' ''*'' ''offline'' [] (m\<lparr>m_OfflineCount := m_OfflineCount m + 1\<rparr>, g)") auto
    show ?thesis using Transition_local [OF _ v(2) e] v
      by (auto simp: s x OpOffline e local_valid_def local_look_def moved_def MarkOffline_def to_error_def split: if_splits)
  next
    case (OpRollback d')
    obtain r m' g' where e: "Transition ops now ms d' ''preoccupy'' ''idle'' [] (m\<lparr>m_RollbackCount := m_RollbackCount m + 1\<rparr>, g) = (r, m', g')" by (cases "Transition ops now ms d' ''preoccupy'' ''idle'' [] (m\<lparr>m_RollbackCount := m_RollbackCount m + 1\<rparr>, g)") auto
    show ?thesis using Transition_local [OF _ v(2) e] v
      by (auto simp: s x OpRollback e local_valid_def local_look_def moved_def RollbackPreoccupy_def to_error_def split: if_splits)
  next
    case (OpRecover ds)
    obtain m' g' where r: "recover_local ops now ms ds (m, g) = (m', g')" by (cases "recover_local ops now ms ds (m, g)")
    show ?thesis using Recover_local [OF v r] v r OpRecover
      by (auto simp: s x local_valid_def local_look_def recoverExpiredPreoccupy_def IsLocalMode_def moved_def)
  qed
  then show "local_valid (snd (step x s))"
    and "moved (snd x) d (local_look s d) (local_look (snd (step x s)) d)" by auto
next
  fix s :: "'r shadow_sys" and t :: "int \<times> int" and d
  obtain ops m g where s: "s = (ops, m, g)" by (cases s)
  obtain now ms where t: "t = (now, ms)" by (cases t)
  assume "local_valid s" "fst (step (t, OpPre d) s)"
  then show "fst (local_look s d) \<in> {''idle'', ''offline''} \<and>
      fst (local_look (snd (step (t, OpPre d) s)) d) = ''preoccupy''"
    using Pre_local [of m g ops now ms d]
    by (auto simp: s t local_valid_def local_look_def split: prod.splits)
qed


section \<open>The Lua scripts keep the contract\<close>

definition redis_scan_law :: "'r redis_ops \<Rightarrow> bool" where
  "redis_scan_law ops \<longleftrightarrow> (\<forall>r p. \<forall>k \<in> set (SCAN ops r p). take (length p) k = p)"

definition rnum :: "'r redis_ops \<Rightarrow> 'r \<Rightarrow> string \<Rightarrow> int option" where
  "rnum ops r d = LUA_TONUMBER ops (hget_or ops r (shadowKey d) ''version'' ''0'')"

definition rlook :: "'r redis_ops \<Rightarrow> 'r \<Rightarrow> string \<Rightarrow> string \<times> int" where
  "rlook ops r d = (hget_or ops r (shadowKey d) ''state'' ''offline'', the (rnum ops r d))"

definition rvalid :: "'r redis_ops \<Rightarrow> 'r \<Rightarrow> bool" where
  "rvalid ops r \<longleftrightarrow> redis_hash_laws ops \<and> (\<forall>d. rnum ops r d \<noteq> None)"

definition redis_valid :: "'r shadow_sys \<Rightarrow> bool" where
  "redis_valid = (\<lambda>(ops, m, g). m_Enabled m \<and> \<not> localMode g \<and> quiet ops \<and> redis_scan_law ops \<and> rvalid ops (store g))"

definition redis_look :: "'r shadow_sys \<Rightarrow> string \<Rightarrow> string \<times> int" where
  "redis_look = (\<lambda>(ops, m, g). rlook ops (store g))"

lemma keys_apart [simp]: "shadowKey d \<noteq> onlineKey d'" "shadowKey d = shadowKey d' \<longleftrightarrow> d = d'"
  by (simp_all add: shadowKey_def onlineKey_def shadowKeyPrefix_def)

lemma lua_bump_valid:
  assumes "rvalid ops r" "lua_bump ops (shadowKey d) to now reply r = (res, r')"
  shows "rvalid ops r' \<and> res = Inr (reply (snd (rlook ops r d) + 1)) \<and>
    rlook ops r' = (rlook ops r)(d := (to, snd (rlook ops r d) + 1))"
proof -
  obtain v where v: "rnum ops r d = Some v" and laws: "redis_hash_laws ops"
    using assms(1) by (auto simp: rvalid_def)
  have r': "r' = HMSET ops r (shadowKey d) [(''state'', to), (''version'', LUA_TOSTRING ops (v + 1)), (''updated_at'', now)]"
    and res: "res = Inr (reply (v + 1))"
    using assms(2) v by (auto simp: lua_bump_def rnum_def)
  have num: "rnum ops r' d' = (if d' = d then Some (v + 1) else rnum ops r d')" for d'
    using laws by (simp add: r' rnum_def hget_or_def hash_laws)
  have "hget_or ops r' (shadowKey d') ''state'' ''offline'' =
      (if d' = d then to else hget_or ops r (shadowKey d') ''state'' ''offline'')" for d'
    using laws by (simp add: r' hget_or_def hash_laws)
  with num res v assms(1) show ?thesis by (auto simp: rvalid_def rlook_def fun_eq_iff)
qed

lemma state_rlook: "hget_or ops r (shadowKey d) ''state'' ''offline'' = fst (rlook ops r d)"
  by (simp add: rlook_def)

lemma luaPreoccupy_valid:
  assumes "rvalid ops r" "luaPreoccupy ops (shadowKey d) now r = (res, r')"
  shows "rvalid ops r' \<and>
    (if fst (rlook ops r d) \<in> {''idle'', ''offline''}
     then res = Inr [LInt 1, LInt (snd (rlook ops r d) + 1)] \<and>
          rlook ops r' = (rlook ops r)(d := (''preoccupy'', snd (rlook ops r d) + 1))
     else res = Inr [LInt 0, LStr (fst (rlook ops r d))] \<and> r' = r)"
  using assms
  by (auto simp: luaPreoccupy_def state_rlook Let_def dest!: lua_bump_valid [OF assms(1)] split: if_splits)

lemma luaTransition_valid:
  assumes "rvalid ops r" "luaTransition ops (shadowKey d) from to now r = (res, r')"
  defines "cur \<equiv> fst (rlook ops r d)"
  shows "rvalid ops r' \<and>
    (if to = cur \<or> (if from = ''*'' then to \<in> {''fault'', ''offline''} else cur = from)
     then res = Inr [LInt 1, LInt (snd (rlook ops r d) + 1)] \<and>
          rlook ops r' = (rlook ops r)(d := (to, snd (rlook ops r d) + 1))
     else res = Inr [LInt 0, LStr cur] \<and> r' = r)"
  using assms(1,2) unfolding cur_def
  by (auto simp: luaTransition_def state_rlook Let_def dest!: lua_bump_valid [OF assms(1)] split: if_splits)

lemma legalReport_lua: "lua_legal_report cur to \<longleftrightarrow> cur = to \<or> legalReport cur to"
  by (auto simp: lua_legal_report_def legalReport_def)

lemma luaHeartbeat_valid:
  assumes "rvalid ops r" "luaHeartbeat ops (shadowKey d) (onlineKey d) now ttl st gw r = (res, r')"
  defines "cur \<equiv> fst (rlook ops r d)"
  shows "rvalid ops r' \<and>
    (if st = [] then res = Inr [LInt 1, LInt (-1), LStr []] \<and> rlook ops r' = rlook ops r
     else if cur = st \<or> legalReport cur st
     then res = Inr [LInt 1, LInt (snd (rlook ops r d) + 1), LStr st] \<and>
          rlook ops r' = (rlook ops r)(d := (st, snd (rlook ops r d) + 1))
     else res = Inr [LInt 0, LStr cur, LStr st] \<and> rlook ops r' = rlook ops r)"
proof -
  define r1 where "r1 = SETEX ops r (onlineKey d) now ttl"
  define r2 where "r2 = (if gw \<noteq> [] then HMSET ops r1 (shadowKey d) [(''gateway_id'', gw)] else r1)"
  have laws: "redis_hash_laws ops" using assms(1) by (simp add: rvalid_def)
  have same: "hget_or ops r2 (shadowKey d') f x = hget_or ops r (shadowKey d') f x"
    if "f \<noteq> ''gateway_id''" for d' f x
    using laws that by (auto simp: r1_def r2_def hget_or_def hash_laws)
  have look2: "rlook ops r2 = rlook ops r" and valid2: "rvalid ops r2"
    using assms(1) by (simp_all add: rlook_def rvalid_def rnum_def same fun_eq_iff)
  have cur2: "hget_or ops r2 (shadowKey d) ''state'' ''offline'' = cur"
    by (simp add: same cur_def rlook_def)
  show ?thesis
    using assms(2) valid2 look2
    by (auto simp: luaHeartbeat_def r1_def [symmetric] r2_def [symmetric] cur2 legalReport_lua
        Let_def dest!: lua_bump_valid [OF valid2] split: if_splits)
qed

lemma luaTouch_valid:
  assumes "rvalid ops r" "luaTouchHeartbeat ops (shadowKey d) (onlineKey d) now ttl gw r = (res, r')"
  shows "rvalid ops r' \<and> rlook ops r' = rlook ops r"
proof -
  have laws: "redis_hash_laws ops" using assms(1) by (simp add: rvalid_def)
  then have "hget_or ops r' (shadowKey d') f x = hget_or ops r (shadowKey d') f x"
    if "f \<noteq> ''gateway_id''" for d' f x
    using that assms(2) by (auto simp: luaTouchHeartbeat_def hget_or_def hash_laws Let_def)
  then show ?thesis using assms(1) by (simp add: rlook_def rvalid_def rnum_def fun_eq_iff)
qed

lemma publishEvent_redis [simp]: "quiet ops \<Longrightarrow> \<not> localMode g \<Longrightarrow>
    fst (publishEvent ops ms d st v gw (m, g)) = m\<lparr>m_EventsPublished := m_EventsPublished m + 1\<rparr> \<and>
    store (snd (publishEvent ops ms d st v gw (m, g))) = store g \<and>
    \<not> localMode (snd (publishEvent ops ms d st v gw (m, g)))"
  by (simp add: publishEvent_def)

text \<open>What a Redis-mode operation leaves: an enabled manager, Redis mode, and a store related to the old one.\<close>

definition redis_left :: "'r redis_ops \<Rightarrow> Manager \<times> 'r RedisState \<Rightarrow> ('r \<Rightarrow> bool) \<Rightarrow> bool" where
  "redis_left ops st P \<longleftrightarrow> m_Enabled (fst st) \<and> \<not> localMode (snd st) \<and> P (store (snd st))"

lemma redis_left_publish [simp]: "quiet ops \<Longrightarrow> \<not> localMode g \<Longrightarrow> m_Enabled m \<Longrightarrow>
    redis_left ops (publishEvent ops ms d st v gw (m, g)) P \<longleftrightarrow> P (store g)"
  by (simp add: redis_left_def)

lemma redis_left_pair [simp]:
  "redis_left ops (m, g) P \<longleftrightarrow> m_Enabled m \<and> \<not> localMode g \<and> P (store g)"
  by (simp add: redis_left_def)

lemma Touch_redis:
  assumes "m_Enabled m" "\<not> localMode g" "quiet ops" "rvalid ops (store g)"
    and "Touch ops now d gw (m, g) = (r, st)"
  shows "redis_left ops st (\<lambda>s. rvalid ops s \<and> rlook ops s = rlook ops (store g))"
  using assms luaTouch_valid [OF assms(4), of d]
  by (cases "luaTouchHeartbeat ops (shadowKey d) (onlineKey d) (show_int now)
         (show_int (m_offlineTTL m div second)) gw (store g)")
     (auto simp: Touch_def IsLocalMode_def)

lemma Pre_redis:
  assumes "m_Enabled m" "\<not> localMode g" "quiet ops" "rvalid ops (store g)"
    and "TryPreoccupy ops now ms d (m, g) = (r, st)"
  defines "look \<equiv> rlook ops (store g)"
  shows "(ret_ok r \<longleftrightarrow> fst (look d) \<in> {''idle'', ''offline''}) \<and>
    redis_left ops st (\<lambda>s. rvalid ops s \<and>
      rlook ops s = (if ret_ok r then look(d := (''preoccupy'', snd (look d) + 1)) else look))"
proof -
  obtain res r' where l: "luaPreoccupy ops (shadowKey d) (show_int now) (store g) = (res, r')" by fastforce
  show ?thesis
    using assms(1-5) luaPreoccupy_valid [OF assms(4) l] unfolding look_def
    by (auto simp: TryPreoccupy_def tryPreoccupy_def IsLocalMode_def ret_ok_def l split: if_splits)
qed

lemma Report_redis:
  assumes "m_Enabled m" "\<not> localMode g" "quiet ops" "rvalid ops (store g)"
    and "ReportHeartbeatWithGateway ops now ms d state gw (m, g) = (r, st)"
  defines "look \<equiv> rlook ops (store g)"
  shows "redis_left ops st (\<lambda>s. rvalid ops s \<and>
      rlook ops s = (if state \<noteq> [] \<and> (fst (look d) = state \<or> legalReport (fst (look d)) state)
                     then look(d := (state, snd (look d) + 1)) else look))"
proof -
  obtain res r' where l: "luaHeartbeat ops (shadowKey d) (onlineKey d) (show_int now)
      (show_int (m_offlineTTL m div second)) state gw (store g) = (res, r')" by fastforce
  show ?thesis
    using assms(1-5) luaHeartbeat_valid [OF assms(4) l] unfolding look_def
    by (auto simp: ReportHeartbeatWithGateway_def IsLocalMode_def l split: if_splits)
qed

lemma Transition_redis:
  assumes "m_Enabled m" "\<not> localMode g" "quiet ops" "rvalid ops (store g)"
    and "Transition ops now ms d from to gw (m, g) = (r, st)"
  defines "look \<equiv> rlook ops (store g)"
  shows "redis_left ops st (\<lambda>s. rvalid ops s \<and>
      (if ret_ok r then rlook ops s = look(d := (to, snd (look d) + 1)) \<and>
         (from = ''*'' \<or> CanTransition from to \<and> (fst (look d) = from \<or> fst (look d) = to))
       else rlook ops s = look))"
proof -
  obtain res r' where l: "luaTransition ops (shadowKey d) from to (show_int now) (store g) = (res, r')" by fastforce
  show ?thesis
    using assms(1-5) luaTransition_valid [OF assms(4) l] unfolding look_def
    by (auto simp: Transition_def transition_def IsLocalMode_def ret_ok_def l split: if_splits)
qed

text \<open>One rollback of the sweep, on a device the sweep found preoccupied.\<close>

lemma Rollback_redis:
  assumes "m_Enabled m" "\<not> localMode g" "quiet ops" "rvalid ops (store g)"
    and "RollbackPreoccupy ops now ms d (m, g) = (r, st)"
  shows "redis_left ops st (\<lambda>s. rvalid ops s \<and>
      (rlook ops s = rlook ops (store g) \<or> fst (rlook ops (store g) d) \<in> {''preoccupy'', ''idle''} \<and>
         rlook ops s = (rlook ops (store g))(d := (''idle'', snd (rlook ops (store g) d) + 1))))"
proof -
  let ?m = "m\<lparr>m_RollbackCount := m_RollbackCount m + 1\<rparr>"
  obtain r0 where t: "Transition ops now ms d ''preoccupy'' ''idle'' [] (?m, g) = (r0, st)"
    using assms(5) by (auto simp: RollbackPreoccupy_def split: prod.splits)
  have "m_Enabled ?m" using assms(1) by simp
  from Transition_redis [OF this assms(2-4) t] show ?thesis by (auto simp: redis_left_def split: if_splits)
qed

lemma store_same [simp]: "(g :: 'r RedisState)\<lparr>store := store g\<rparr> = g"
  by simp

lemma Recover_redis:
  assumes "\<forall>k \<in> set ks. take (length shadowKeyPrefix) k = shadowKeyPrefix"
    and "m_Enabled m" "\<not> localMode g" "quiet ops" "rvalid ops (store g)"
  shows "redis_left ops (recover_redis ops now ms ks (m, g)) (\<lambda>s. rvalid ops s \<and>
      (\<forall>d. rlook ops s d = rlook ops (store g) d \<or> fst (rlook ops (store g) d) = ''preoccupy'' \<and>
           rlook ops s d = (''idle'', snd (rlook ops (store g) d) + 1)))"
  using assms
proof (induction ks arbitrary: m g)
  case (Cons key ks)
  obtain d where key: "key = shadowKey d" and trim: "TrimPrefix key shadowKeyPrefix = d"
    using Cons.prems(1) unfolding shadowKey_def TrimPrefix_def
    by (metis append_take_drop_id list.set_intros(1))
  let ?go = "hget_or ops (store g) key ''state'' [] = StatePreoccupy \<and>
    m_preoccupyTimeout m div second < now - sscanf_d (hget_or ops (store g) key ''updated_at'' []) 0"
  have step: "recover_redis ops now ms (key # ks) (m, g) =
      recover_redis ops now ms ks (if ?go then snd (RollbackPreoccupy ops now ms d (m, g)) else (m, g))"
    using Cons.prems(4) trim by simp
  show ?case
  proof (cases ?go)
    case False
    show ?thesis unfolding step if_not_P [OF False] using Cons by simp
  next
    case True
    obtain r m1 g1 where rb: "RollbackPreoccupy ops now ms d (m, g) = (r, m1, g1)" by (metis prod_cases3)
    have left: "m_Enabled m1" "\<not> localMode g1" "rvalid ops (store g1)"
      and upd: "rlook ops (store g1) = rlook ops (store g) \<or>
         rlook ops (store g1) = (rlook ops (store g))(d := (''idle'', snd (rlook ops (store g) d) + 1))"
      using Rollback_redis [OF Cons.prems(2-5) rb] by auto
    have pre: "fst (rlook ops (store g) d) = ''preoccupy''"
      using True key by (auto simp: rlook_def hget_or_def split: option.splits)
    have "redis_left ops (recover_redis ops now ms ks (m1, g1)) (\<lambda>s. rvalid ops s \<and>
      (\<forall>d. rlook ops s d = rlook ops (store g1) d \<or> fst (rlook ops (store g1) d) = ''preoccupy'' \<and>
           rlook ops s d = (''idle'', snd (rlook ops (store g1) d) + 1)))"
      using Cons.IH [OF _ left(1,2) Cons.prems(4) left(3)] Cons.prems(1) by simp
    then show ?thesis unfolding step using True rb swept_again [OF upd pre] by (simp add: redis_left_def)
  qed
qed simp

interpretation red: shadow_backend redis_valid redis_look step
proof
  fix s :: "'r shadow_sys" and x :: timed_op and d
  obtain ops m g where s: "s = (ops, m, g)" by (cases s)
  obtain now ms op where x: "x = ((now, ms), op)" by (cases x) auto
  assume "redis_valid s"
  then have v: "m_Enabled m" "\<not> localMode g" "quiet ops" "rvalid ops (store g)" "redis_scan_law ops"
    by (simp_all add: redis_valid_def s)
  have "redis_valid (snd (step x s)) \<and> moved (snd x) d (redis_look s d) (redis_look (snd (step x s)) d)"
  proof (cases op)
    case (OpTouch d' gw)
    obtain r m' g' where e: "Touch ops now d' gw (m, g) = (r, m', g')" by (cases "Touch ops now d' gw (m, g)") auto
    show ?thesis using Touch_redis [OF v(1-4) e] v
      by (auto simp: s x OpTouch e redis_valid_def redis_look_def moved_def split: if_splits)
  next
    case (OpPre d')
    obtain r m' g' where e: "TryPreoccupy ops now ms d' (m, g) = (r, m', g')" by (cases "TryPreoccupy ops now ms d' (m, g)") auto
    show ?thesis using Pre_redis [OF v(1-4) e] v
      by (auto simp: s x OpPre e redis_valid_def redis_look_def moved_def split: if_splits)
  next
    case (OpReport d' st gw)
    obtain r m' g' where e: "ReportHeartbeatWithGateway ops now ms d' st gw (m, g) = (r, m', g')" by (cases "ReportHeartbeatWithGateway ops now ms d' st gw (m, g)") auto
    show ?thesis using Report_redis [OF v(1-4) e] v
      by (auto simp: s x OpReport e redis_valid_def redis_look_def moved_def split: if_splits)
  next
    case (OpTransition d' a b gw)
    obtain r m' g' where e: "Transition ops now ms d' a b gw (m, g) = (r, m', g')" by (cases "Transition ops now ms d' a b gw (m, g)") auto
    show ?thesis using Transition_redis [OF v(1-4) e] v
      by (auto simp: s x OpTransition e redis_valid_def redis_look_def moved_def split: if_splits)
  next
    case (OpOffline d')
    obtain r m' g' where e: "Transition ops now ms d' ''*'' ''offline'' [] (m\<lparr>m_OfflineCount := m_OfflineCount m + 1\<rparr>, g) = (r, m', g')" by (cases "Transition ops now ms d' ''*'' ''offline'' [] (m\<lparr>m_OfflineCount := m_OfflineCount m + 1\<rparr>, g)") auto
    show ?thesis using Transition_redis [OF _ v(2-4) e] v
      by (auto simp: s x OpOffline e redis_valid_def redis_look_def moved_def MarkOffline_def to_error_def split: if_splits)
  next
    case (OpRollback d')
    obtain r m' g' where e: "RollbackPreoccupy ops now ms d' (m, g) = (r, m', g')" by (cases "RollbackPreoccupy ops now ms d' (m, g)") auto
    show ?thesis using Rollback_redis [OF v(1-4) e] v
      by (auto simp: s x OpRollback e redis_valid_def redis_look_def moved_def split: if_splits)
  next
    case (OpRecover ds)
    have "\<forall>k \<in> set (SCAN ops (store g) shadowKeyPrefix). take (length shadowKeyPrefix) k = shadowKeyPrefix"
      using v(5) by (simp add: redis_scan_law_def)
    note sweep = Recover_redis [OF this v(1-4), of now ms]
    show ?thesis
      using sweep v OpRecover
      by (cases "recover_redis ops now ms (SCAN ops (store g) shadowKeyPrefix) (m, g)")
         (auto simp: s x redis_valid_def redis_look_def recoverExpiredPreoccupy_def IsLocalMode_def moved_def)
  qed
  then show "redis_valid (snd (step x s))"
    and "moved (snd x) d (redis_look s d) (redis_look (snd (step x s)) d)" by auto
next
  fix s :: "'r shadow_sys" and t :: "int \<times> int" and d
  obtain ops m g where s: "s = (ops, m, g)" by (cases s)
  obtain now ms where t: "t = (now, ms)" by (cases t)
  obtain r m' g' where e: "TryPreoccupy ops now ms d (m, g) = (r, m', g')" by (metis prod_cases3)
  assume "redis_valid s" "fst (step (t, OpPre d) s)"
  then show "fst (redis_look s d) \<in> {''idle'', ''offline''} \<and>
      fst (redis_look (snd (step (t, OpPre d) s)) d) = ''preoccupy''"
    using Pre_redis [OF _ _ _ _ e] by (auto simp: s t e redis_valid_def redis_look_def)
qed

lemma acts_run: "loc.acts xs s = run xs s" "red.acts xs s = run xs s"
  by (simp_all add: loc.acts_def red.acts_def run_def)

section \<open>Properties\<close>

definition shadow_valid :: "'r shadow_sys \<Rightarrow> bool" where
  "shadow_valid s \<longleftrightarrow> local_valid s \<or> redis_valid s"

definition shadow_look :: "'r shadow_sys \<Rightarrow> string \<Rightarrow> string \<times> int" where
  "shadow_look s = (if local_valid s then local_look s else redis_look s)"

lemma modes_apart: "local_valid s \<Longrightarrow> \<not> redis_valid s"
  by (auto simp: local_valid_def redis_valid_def)

lemma run_valid: "shadow_valid s \<Longrightarrow> shadow_valid (run xs s) \<and> (local_valid (run xs s) \<longleftrightarrow> local_valid s)"
  using loc.acts_valid [of s xs] red.acts_valid [of s xs] modes_apart
  unfolding acts_run shadow_valid_def by blast


definition small_sys :: "bool \<Rightarrow> map_store shadow_sys" where
  "small_sys local = (map_redis, NewManager (cfg_Shadow DefaultConfig), empty_redis local)"

lemma small_valid: "shadow_valid (small_sys local)"
proof (cases local)
  case True
  then show ?thesis
    by (simp add: shadow_valid_def local_valid_def small_sys_def empty_redis_def NewManager_def Let_def DefaultConfig_def)
next
  case False
  have "redis_scan_law map_redis" by (simp add: redis_scan_law_def map_redis_sel)
  moreover have "rvalid map_redis ms_empty"
    by (simp add: rvalid_def map_redis_hash_laws rnum_def hget_or_def map_redis_sel ms_empty_def is_digit_def)
  ultimately show ?thesis using False
    by (simp add: shadow_valid_def redis_valid_def small_sys_def empty_redis_def NewManager_def Let_def DefaultConfig_def)
qed




text \<open>
  C16: A device whose state is one of the five business states stays among them, whatever reports
  arrive and whatever names they carry, as long as direct transitions name a business state.
\<close>

theorem shadow_states_closed:
  assumes "shadow_valid s" "fst (shadow_look s d) \<in> states" "\<forall>x \<in> set xs. names_state (snd x)"
  shows "fst (shadow_look (run xs s) d) \<in> states"
  using assms loc.states_kept [of s d xs] red.states_kept [of s d xs] run_valid [OF assms(1), of xs]
  unfolding acts_run shadow_valid_def shadow_look_def by auto

theorem shadow_states_closed_witness:
  "fst (shadow_look (run [((1, 1), OpTouch ''d'' ''gw''), ((2, 2), OpReport ''d'' ''bogus'' ''gw'')] (small_sys True)) ''d'') \<in> states"
  by (rule shadow_states_closed [OF small_valid])
     (auto simp: shadow_look_def small_sys_def local_valid_def empty_redis_def NewManager_def DefaultConfig_def
       local_look_def mlook_def states_def Let_def)

text \<open>
  The two whitelists for device reports agree: the script's accepts exactly what the Go check
  accepts, and reports of the current state; and an accepted change between business states is
  one the transition table allows.
\<close>

theorem report_whitelists_agree:
  "(lua_legal_report cur to \<longleftrightarrow> cur = to \<or> legalReport cur to) \<and>
   (cur \<in> states \<longrightarrow> cur \<noteq> to \<longrightarrow> legalReport cur to \<longrightarrow> CanTransition cur to)"
  by (auto simp: legalReport_lua states_def legalReport_def CanTransition_def transitions_def)

theorem report_whitelists_agree_witness:
  "CanTransition ''preoccupy'' ''charging''"
  using report_whitelists_agree [of "''preoccupy''" "''charging''"] by (simp add: states_def legalReport_def)

text \<open>The local sweep, device by device.\<close>

definition expired :: "Manager \<Rightarrow> int \<Rightarrow> Shadow \<Rightarrow> bool" where
  "expired m now s \<longleftrightarrow> sh_State s = ''preoccupy'' \<and> m_preoccupyTimeout m div second < now - sh_UpdatedAt s"

definition rolled_back :: "int \<Rightarrow> Shadow \<Rightarrow> Shadow" where
  "rolled_back now s = s\<lparr>sh_State := ''idle'', sh_Version := sh_Version s + 1, sh_UpdatedAt := now\<rparr>"

lemma recover_local_spec:
  assumes "localMode g" "distinct ds"
  shows "m_local (fst (recover_local ops now ms ds (m, g))) d =
    (case m_local m d of None \<Rightarrow> None
     | Some s \<Rightarrow> Some (if d \<in> set ds \<and> expired m now s then rolled_back now s else s))"
  using assms(2)
proof (induction ds arbitrary: m)
  case (Cons e ds)
  show ?case
  proof (cases "\<exists>s. m_local m e = Some s \<and> expired m now s")
    case False
    then show ?thesis using Cons
      by (cases "m_local m e"; cases "m_local m d") (auto simp: expired_def split: option.splits)
  next
    case True
    then obtain s where s: "m_local m e = Some s" "expired m now s" by blast
    then show ?thesis using Cons assms(1)
      by (cases "m_local m d") (auto simp: expired_def rolled_back_def Let_def)
  qed
qed (simp split: option.splits)

text \<open>
  C29: In local mode one sweep rolls back exactly the devices whose preoccupation has outlived the
  timeout, each to idle with the next version, and leaves every other shadow as it is; the
  outcome does not depend on the order in which the map is visited.
\<close>

theorem sweep_rolls_back_exactly_expired:
  assumes "localMode g" "key_order (m_local m) ds"
  shows "m_local (fst (recoverExpiredPreoccupy ops now ms ds (m, g))) =
    (\<lambda>d. map_option (\<lambda>s. if expired m now s then rolled_back now s else s) (m_local m d))"
proof
  fix d
  have "d \<in> set ds \<longleftrightarrow> m_local m d \<noteq> None" using assms(2) by (rule key_orderD)
  then show "m_local (fst (recoverExpiredPreoccupy ops now ms ds (m, g))) d =
      map_option (\<lambda>s. if expired m now s then rolled_back now s else s) (m_local m d)"
    using assms recover_local_spec [OF assms(1), of ds ops now ms m d]
    by (cases "m_local m d") (auto simp: recoverExpiredPreoccupy_def IsLocalMode_def key_order_def)
qed

definition taken_shadow :: Shadow where
  "taken_shadow = \<lparr>sh_DeviceID = ''d'', sh_State = ''preoccupy'', sh_Version = 4, sh_UpdatedAt = 10,
     sh_GatewayID = [], sh_Online = False, sh_LastSeen = 0\<rparr>"

theorem sweep_rolls_back_exactly_expired_witness:
  "m_local (fst (recoverExpiredPreoccupy map_redis 100 0 [''d''] ((NewManager (cfg_Shadow DefaultConfig))
      \<lparr>m_local := [''d'' \<mapsto> taken_shadow]\<rparr>, empty_redis True))) ''d'' = Some (rolled_back 100 taken_shadow)"
  by (subst sweep_rolls_back_exactly_expired)
     (simp_all add: empty_redis_def key_order_def expired_def NewManager_def DefaultConfig_def taken_shadow_def Let_def)

text \<open>
  The two modes disagree about a device nobody has reported: in local mode taking it fails and
  changes nothing, in Redis mode taking it succeeds with version 1.
\<close>

theorem preoccupy_unknown_device_differs:
  assumes "m_Enabled m" "quiet ops" "redis_hash_laws ops" "LUA_TONUMBER ops ''0'' = Some 0"
    and "m_local m d = None" "\<forall>f. HGET ops (store g) (shadowKey d) f = None"
  shows "(localMode g \<longrightarrow> TryPreoccupy ops now ms d (m, g) = ((None, Some (Error (''shadow not found: '' @ d))), m, g)) \<and>
    (\<not> localMode g \<longrightarrow> (\<exists>sh st. TryPreoccupy ops now ms d (m, g) = ((Some sh, None), st) \<and>
       sh_State sh = ''preoccupy'' \<and> sh_Version sh = 1))"
  using assms
  by (auto simp: TryPreoccupy_def tryPreoccupy_def IsLocalMode_def luaPreoccupy_def lua_bump_def hget_or_def
      split: prod.split)

theorem preoccupy_unknown_device_differs_witness:
  "\<exists>sh st. TryPreoccupy map_redis 5 5000 ''d'' (NewManager (cfg_Shadow DefaultConfig), empty_redis False) =
     ((Some sh, None), st) \<and> sh_Version sh = 1"
  using preoccupy_unknown_device_differs [of "NewManager (cfg_Shadow DefaultConfig)" map_redis "''d''" "empty_redis False" 5 5000]
  by (auto simp: map_redis_hash_laws NewManager_def DefaultConfig_def empty_redis_def ms_empty_def map_redis_sel Let_def
      is_digit_def read_nat_def digit_val_def)

text \<open>
  An enabled manager never counts a rejected attempt in its reject counter, whatever the
  outcome and whatever Redis answers; only a disabled one moves that counter.
\<close>

theorem reject_counter_misses_rejections:
  "m_PreoccupyReject (fst (snd (TryPreoccupy ops now ms d (m, g)))) =
     (if m_Enabled m then m_PreoccupyReject m else m_PreoccupyReject m + 1)"
proof (cases "m_Enabled m")
  case False
  then show ?thesis by (simp add: TryPreoccupy_def tryPreoccupy_def)
next
  case True
  obtain s err m' g' where e: "tryPreoccupy ops now d (m, g) = ((s, err), m', g')" by (metis prod_cases3 surj_pair)
  then have "m_PreoccupyReject m' = m_PreoccupyReject m" and "err = None \<Longrightarrow> s \<noteq> None"
    using True by (auto simp: tryPreoccupy_def Let_def split: if_splits option.splits prod.splits sum.splits)
  then show ?thesis using True
    by (cases s) (auto simp: TryPreoccupy_def e publishEvent_def)
qed

end
