(* ===== verification/CommandQueue.thy ===== *)
theory CommandQueue
  imports Config Redis
begin

text \<open>
  \<^verbatim>\<open>internal/command/command.go\<close>: the queue of commands that wait for a sleeping device.  A queue is
  a list per device, in the manager's map when the gateway runs degraded and in a Redis list
  otherwise; every command identifier is accepted once.  Commands are stored in Redis as JSON:
  \<open>cmd_json\<close> is that marshalling.  A command's parameters are kept as the JSON text they marshal to.
\<close>

section \<open>Definitions\<close>

definition StatusQueued :: string where "StatusQueued = ''queued''"
definition StatusDelivered :: string where "StatusDelivered = ''delivered''"
definition StatusDone :: string where "StatusDone = ''done''"
definition StatusExpired :: string where "StatusExpired = ''expired''"

record Command =
  cmd_CmdID :: string
  cmd_DeviceID :: string
  cmd_Type :: string
  cmd_Params :: string
  cmd_CreatedAt :: int
  cmd_TTL :: int
  cmd_Status :: string

record cmd_json =
  json_cmd :: "Command \<Rightarrow> string"
  unjson_cmd :: "string \<Rightarrow> Command option"

record Queue =
  q_cmdTTL :: int
  q_maxBatch :: int
  q_enabled :: bool
  q_Enqueued :: int
  q_Duplicated :: int
  q_Fetched :: int
  q_Done :: int
  q_Expired :: int
  q_local :: "string \<rightharpoonup> Command list"
  q_localDedup :: "string \<rightharpoonup> int"

definition NewQueue :: "ShadowConfig \<Rightarrow> Queue" where
  "NewQueue cfg =
     (let ttl = wrap64 (shc_CmdTTLSeconds cfg * second)
      in \<lparr>q_cmdTTL = (if ttl \<le> 0 then 24 * hour else ttl),
          q_maxBatch = (if shc_MaxCmdBatch cfg \<le> 0 then 10 else shc_MaxCmdBatch cfg),
          q_enabled = shc_Enabled cfg, q_Enqueued = 0, q_Duplicated = 0, q_Fetched = 0, q_Done = 0, q_Expired = 0,
          q_local = Map.empty, q_localDedup = Map.empty\<rparr>)"

definition cmdKey :: "string \<Rightarrow> string" where "cmdKey deviceID = ''cmd:q:'' @ deviceID"
definition dedupKey :: "string \<Rightarrow> string" where "dedupKey cmdID = ''cmd:dedup:'' @ cmdID"

text \<open>Indexing a missing key of a Go map gives the empty slice.\<close>

definition local_list :: "Queue \<Rightarrow> string \<Rightarrow> Command list" where
  "local_list q d = (case q_local q d of Some l \<Rightarrow> l | None \<Rightarrow> [])"

definition new_cmd :: "Queue \<Rightarrow> int \<Rightarrow> string \<Rightarrow> string \<Rightarrow> string \<Rightarrow> string \<Rightarrow> Command" where
  "new_cmd q now deviceID cmdID cmdType params =
     \<lparr>cmd_CmdID = cmdID, cmd_DeviceID = deviceID, cmd_Type = cmdType, cmd_Params = params,
      cmd_CreatedAt = now, cmd_TTL = q_cmdTTL q div second, cmd_Status = StatusQueued\<rparr>"

text \<open>
  What both ways to enqueue do with a command.  In Redis mode they are three round trips: claiming
  the identifier, pushing, and refreshing the expiry, whose error is ignored.
\<close>

definition enqueue_cmd :: "'r redis_ops \<Rightarrow> cmd_json \<Rightarrow> Command \<Rightarrow> Queue \<times> 'r RedisState \<Rightarrow>
    unit result \<times> Queue \<times> 'r RedisState" where
  "enqueue_cmd ops js cmd = (\<lambda>(q, g).
     let deviceID = cmd_DeviceID cmd; cmdID = cmd_CmdID cmd; dup = Inl (Error (''duplicate command '' @ cmdID)) in
     if IsLocalMode g then
       (if q_localDedup q cmdID \<noteq> None then (dup, q\<lparr>q_Duplicated := q_Duplicated q + 1\<rparr>, g)
        else (Inr (), q\<lparr>q_localDedup := (q_localDedup q)(cmdID \<mapsto> cmd_CreatedAt cmd),
                        q_local := (q_local q)(deviceID \<mapsto> local_list q deviceID @ [cmd]),
                        q_Enqueued := q_Enqueued q + 1\<rparr>, g))
     else
       (let (claimed, g1) = store_call ops g (\<lambda>r.
              let (ok, r') = SETNX ops r (dedupKey cmdID) ''1'' (show_int (q_cmdTTL q)) in (Inr ok, r'))
        in case claimed of
             Inl e \<Rightarrow> (Inl e, q, g1)
           | Inr ok \<Rightarrow>
               if \<not> ok then (dup, q\<lparr>q_Duplicated := q_Duplicated q + 1\<rparr>, g1)
               else (let (pushed, g2) = store_call ops g1 (\<lambda>r. (Inr (), RPUSH ops r (cmdKey deviceID) (json_cmd js cmd)))
                     in case pushed of
                          Inl e \<Rightarrow> (Inl e, q, g2)
                        | Inr _ \<Rightarrow>
                            (let (_, g3) = store_call ops g2 (\<lambda>r. (Inr (), EXPIRE ops r (cmdKey deviceID) (q_cmdTTL q)))
                             in (Inr (), q\<lparr>q_Enqueued := q_Enqueued q + 1\<rparr>, g3)))))"

text \<open>\<open>cmdID\<close> is the identifier \<^verbatim>\<open>utils.GenerateCommandID\<close> returned to this call.\<close>

definition Enqueue :: "'r redis_ops \<Rightarrow> cmd_json \<Rightarrow> int \<Rightarrow> string \<Rightarrow> string \<Rightarrow> string \<Rightarrow> string \<Rightarrow>
    Queue \<times> 'r RedisState \<Rightarrow> (Command option \<times> failure option) \<times> Queue \<times> 'r RedisState" where
  "Enqueue ops js now cmdID deviceID cmdType params = (\<lambda>(q, g).
     if \<not> q_enabled q then ((None, None), q, g)
     else (let cmd = new_cmd q now deviceID cmdID cmdType params;
               (r, st) = enqueue_cmd ops js cmd (q, g)
           in ((case r of Inl e \<Rightarrow> (None, Some e) | Inr _ \<Rightarrow> (Some cmd, None)), st)))"

definition EnqueueWithID :: "'r redis_ops \<Rightarrow> cmd_json \<Rightarrow> int \<Rightarrow> string \<Rightarrow> string \<Rightarrow> string \<Rightarrow> string \<Rightarrow>
    Queue \<times> 'r RedisState \<Rightarrow> unit result \<times> Queue \<times> 'r RedisState" where
  "EnqueueWithID ops js now deviceID cmdID cmdType params = (\<lambda>(q, g).
     if \<not> q_enabled q then (Inr (), q, g)
     else enqueue_cmd ops js (new_cmd q now deviceID cmdID cmdType params) (q, g))"

fun fetch_loop :: "int \<Rightarrow> Command list \<Rightarrow> Command list \<Rightarrow> Command list" where
  "fetch_loop limit [] out = out"
| "fetch_loop limit (c # cs) out =
     (if cmd_Status c = StatusQueued
      then (let out' = out @ [c] in if limit \<le> int (length out') then out' else fetch_loop limit cs out')
      else fetch_loop limit cs out)"

fun unjson_queued :: "cmd_json \<Rightarrow> string list \<Rightarrow> Command list" where
  "unjson_queued js [] = []"
| "unjson_queued js (v # vs) =
     (case unjson_cmd js v of
        None \<Rightarrow> unjson_queued js vs
      | Some c \<Rightarrow> if cmd_Status c = StatusQueued then c # unjson_queued js vs else unjson_queued js vs)"

definition Fetch :: "'r redis_ops \<Rightarrow> cmd_json \<Rightarrow> string \<Rightarrow> int \<Rightarrow> Queue \<times> 'r RedisState \<Rightarrow>
    Command list result \<times> Queue \<times> 'r RedisState" where
  "Fetch ops js deviceID limit0 = (\<lambda>(q, g).
     if \<not> q_enabled q then (Inr [], q, g)
     else (let limit = (if limit0 \<le> 0 then q_maxBatch q else limit0) in
       if IsLocalMode g then
         (let out = fetch_loop limit (local_list q deviceID) []
          in (Inr out, q\<lparr>q_Fetched := q_Fetched q + int (length out)\<rparr>, g))
       else
         (let (vals, g') = store_call ops g (\<lambda>r. (Inr (take (nat limit) (LRANGE ops r (cmdKey deviceID))), r)) in
          case vals of
            Inl e \<Rightarrow> (Inl e, q, g')
          | Inr vs \<Rightarrow> (let out = unjson_queued js vs
                      in (Inr out, q\<lparr>q_Fetched := q_Fetched q + int (length out)\<rparr>, g')))))"

fun remove_cmd :: "string \<Rightarrow> Command list \<Rightarrow> Command list option" where
  "remove_cmd cmdID [] = None"
| "remove_cmd cmdID (c # cs) =
     (if cmd_CmdID c = cmdID then Some cs else map_option (\<lambda>l. c # l) (remove_cmd cmdID cs))"

fun find_json :: "cmd_json \<Rightarrow> string \<Rightarrow> string list \<Rightarrow> string option" where
  "find_json js cmdID [] = None"
| "find_json js cmdID (v # vs) =
     (case unjson_cmd js v of
        None \<Rightarrow> find_json js cmdID vs
      | Some c \<Rightarrow> if cmd_CmdID c = cmdID then Some v else find_json js cmdID vs)"

definition MarkDone :: "'r redis_ops \<Rightarrow> cmd_json \<Rightarrow> string \<Rightarrow> string \<Rightarrow> Queue \<times> 'r RedisState \<Rightarrow>
    unit result \<times> Queue \<times> 'r RedisState" where
  "MarkDone ops js deviceID cmdID = (\<lambda>(q, g).
     if \<not> q_enabled q then (Inr (), q, g)
     else if IsLocalMode g then
       (case remove_cmd cmdID (local_list q deviceID) of
          None \<Rightarrow> (Inr (), q, g)
        | Some l \<Rightarrow> (Inr (), q\<lparr>q_local := (q_local q)(deviceID \<mapsto> l), q_Done := q_Done q + 1\<rparr>, g))
     else
       (let (vals, g1) = store_call ops g (\<lambda>r. (Inr (LRANGE ops r (cmdKey deviceID)), r)) in
        case vals of
          Inl e \<Rightarrow> (Inl e, q, g1)
        | Inr vs \<Rightarrow>
            (case find_json js cmdID vs of
               None \<Rightarrow> (Inr (), q, g1)
             | Some v \<Rightarrow>
                 (let (removed, g2) = store_call ops g1 (\<lambda>r. (Inr (), LREM1 ops r (cmdKey deviceID) v)) in
                  case removed of
                    Inl e \<Rightarrow> (Inl e, q, g2)
                  | Inr _ \<Rightarrow> (Inr (), q\<lparr>q_Done := q_Done q + 1\<rparr>, g2)))))"

definition PendingCount :: "'r redis_ops \<Rightarrow> string \<Rightarrow> Queue \<times> 'r RedisState \<Rightarrow> int result \<times> Queue \<times> 'r RedisState" where
  "PendingCount ops deviceID = (\<lambda>(q, g).
     if \<not> q_enabled q then (Inr 0, q, g)
     else if IsLocalMode g then
       (Inr (int (length (filter (\<lambda>c. cmd_Status c = StatusQueued) (local_list q deviceID)))), q, g)
     else (let (n, g') = store_call ops g (\<lambda>r. (Inr (int (length (LRANGE ops r (cmdKey deviceID)))), r)) in (n, q, g')))"

text \<open>The sweep visits the devices in an order it is given and counts what it removes.\<close>

fun cleanup_loop :: "int \<Rightarrow> string list \<Rightarrow> Queue \<Rightarrow> int \<Rightarrow> Queue \<times> int" where
  "cleanup_loop now [] q removed = (q, removed)"
| "cleanup_loop now (dev # devs) q removed =
     (let l = local_list q dev;
          keep = filter (\<lambda>c. \<not> now - cmd_CreatedAt c > q_cmdTTL q div second) l
      in cleanup_loop now devs (q\<lparr>q_local := (q_local q)(dev := (if keep = [] then None else Some keep))\<rparr>)
           (removed + int (length l - length keep)))"

definition CleanupExpired :: "int \<Rightarrow> string list \<Rightarrow> Queue \<times> 'r RedisState \<Rightarrow> int \<times> Queue \<times> 'r RedisState" where
  "CleanupExpired now order = (\<lambda>(q, g).
     if IsLocalMode g then
       (let (q1, removed) = cleanup_loop now order q 0;
            q2 = q1\<lparr>q_localDedup := (\<lambda>i. case q_localDedup q1 i of None \<Rightarrow> None
                     | Some ts \<Rightarrow> if now - ts > q_cmdTTL q1 div second then None else Some ts),
                   q_Expired := q_Expired q1 + removed\<rparr>
        in (removed, q2, g))
     else (0, q, g))"

definition Queue_Stats :: "Queue \<Rightarrow> (string \<times> int) list" where
  "Queue_Stats q = [(''cmd_enqueued'', q_Enqueued q), (''cmd_duplicated'', q_Duplicated q), (''cmd_fetched'', q_Fetched q),
     (''cmd_done'', q_Done q), (''cmd_expired'', q_Expired q)]"

definition ParseCmdIDFromPayload :: "cmd_json \<Rightarrow> string \<Rightarrow> string" where
  "ParseCmdIDFromPayload js payload =
     (if take 1 payload = ''{'' then (case unjson_cmd js payload of Some c \<Rightarrow> cmd_CmdID c | None \<Rightarrow> []) else [])"

end
