(* ===== verification/CommandSpec.thy ===== *)
theory CommandSpec
  imports CommandQueue
begin

text \<open>
  What the command queue promises, once for both of its implementations.  The locale
  \<open>command_queue\<close> states the contract: an identifier is accepted once, a fetch returns the oldest
  commands and removes nothing, a confirmation removes one command.  Its consequences over runs
  (a command is offered until it is confirmed, and never again afterwards) are proved in it and
  reach the code through the interpretations on the local map and on the Redis lists.
\<close>

section \<open>The contract\<close>

definition without :: "string \<Rightarrow> Command list \<Rightarrow> Command list" where
  "without i l = (case remove_cmd i l of None \<Rightarrow> l | Some l' \<Rightarrow> l')"

definition ids :: "Command list \<Rightarrow> string set" where
  "ids l = cmd_CmdID ` set l"

lemma ids_simps [simp]: "ids [] = {}" "ids (c # l) = insert (cmd_CmdID c) (ids l)" "ids (l @ [c]) = insert (cmd_CmdID c) (ids l)"
  by (auto simp: ids_def)

lemma idsI: "c \<in> set l \<Longrightarrow> cmd_CmdID c \<in> ids l"
  by (simp add: ids_def)

lemma without_simps [simp]:
  "without i [] = []"
  "without i (c # l) = (if cmd_CmdID c = i then l else c # without i l)"
  by (auto simp: without_def split: option.split)

lemma without_keeps: "c \<in> set l \<Longrightarrow> cmd_CmdID c \<noteq> i \<Longrightarrow> c \<in> set (without i l)"
  by (induction l) auto

lemma without_subset: "set (without i l) \<subseteq> set l"
  by (induction l) auto

lemma ids_without: "ids (without i l) \<subseteq> ids l"
  using without_subset by (auto simp: ids_def)

lemma without_distinct: "distinct (map cmd_CmdID l) \<Longrightarrow>
    distinct (map cmd_CmdID (without i l)) \<and> i \<notin> ids (without i l)"
  by (induction l) (use ids_without in \<open>auto simp: ids_def\<close>)

datatype queue_op = QEnq int string string string string | QFetch string int | QDone string string

locale command_queue =
  fixes valid :: "'s \<Rightarrow> bool"
    and look :: "'s \<Rightarrow> string \<Rightarrow> Command list"
    and seen :: "'s \<Rightarrow> string \<Rightarrow> bool"
    and batch :: "'s \<Rightarrow> nat"
    and enq :: "int \<Rightarrow> string \<Rightarrow> string \<Rightarrow> string \<Rightarrow> string \<Rightarrow> 's \<Rightarrow> bool \<times> 's"
    and fetch :: "string \<Rightarrow> int \<Rightarrow> 's \<Rightarrow> Command list \<times> 's"
    and finish :: "string \<Rightarrow> string \<Rightarrow> 's \<Rightarrow> 's"
  assumes enq_law: "valid s \<Longrightarrow> enq now d i ty p s = (ok, s') \<Longrightarrow>
      valid s' \<and> (ok \<longleftrightarrow> \<not> seen s i) \<and> (\<forall>j. seen s' j \<longleftrightarrow> seen s j \<or> j = i) \<and>
      (\<exists>c. cmd_CmdID c = i \<and> cmd_DeviceID c = d \<and> cmd_Type c = ty \<and> cmd_Params c = p \<and>
           look s' = (if ok then (look s)(d := look s d @ [c]) else look s))"
    and fetch_law: "valid s \<Longrightarrow> fetch d n s = (out, s') \<Longrightarrow>
      valid s' \<and> look s' = look s \<and> seen s' = seen s \<and>
      out = take (if n \<le> 0 then batch s else nat n) (look s d)"
    and finish_law: "valid s \<Longrightarrow>
      valid (finish d i s) \<and> seen (finish d i s) = seen s \<and> look (finish d i s) = (look s)(d := without i (look s d))"
    and queued_seen: "valid s \<Longrightarrow> c \<in> set (look s d) \<Longrightarrow> seen s (cmd_CmdID c)"
begin

fun act :: "queue_op \<Rightarrow> 's \<Rightarrow> 's" where
  "act (QEnq now d i ty p) s = snd (enq now d i ty p s)"
| "act (QFetch d n) s = snd (fetch d n s)"
| "act (QDone d i) s = finish d i s"

definition acts :: "queue_op list \<Rightarrow> 's \<Rightarrow> 's" where
  "acts xs s = fold act xs s"

lemma acts_simps [simp]: "acts [] s = s" "acts (x # xs) s = acts xs (act x s)"
  by (simp_all add: acts_def)

lemma act_law:
  assumes "valid s"
  shows "valid (act x s) \<and> (\<forall>j. seen s j \<longrightarrow> seen (act x s) j) \<and>
    (look (act x s) = look s \<or>
     (\<exists>d i. x = QDone d i \<and> look (act x s) = (look s)(d := without i (look s d))) \<or>
     (\<exists>d c. \<not> seen s (cmd_CmdID c) \<and> look (act x s) = (look s)(d := look s d @ [c])))"
proof (cases x)
  case (QEnq now d i ty p)
  obtain ok s' where e: "enq now d i ty p s = (ok, s')" by fastforce
  show ?thesis using enq_law [OF assms e] QEnq e by (cases ok) auto
next
  case (QFetch d n)
  obtain out s' where e: "fetch d n s = (out, s')" by fastforce
  show ?thesis using fetch_law [OF assms e] QFetch e by auto
next
  case (QDone d i)
  then show ?thesis using finish_law [OF assms, of d i] by auto
qed

lemma acts_valid: "valid s \<Longrightarrow> valid (acts xs s)"
  by (induction xs arbitrary: s) (auto simp: act_law)

lemma acts_seen: "valid s \<Longrightarrow> seen s j \<Longrightarrow> seen (acts xs s) j"
  by (induction xs arbitrary: s) (auto simp: act_law)

text \<open>Accepted once: while the identifier is claimed a second attempt changes nothing.\<close>

lemma accepted_once:
  assumes "valid s" "fst (enq now d i ty p s)"
  shows "\<not> fst (enq now' d' i ty' p' (acts xs (snd (enq now d i ty p s)))) \<and>
    look (snd (enq now' d' i ty' p' (acts xs (snd (enq now d i ty p s))))) = look (acts xs (snd (enq now d i ty p s)))"
proof -
  obtain s1 where e: "enq now d i ty p s = (True, s1)" using assms(2) by (metis prod.collapse)
  obtain ok s2 where e2: "enq now' d' i ty' p' (acts xs s1) = (ok, s2)" by fastforce
  have "valid s1" "seen s1 i" using enq_law [OF assms(1) e] by auto
  then have "valid (acts xs s1)" "seen (acts xs s1) i" by (auto intro: acts_valid acts_seen)
  then show ?thesis using enq_law [OF _ e2] by (auto simp: e e2)
qed

text \<open>Kept until confirmed.\<close>

lemma kept:
  "valid s \<Longrightarrow> c \<in> set (look s d) \<Longrightarrow> \<forall>x \<in> set xs. x \<noteq> QDone d (cmd_CmdID c) \<Longrightarrow> c \<in> set (look (acts xs s) d)"
proof (induction xs arbitrary: s)
  case (Cons x xs)
  have "c \<in> set (look (act x s) d)"
    using act_law [OF Cons.prems(1), of x] Cons.prems(2,3) by (auto intro: without_keeps split: if_splits)
  then show ?case using Cons act_law [OF Cons.prems(1), of x] by auto
qed simp

text \<open>Gone for good: a claimed identifier that no queue holds never comes back.\<close>

lemma gone:
  "valid s \<Longrightarrow> seen s i \<Longrightarrow> \<forall>d. i \<notin> ids (look s d) \<Longrightarrow> i \<notin> ids (look (acts xs s) d)"
proof (induction xs arbitrary: s)
  case (Cons x xs)
  have "\<forall>d. i \<notin> ids (look (act x s) d)"
    using act_law [OF Cons.prems(1), of x] Cons.prems(2,3)
    by (auto dest!: subsetD [OF ids_without] split: if_splits)
  then show ?case using Cons act_law [OF Cons.prems(1), of x] by auto
qed simp

text \<open>No identifier is in two places.\<close>

definition unique :: "'s \<Rightarrow> bool" where
  "unique s \<longleftrightarrow> (\<forall>d. distinct (map cmd_CmdID (look s d))) \<and>
     (\<forall>d d'. d \<noteq> d' \<longrightarrow> ids (look s d) \<inter> ids (look s d') = {})"

lemma unique_act:
  assumes "valid s" "unique s"
  shows "unique (act x s)"
proof -
  consider "look (act x s) = look s"
    | (fin) d i where "look (act x s) = (look s)(d := without i (look s d))"
    | (new) d c where "\<not> seen s (cmd_CmdID c)" "look (act x s) = (look s)(d := look s d @ [c])"
    using act_law [OF assms(1), of x] by blast
  then show ?thesis
  proof cases
    case (fin d i)
    then show ?thesis using assms(2) without_distinct [of "look s d" i] unfolding unique_def fin
      by (auto simp: disjoint_iff dest: subsetD [OF ids_without])
  next
    case (new d c)
    have "cmd_CmdID c \<notin> ids (look s e)" for e
      using queued_seen [OF assms(1)] new(1) by (auto simp: ids_def)
    then show ?thesis using assms(2) unfolding unique_def new(2)
      by (auto simp: disjoint_iff dest!: idsI)
  qed (use assms(2) in \<open>simp add: unique_def\<close>)
qed

lemma unique_acts: "valid s \<Longrightarrow> unique s \<Longrightarrow> unique (acts xs s)"
  by (induction xs arbitrary: s) (auto simp: unique_act act_law)

lemma confirmed_gone:
  assumes "valid s" "unique s" "c \<in> set (look s d)"
  shows "cmd_CmdID c \<notin> ids (look (acts xs (finish d (cmd_CmdID c) s)) e)"
proof -
  have f: "valid (finish d (cmd_CmdID c) s)" "seen (finish d (cmd_CmdID c) s) = seen s"
    "look (finish d (cmd_CmdID c) s) = (look s)(d := without (cmd_CmdID c) (look s d))"
    using finish_law [OF assms(1)] by auto
  have "\<forall>e. cmd_CmdID c \<notin> ids (look (finish d (cmd_CmdID c) s) e)"
    unfolding f(3) using assms(2,3) without_distinct [of "look s d"] idsI [OF assms(3)]
    by (auto simp: unique_def disjoint_iff)
  then show ?thesis using gone [OF f(1), of "cmd_CmdID c"] queued_seen [OF assms(1,3)] by (simp add: f(2))
qed

end

section \<open>The code as an instance\<close>

type_synonym 'r cmd_sys = "'r redis_ops \<times> cmd_json \<times> Queue \<times> 'r RedisState"

definition enq_op :: "int \<Rightarrow> string \<Rightarrow> string \<Rightarrow> string \<Rightarrow> string \<Rightarrow> 'r cmd_sys \<Rightarrow> bool \<times> 'r cmd_sys" where
  "enq_op now d i ty p = (\<lambda>(ops, js, st). let (r, st') = EnqueueWithID ops js now d i ty p st in (r = Inr (), ops, js, st'))"

definition fetch_op :: "string \<Rightarrow> int \<Rightarrow> 'r cmd_sys \<Rightarrow> Command list \<times> 'r cmd_sys" where
  "fetch_op d n = (\<lambda>(ops, js, st). let (r, st') = Fetch ops js d n st in ((case r of Inr l \<Rightarrow> l | Inl _ \<Rightarrow> []), ops, js, st'))"

definition done_op :: "string \<Rightarrow> string \<Rightarrow> 'r cmd_sys \<Rightarrow> 'r cmd_sys" where
  "done_op d i = (\<lambda>(ops, js, st). let (r, st') = MarkDone ops js d i st in (ops, js, st'))"

definition batch_of :: "'r cmd_sys \<Rightarrow> nat" where
  "batch_of = (\<lambda>(ops, js, q, g). nat (q_maxBatch q))"

subsection \<open>The local map\<close>

definition local_queue :: "'r cmd_sys \<Rightarrow> bool" where
  "local_queue = (\<lambda>(ops, js, q, g). q_enabled q \<and> localMode g \<and> 0 < q_maxBatch q \<and>
     (\<forall>d. \<forall>c \<in> set (local_list q d). cmd_Status c = StatusQueued \<and> q_localDedup q (cmd_CmdID c) \<noteq> None))"

definition local_cmds :: "'r cmd_sys \<Rightarrow> string \<Rightarrow> Command list" where
  "local_cmds = (\<lambda>(ops, js, q, g). local_list q)"

definition local_seen :: "'r cmd_sys \<Rightarrow> string \<Rightarrow> bool" where
  "local_seen = (\<lambda>(ops, js, q, g) i. q_localDedup q i \<noteq> None)"

definition list_at :: "(string \<rightharpoonup> Command list) \<Rightarrow> string \<Rightarrow> Command list" where
  "list_at m d = (case m d of Some l \<Rightarrow> l | None \<Rightarrow> [])"

lemma list_at_upd [simp]: "list_at (m(d \<mapsto> l)) = (list_at m)(d := l)"
  by (auto simp: list_at_def fun_eq_iff)

lemma local_list_at: "local_list q = list_at (q_local q)"
  by (simp add: local_list_def list_at_def fun_eq_iff)

lemma fetch_loop_take:
  "\<forall>c \<in> set cs. cmd_Status c = StatusQueued \<Longrightarrow> int (length out) < limit \<Longrightarrow>
     fetch_loop limit cs out = take (nat limit) (out @ cs)"
proof (induction cs arbitrary: out)
  case (Cons c cs)
  then show ?case
  proof (cases "limit \<le> int (length (out @ [c]))")
    case True
    then have "limit = int (Suc (length out))" using Cons.prems(2) by simp
    then show ?thesis using Cons.prems by (simp add: Let_def nat_add_distrib)
  next
    case False
    then have "nat limit - length out = Suc (nat limit - Suc (length out))" by simp
    then show ?thesis using Cons False by (simp add: Let_def)
  qed
qed simp

definition cmd_for :: "'r cmd_sys \<Rightarrow> int \<Rightarrow> string \<Rightarrow> string \<Rightarrow> string \<Rightarrow> string \<Rightarrow> Command" where
  "cmd_for = (\<lambda>(ops, js, q, g). new_cmd q)"

lemma cmd_for_fields:
  "cmd_CmdID (cmd_for s now d i ty p) = i \<and> cmd_DeviceID (cmd_for s now d i ty p) = d \<and>
   cmd_Type (cmd_for s now d i ty p) = ty \<and> cmd_Params (cmd_for s now d i ty p) = p"
  by (cases s) (simp add: cmd_for_def new_cmd_def)

lemma enq_local:
  assumes "local_queue s" "enq_op now d i ty p s = (ok, s')"
  shows "local_queue s' \<and> (ok \<longleftrightarrow> \<not> local_seen s i) \<and> (\<forall>j. local_seen s' j \<longleftrightarrow> local_seen s j \<or> j = i) \<and>
      local_cmds s' = (if ok then (local_cmds s)(d := local_cmds s d @ [cmd_for s now d i ty p]) else local_cmds s)"
proof -
  obtain ops js q g where s: "s = (ops, js, q, g)" by (cases s)
  show ?thesis using assms
    by (cases "q_localDedup q i")
       (auto simp: s enq_op_def EnqueueWithID_def enqueue_cmd_def local_queue_def local_seen_def local_cmds_def
        cmd_for_def IsLocalMode_def new_cmd_def Let_def local_list_at split: if_splits)
qed

interpretation lq: command_queue local_queue local_cmds local_seen batch_of enq_op fetch_op done_op
proof
  fix s s' :: "'r cmd_sys" and d n out
  obtain ops js q g where s: "s = (ops, js, q, g)" by (cases s)
  assume v: "local_queue s" and e: "fetch_op d n s = (out, s')"
  have "fetch_loop (if n \<le> 0 then q_maxBatch q else n) (local_list q d) [] =
      take (if n \<le> 0 then nat (q_maxBatch q) else nat n) (local_list q d)"
    using v fetch_loop_take [of "local_list q d" "[]"] by (auto simp: s local_queue_def)
  then show "local_queue s' \<and> local_cmds s' = local_cmds s \<and> local_seen s' = local_seen s \<and>
      out = take (if n \<le> 0 then batch_of s else nat n) (local_cmds s d)"
    using v e by (auto simp: s fetch_op_def Fetch_def local_queue_def local_cmds_def local_seen_def batch_of_def
        IsLocalMode_def Let_def fun_eq_iff local_list_at)
next
  fix s :: "'r cmd_sys" and d i
  obtain ops js q g where s: "s = (ops, js, q, g)" by (cases s)
  assume v: "local_queue s"
  have "set (without i (local_list q d)) \<subseteq> set (local_list q d)" by (rule without_subset)
  then show "local_queue (done_op d i s) \<and> local_seen (done_op d i s) = local_seen s \<and>
      local_cmds (done_op d i s) = (local_cmds s)(d := without i (local_cmds s d))"
    using v by (cases "remove_cmd i (local_list q d)")
      (auto simp: s done_op_def MarkDone_def local_queue_def local_cmds_def local_seen_def IsLocalMode_def
        without_def local_list_at fun_eq_iff subset_iff)
next
  fix s s' :: "'r cmd_sys" and now d i ty p ok
  assume "local_queue s" "enq_op now d i ty p s = (ok, s')"
  from enq_local [OF this] show "local_queue s' \<and> (ok \<longleftrightarrow> \<not> local_seen s i) \<and>
      (\<forall>j. local_seen s' j \<longleftrightarrow> local_seen s j \<or> j = i) \<and>
      (\<exists>c. cmd_CmdID c = i \<and> cmd_DeviceID c = d \<and> cmd_Type c = ty \<and> cmd_Params c = p \<and>
           local_cmds s' = (if ok then (local_cmds s)(d := local_cmds s d @ [c]) else local_cmds s))"
    using cmd_for_fields [of s now d i ty p] by blast
qed (auto simp: local_queue_def local_cmds_def local_seen_def)

subsection \<open>The Redis lists\<close>

definition cmd_json_law :: "cmd_json \<Rightarrow> bool" where
  "cmd_json_law js \<longleftrightarrow> (\<forall>c. unjson_cmd js (json_cmd js c) = Some c)"

definition entries_ok :: "'r redis_ops \<Rightarrow> cmd_json \<Rightarrow> 'r \<Rightarrow> bool" where
  "entries_ok ops js r \<longleftrightarrow> (\<forall>d. \<forall>v \<in> set (LRANGE ops r (cmdKey d)).
     \<exists>c. unjson_cmd js v = Some c \<and> cmd_Status c = StatusQueued \<and> EXISTS ops r (dedupKey (cmd_CmdID c)))"

definition redis_queue :: "'r cmd_sys \<Rightarrow> bool" where
  "redis_queue = (\<lambda>(ops, js, q, g). q_enabled q \<and> \<not> localMode g \<and> 0 < q_maxBatch q \<and> quiet ops \<and>
     redis_list_laws ops \<and> cmd_json_law js \<and> entries_ok ops js (store g))"

definition redis_cmds :: "'r cmd_sys \<Rightarrow> string \<Rightarrow> Command list" where
  "redis_cmds = (\<lambda>(ops, js, q, g) d. map (\<lambda>v. the (unjson_cmd js v)) (LRANGE ops (store g) (cmdKey d)))"

definition redis_seen :: "'r cmd_sys \<Rightarrow> string \<Rightarrow> bool" where
  "redis_seen = (\<lambda>(ops, js, q, g) i. EXISTS ops (store g) (dedupKey i))"

lemma queue_keys [simp]:
  "cmdKey d = cmdKey d' \<longleftrightarrow> d = d'" "dedupKey i = dedupKey j \<longleftrightarrow> i = j"
  "cmdKey d \<noteq> dedupKey i" "dedupKey i \<noteq> cmdKey d"
  by (auto simp: cmdKey_def dedupKey_def)

lemma unjson_queued_all:
  "\<forall>v \<in> set vs. \<exists>c. unjson_cmd js v = Some c \<and> cmd_Status c = StatusQueued \<Longrightarrow>
     unjson_queued js vs = map (\<lambda>v. the (unjson_cmd js v)) vs"
  by (induction vs) auto

lemma find_json_without:
  "\<forall>v \<in> set vs. unjson_cmd js v \<noteq> None \<Longrightarrow>
     (case find_json js i vs of
        None \<Rightarrow> without i (map (\<lambda>v. the (unjson_cmd js v)) vs) = map (\<lambda>v. the (unjson_cmd js v)) vs
      | Some v \<Rightarrow> without i (map (\<lambda>v. the (unjson_cmd js v)) vs) = map (\<lambda>v. the (unjson_cmd js v)) (remove1 v vs))"
proof (induction vs)
  case (Cons w vs)
  have found: "find_json js i vs = Some v \<Longrightarrow> \<exists>c. unjson_cmd js v = Some c \<and> cmd_CmdID c = i" for v
    by (induction vs) (auto split: option.splits if_splits)
  obtain c where c: "unjson_cmd js w = Some c" using Cons.prems by auto
  show ?case using Cons c found by (auto split: option.splits)
qed simp

lemma enq_redis:
  assumes "redis_queue s" "enq_op now d i ty p s = (ok, s')"
  shows "redis_queue s' \<and> (ok \<longleftrightarrow> \<not> redis_seen s i) \<and> (\<forall>j. redis_seen s' j \<longleftrightarrow> redis_seen s j \<or> j = i) \<and>
      redis_cmds s' = (if ok then (redis_cmds s)(d := redis_cmds s d @ [cmd_for s now d i ty p]) else redis_cmds s)"
proof -
  obtain ops js q g where s: "s = (ops, js, q, g)" by (cases s)
  have v: "q_enabled q" "\<not> localMode g" "0 < q_maxBatch q" "quiet ops" "redis_list_laws ops" "cmd_json_law js"
      "entries_ok ops js (store g)"
    using assms(1) by (simp_all add: s redis_queue_def)
  let ?c = "new_cmd q now d i ty p"
  show ?thesis
  proof (cases "EXISTS ops (store g) (dedupKey i)")
    case True
    then show ?thesis using v assms(2)
      by (auto simp: s enq_op_def EnqueueWithID_def enqueue_cmd_def SETNX_def redis_queue_def redis_seen_def redis_cmds_def
          IsLocalMode_def new_cmd_def Let_def)
  next
    case False
    define r' where "r' = EXPIRE ops (RPUSH ops (SETEX ops (store g) (dedupKey i) ''1'' (show_int (q_cmdTTL q)))
        (cmdKey d) (json_cmd js ?c)) (cmdKey d) (q_cmdTTL q)"
    have s': "s' = (ops, js, q\<lparr>q_Enqueued := q_Enqueued q + 1\<rparr>, g\<lparr>store := r'\<rparr>)" and ok: ok
      using False v assms(2)
      by (auto simp: s enq_op_def EnqueueWithID_def enqueue_cmd_def SETNX_def IsLocalMode_def new_cmd_def Let_def r'_def)
    have rng: "LRANGE ops r' (cmdKey e) = LRANGE ops (store g) (cmdKey e) @ (if e = d then [json_cmd js ?c] else [])" for e
      by (simp add: r'_def list_laws [OF v(5)])
    have ex: "EXISTS ops r' (dedupKey j) \<longleftrightarrow> j = i \<or> EXISTS ops (store g) (dedupKey j)" for j
      by (simp add: r'_def list_laws [OF v(5)])
    have "unjson_cmd js (json_cmd js ?c) = Some ?c" using v(6) by (simp add: cmd_json_law_def)
    moreover have "cmd_Status ?c = StatusQueued" "cmd_CmdID ?c = i" by (simp_all add: new_cmd_def)
    ultimately have "entries_ok ops js r'" using v(7) by (auto simp: entries_ok_def rng ex split: if_splits)
    then show ?thesis using v False ok \<open>unjson_cmd js (json_cmd js ?c) = Some ?c\<close>
      by (auto simp: s s' redis_queue_def redis_seen_def redis_cmds_def cmd_for_def ex rng fun_eq_iff)
  qed
qed

interpretation rq: command_queue redis_queue redis_cmds redis_seen batch_of enq_op fetch_op done_op
proof
  fix s s' :: "'r cmd_sys" and d n out
  obtain ops js q g where s: "s = (ops, js, q, g)" by (cases s)
  assume v: "redis_queue s" and e: "fetch_op d n s = (out, s')"
  have "unjson_queued js (take k (LRANGE ops (store g) (cmdKey d))) =
      map (\<lambda>v. the (unjson_cmd js v)) (take k (LRANGE ops (store g) (cmdKey d)))" for k
    using v by (intro unjson_queued_all) (fastforce simp: s redis_queue_def entries_ok_def dest: in_set_takeD)
  then show "redis_queue s' \<and> redis_cmds s' = redis_cmds s \<and> redis_seen s' = redis_seen s \<and>
      out = take (if n \<le> 0 then batch_of s else nat n) (redis_cmds s d)"
    using v e by (auto simp: s fetch_op_def Fetch_def redis_queue_def redis_cmds_def redis_seen_def batch_of_def
        IsLocalMode_def Let_def fun_eq_iff take_map)
next
  fix s :: "'r cmd_sys" and d i
  obtain ops js q g where s: "s = (ops, js, q, g)" by (cases s)
  assume valid: "redis_queue s"
  then have v: "q_enabled q" "\<not> localMode g" "quiet ops" "redis_list_laws ops" "entries_ok ops js (store g)"
    by (simp_all add: s redis_queue_def)
  have "\<forall>v \<in> set (LRANGE ops (store g) (cmdKey d)). unjson_cmd js v \<noteq> None"
    using v(5) by (fastforce simp: entries_ok_def)
  note f = find_json_without [OF this, of i]
  show "redis_queue (done_op d i s) \<and> redis_seen (done_op d i s) = redis_seen s \<and>
      redis_cmds (done_op d i s) = (redis_cmds s)(d := without i (redis_cmds s d))"
  proof (cases "find_json js i (LRANGE ops (store g) (cmdKey d))")
    case None
    then show ?thesis using f v valid
      by (auto simp: s done_op_def MarkDone_def IsLocalMode_def redis_queue_def redis_seen_def redis_cmds_def fun_eq_iff)
  next
    case (Some w)
    define r' where "r' = LREM1 ops (store g) (cmdKey d) w"
    have s': "done_op d i s = (ops, js, q\<lparr>q_Done := q_Done q + 1\<rparr>, g\<lparr>store := r'\<rparr>)"
      using Some v by (simp add: s done_op_def MarkDone_def IsLocalMode_def r'_def)
    have "LRANGE ops r' (cmdKey e) = (if e = d then remove1 w (LRANGE ops (store g) (cmdKey d))
          else LRANGE ops (store g) (cmdKey e))"
      and "EXISTS ops r' (dedupKey j) = EXISTS ops (store g) (dedupKey j)" for e j
      by (simp_all add: r'_def list_laws [OF v(4)])
    note store' = this
    have "entries_ok ops js r'" using v(5)
      by (auto simp: entries_ok_def store' dest: notin_set_remove1)
    then show ?thesis unfolding s' using Some f valid
      by (auto simp: s redis_queue_def redis_seen_def redis_cmds_def store' fun_eq_iff)
  qed
next
  fix s s' :: "'r cmd_sys" and now d i ty p ok
  assume "redis_queue s" "enq_op now d i ty p s = (ok, s')"
  from enq_redis [OF this] show "redis_queue s' \<and> (ok \<longleftrightarrow> \<not> redis_seen s i) \<and>
      (\<forall>j. redis_seen s' j \<longleftrightarrow> redis_seen s j \<or> j = i) \<and>
      (\<exists>c. cmd_CmdID c = i \<and> cmd_DeviceID c = d \<and> cmd_Type c = ty \<and> cmd_Params c = p \<and>
           redis_cmds s' = (if ok then (redis_cmds s)(d := redis_cmds s d @ [c]) else redis_cmds s))"
    using cmd_for_fields [of s now d i ty p] by blast
next
  fix s :: "'r cmd_sys" and c d
  assume "redis_queue s" "c \<in> set (redis_cmds s d)"
  then show "redis_seen s (cmd_CmdID c)"
    by (cases s) (fastforce simp: redis_queue_def redis_cmds_def redis_seen_def entries_ok_def)
qed

section \<open>Properties\<close>

definition queue_ok :: "'r cmd_sys \<Rightarrow> bool" where
  "queue_ok s \<longleftrightarrow> local_queue s \<or> redis_queue s"

definition pending :: "'r cmd_sys \<Rightarrow> string \<Rightarrow> Command list" where
  "pending s = (if local_queue s then local_cmds s else redis_cmds s)"

definition ids_unique :: "'r cmd_sys \<Rightarrow> bool" where
  "ids_unique s \<longleftrightarrow> (\<forall>d. distinct (map cmd_CmdID (pending s d))) \<and>
     (\<forall>d d'. d \<noteq> d' \<longrightarrow> ids (pending s d) \<inter> ids (pending s d') = {})"

fun queue_step :: "queue_op \<Rightarrow> 'r cmd_sys \<Rightarrow> 'r cmd_sys" where
  "queue_step (QEnq now d i ty p) s = snd (enq_op now d i ty p s)"
| "queue_step (QFetch d n) s = snd (fetch_op d n s)"
| "queue_step (QDone d i) s = done_op d i s"

definition queue_run :: "queue_op list \<Rightarrow> 'r cmd_sys \<Rightarrow> 'r cmd_sys" where
  "queue_run xs s = fold queue_step xs s"

lemma acts_queue_run: "lq.acts xs (s :: 'r cmd_sys) = queue_run xs s" "rq.acts xs s = queue_run xs s"
proof -
  have "lq.act = (queue_step :: queue_op \<Rightarrow> 'r cmd_sys \<Rightarrow> _)" "rq.act = (queue_step :: queue_op \<Rightarrow> 'r cmd_sys \<Rightarrow> _)"
    by (intro ext; case_tac x; simp)+
  then show "lq.acts xs s = queue_run xs s" "rq.acts xs s = queue_run xs s"
    by (simp_all add: lq.acts_def rq.acts_def queue_run_def)
qed

lemma queue_modes: "local_queue s \<Longrightarrow> \<not> redis_queue s"
  by (auto simp: local_queue_def redis_queue_def)

lemma unique_modes: "local_queue s \<Longrightarrow> lq.unique s \<longleftrightarrow> ids_unique s" "redis_queue s \<Longrightarrow> rq.unique s \<longleftrightarrow> ids_unique s"
  using queue_modes [of s] by (auto simp: lq.unique_def rq.unique_def ids_unique_def pending_def)

lemma queue_run_ok: "queue_ok s \<Longrightarrow> queue_ok (queue_run xs s) \<and> (local_queue (queue_run xs s) \<longleftrightarrow> local_queue s)"
  using lq.acts_valid [of s xs] rq.acts_valid [of s xs] queue_modes [of s] queue_modes [of "queue_run xs s"] unfolding acts_queue_run queue_ok_def by blast

lemma fetch_pending: "queue_ok s \<Longrightarrow>
    fst (fetch_op d n s) = take (if n \<le> 0 then batch_of s else nat n) (pending s d) \<and>
    pending (snd (fetch_op d n s)) = pending s"
  using lq.fetch_law [of s d n "fst (fetch_op d n s)" "snd (fetch_op d n s)"]
    rq.fetch_law [of s d n "fst (fetch_op d n s)" "snd (fetch_op d n s)"] queue_modes [of s]
    queue_modes [of "snd (fetch_op d n s)"]
  by (auto simp: queue_ok_def pending_def)

lemma enq_ok: "queue_ok s \<Longrightarrow> enq_op now d i ty p s = (ok, s') \<Longrightarrow> queue_ok s' \<and> (local_queue s' \<longleftrightarrow> local_queue s) \<and>
    pending s' = (if ok then (pending s)(d := pending s d @ [cmd_for s now d i ty p]) else pending s)"
  using enq_local [of s now d i ty p ok s'] enq_redis [of s now d i ty p ok s'] queue_modes [of s] queue_modes [of s']
  by (auto simp: queue_ok_def pending_def)

subsection \<open>A small system for the witnesses\<close>

definition net_json :: cmd_json where
  "net_json = \<lparr>
     json_cmd = \<lambda>c. concat (map enc_str [cmd_CmdID c, cmd_DeviceID c, cmd_Type c, cmd_Params c,
       show_int (cmd_CreatedAt c), show_int (cmd_TTL c), cmd_Status c]),
     unjson_cmd = \<lambda>t. (case dec_strs 7 t of
         Some [i, d, ty, p, at, ttl, st] \<Rightarrow>
           (case (parse_int at, parse_int ttl) of
              (Some a, Some l) \<Rightarrow> Some \<lparr>cmd_CmdID = i, cmd_DeviceID = d, cmd_Type = ty, cmd_Params = p,
                 cmd_CreatedAt = a, cmd_TTL = l, cmd_Status = st\<rparr>
            | _ \<Rightarrow> None)
       | _ \<Rightarrow> None)\<rparr>"

lemma net_json_law: "cmd_json_law net_json"
  unfolding cmd_json_law_def
proof
  fix c :: Command
  let ?fs = "[cmd_CmdID c, cmd_DeviceID c, cmd_Type c, cmd_Params c, show_int (cmd_CreatedAt c), show_int (cmd_TTL c), cmd_Status c]"
  have "dec_strs 7 (concat (map enc_str ?fs)) = Some ?fs" by (rule dec_enc_strs_end) simp
  then show "unjson_cmd net_json (json_cmd net_json c) = Some c"
    unfolding net_json_def by (simp del: dec_strs.simps map_eq_Cons_conv list.map concat.simps)
qed

definition small_cmds :: "bool \<Rightarrow> map_store cmd_sys" where
  "small_cmds local = (map_redis, net_json, NewQueue (cfg_Shadow DefaultConfig), empty_redis local)"

lemma small_cmds_ok: "queue_ok (small_cmds local)"
  by (cases local)
     (auto simp: queue_ok_def small_cmds_def local_queue_def redis_queue_def NewQueue_def DefaultConfig_def empty_redis_def
       local_list_def net_json_law map_redis_list_laws entries_ok_def map_redis_sel ms_empty_def Let_def)

lemma small_enq: "fst (enq_op now d i ty p (small_cmds local))"
proof -
  have "\<not> local_seen (small_cmds local) i" "\<not> redis_seen (small_cmds local) i"
    by (simp_all add: small_cmds_def local_seen_def redis_seen_def NewQueue_def Let_def empty_redis_def map_redis_sel ms_empty_def)
  then show ?thesis
    using enq_local [of "small_cmds local" now d i ty p "fst (enq_op now d i ty p (small_cmds local))"]
      enq_redis [of "small_cmds local" now d i ty p "fst (enq_op now d i ty p (small_cmds local))"] small_cmds_ok [of local]
    by (metis prod.collapse queue_ok_def)
qed







text \<open>
  Fetching returns the oldest commands in the order they were enqueued, at most the limit (the
  batch size for a limit that is not positive), and leaves every queue as it is.
\<close>

theorem fetch_oldest_first:
  assumes "queue_ok s"
  shows "fst (fetch_op d n s) = take (if n \<le> 0 then batch_of s else nat n) (pending s d) \<and>
    pending (snd (fetch_op d n s)) = pending s"
  using fetch_pending [OF assms] .

theorem fetch_oldest_first_witness:
  "fst (fetch_op ''dev'' 0 (small_cmds True)) = take 10 (pending (small_cmds True) ''dev'')"
  using fetch_oldest_first [OF small_cmds_ok [of True], of "''dev''" 0]
  by (simp add: batch_of_def small_cmds_def NewQueue_def DefaultConfig_def Let_def)

text \<open>The expiry sweep, device by device.\<close>

definition too_old :: "int \<Rightarrow> Queue \<Rightarrow> int \<Rightarrow> bool" where
  "too_old now q t \<longleftrightarrow> now - t > q_cmdTTL q div second"

lemma cleanup_loop_spec:
  assumes "distinct order"
  shows "list_at (q_local (fst (cleanup_loop now order q n))) d =
      (if d \<in> set order then filter (\<lambda>c. \<not> too_old now q (cmd_CreatedAt c)) (list_at (q_local q) d) else list_at (q_local q) d) \<and>
    q_localDedup (fst (cleanup_loop now order q n)) = q_localDedup q \<and> q_cmdTTL (fst (cleanup_loop now order q n)) = q_cmdTTL q"
  using assms
proof (induction order arbitrary: q n)
  case (Cons e order)
  define keep where "keep = filter (\<lambda>c. \<not> now - cmd_CreatedAt c > q_cmdTTL q div second) (local_list q e)"
  define q1 where "q1 = q\<lparr>q_local := (q_local q)(e := (if keep = [] then None else Some keep))\<rparr>"
  have at1: "list_at (q_local q1) = (list_at (q_local q))(e := keep)"
    by (auto simp: q1_def list_at_def fun_eq_iff)
  have same: "q_cmdTTL q1 = q_cmdTTL q" "q_localDedup q1 = q_localDedup q" by (simp_all add: q1_def)
  have "cleanup_loop now (e # order) q n = cleanup_loop now order q1 (n + int (length (local_list q e) - length keep))"
    by (simp add: keep_def q1_def Let_def)
  moreover have "keep = filter (\<lambda>c. \<not> too_old now q (cmd_CreatedAt c)) (list_at (q_local q) e)"
    by (simp add: keep_def too_old_def local_list_at)
  ultimately show ?case
    using Cons.IH [of q1 "n + int (length (local_list q e) - length keep)"] Cons.prems at1 same
    by (auto simp: too_old_def)
qed simp

text \<open>
  In local mode the expiry sweep keeps exactly the commands and claims that are not older than
  the queue's lifetime, in order, whatever order it visits the devices in.
\<close>

theorem cleanup_drops_exactly_expired:
  assumes "localMode g" "key_order (q_local q) order" "CleanupExpired now order (q, g) = (n, q', g')"
  shows "local_list q' d = filter (\<lambda>c. \<not> too_old now q (cmd_CreatedAt c)) (local_list q d) \<and>
    q_localDedup q' i = (case q_localDedup q i of Some t \<Rightarrow> if too_old now q t then None else Some t | None \<Rightarrow> None)"
proof -
  note spec = cleanup_loop_spec [of order now q 0 d]
  have "distinct order" using assms(2) by (simp add: key_order_def)
  moreover have "d \<notin> set order \<Longrightarrow> list_at (q_local q) d = []"
    using key_orderD [OF assms(2), of d] by (simp add: list_at_def)
  ultimately show ?thesis using spec assms(1,3)
    by (cases "d \<in> set order") (auto simp: CleanupExpired_def IsLocalMode_def Let_def local_list_at too_old_def
        split: prod.splits option.split)
qed

theorem cleanup_drops_exactly_expired_witness:
  "\<exists>n q' g'. CleanupExpired 100000 [] (NewQueue (cfg_Shadow DefaultConfig), empty_redis True) = (n, q', g') \<and> local_list q' ''d'' = []"
proof -
  obtain n q' g' where c: "CleanupExpired 100000 [] (NewQueue (cfg_Shadow DefaultConfig), empty_redis True) = (n, q', g')"
    by (metis prod_cases3)
  have "local_list q' ''d'' = filter (\<lambda>c. \<not> too_old 100000 (NewQueue (cfg_Shadow DefaultConfig)) (cmd_CreatedAt c))
      (local_list (NewQueue (cfg_Shadow DefaultConfig)) ''d'')"
    using cleanup_drops_exactly_expired [OF _ _ c, of "''d''"]
    by (simp add: empty_redis_def key_order_def NewQueue_def Let_def)
  with c show ?thesis by (simp add: local_list_def NewQueue_def Let_def)
qed


text \<open>A store that drops the second request.\<close>

definition flaky :: "(map_store \<times> nat) redis_ops" where
  "flaky = \<lparr>
     RT = \<lambda>(r, n). if n = 1 then (Some (''i/o timeout'', False), (r, 0)) else (None, (r, n - 1)),
     HGET = \<lambda>(r, n). HGET map_redis r, HGETALL = \<lambda>(r, n). HGETALL map_redis r,
     HMSET = \<lambda>(r, n) k fs. (HMSET map_redis r k fs, n), HDEL = \<lambda>(r, n) k f. (HDEL map_redis r k f, n),
     SETEX = \<lambda>(r, n) k v t. (SETEX map_redis r k v t, n), GETK = \<lambda>(r, n). GETK map_redis r,
     EXPIRE = \<lambda>(r, n) k t. (EXPIRE map_redis r k t, n), SCAN = \<lambda>(r, n). SCAN map_redis r,
     EXISTS = \<lambda>(r, n). EXISTS map_redis r, LRANGE = \<lambda>(r, n). LRANGE map_redis r,
     RPUSH = \<lambda>(r, n) k x. (RPUSH map_redis r k x, n), LREM1 = \<lambda>(r, n) k x. (LREM1 map_redis r k x, n),
     LUA_TONUMBER = parse_int, LUA_TOSTRING = show_int\<rparr>"

definition flaky_state :: "(map_store \<times> nat) RedisState" where
  "flaky_state = \<lparr>localMode = False, store = (ms_empty, 2), localGateways = Map.empty, localOnline = Map.empty,
     localIoTDev = Map.empty, published = []\<rparr>"


end
