(* ===== verification/Ids.thy ===== *)
theory Ids
  imports Prelude
begin

text \<open>
  \<^verbatim>\<open>pkg/utils/id.go\<close>: the snowflake generator behind every identifier of the gateway, the UUID and
  MD5 generators and the prefixed identifiers.  A generator reads the clock several times; the
  readings it will get are a list of milliseconds, consumed from the front.  The generators for
  random bytes and the MD5 digest are arguments.  An \<^verbatim>\<open>int64\<close> identifier is built on 64-bit words and
  read back as a signed number, as \<^verbatim>\<open>%d\<close> prints it.
\<close>

section \<open>Definitions\<close>

record SnowflakeGenerator =
  sf_nodeID :: int
  sf_sequence :: int
  sf_lastTime :: int
  sf_epoch :: int

definition NewSnowflakeGenerator :: "int \<Rightarrow> SnowflakeGenerator" where
  "NewSnowflakeGenerator nodeID =
     \<lparr>sf_nodeID = nodeID, sf_sequence = 0, sf_lastTime = 0, sf_epoch = 1704067200000\<rparr>"

text \<open>The readings may end before the next millisecond is seen: then the loop has not returned yet.\<close>

fun waitNextMillis :: "int \<Rightarrow> int list \<Rightarrow> (int \<times> int list) option" where
  "waitNextMillis lastTime [] = None"
| "waitNextMillis lastTime (currentTime # clock) =
     (if currentTime \<le> lastTime then waitNextMillis lastTime clock else Some (currentTime, clock))"

definition snowflake_id :: "int \<Rightarrow> int \<Rightarrow> int \<Rightarrow> int" where
  "snowflake_id age nodeID sequence =
     sint (push_bit 22 (word_of_int age :: 64 word) OR
           push_bit 12 (word_of_int nodeID AND 0x3FF) OR word_of_int sequence)"

definition Generate_num :: "int list \<Rightarrow> SnowflakeGenerator \<Rightarrow> (int \<times> int list \<times> SnowflakeGenerator) option" where
  "Generate_num clock g =
     (case clock of
        [] \<Rightarrow> None
      | reading # clock1 \<Rightarrow>
          (let currentTime = (if reading < sf_lastTime g then sf_lastTime g else reading);
               sequence = (if currentTime = sf_lastTime g then (sf_sequence g + 1) AND 0xFFF else 0)
           in case (if currentTime = sf_lastTime g \<and> sequence = 0
                    then waitNextMillis (sf_lastTime g) clock1 else Some (currentTime, clock1)) of
                None \<Rightarrow> None
              | Some (time, clock2) \<Rightarrow>
                  Some (snowflake_id (time - sf_epoch g) (sf_nodeID g) sequence, clock2,
                        g\<lparr>sf_sequence := sequence, sf_lastTime := time\<rparr>)))"

definition Generate :: "int list \<Rightarrow> SnowflakeGenerator \<Rightarrow> (string \<times> int list \<times> SnowflakeGenerator) option" where
  "Generate clock g = map_option (\<lambda>(v, clock', g'). (show_int v, clock', g')) (Generate_num clock g)"

definition GenerateWithPrefix :: "string \<Rightarrow> int list \<Rightarrow> SnowflakeGenerator \<Rightarrow>
    (string \<times> int list \<times> SnowflakeGenerator) option" where
  "GenerateWithPrefix prefix clock g =
     map_option (\<lambda>(v, clock', g'). (prefix @ ''_'' @ v, clock', g')) (Generate clock g)"

definition GenerateConnectionID :: "int list \<Rightarrow> SnowflakeGenerator \<Rightarrow> (string \<times> int list \<times> SnowflakeGenerator) option" where
  "GenerateConnectionID = GenerateWithPrefix ''conn''"
definition GenerateMessageID :: "int list \<Rightarrow> SnowflakeGenerator \<Rightarrow> (string \<times> int list \<times> SnowflakeGenerator) option" where
  "GenerateMessageID = GenerateWithPrefix ''msg''"
definition GenerateSessionID :: "int list \<Rightarrow> SnowflakeGenerator \<Rightarrow> (string \<times> int list \<times> SnowflakeGenerator) option" where
  "GenerateSessionID = GenerateWithPrefix ''sess''"
definition GenerateCommandID :: "int list \<Rightarrow> SnowflakeGenerator \<Rightarrow> (string \<times> int list \<times> SnowflakeGenerator) option" where
  "GenerateCommandID = GenerateWithPrefix ''cmd''"
definition GenerateServerID :: "int list \<Rightarrow> SnowflakeGenerator \<Rightarrow> (string \<times> int list \<times> SnowflakeGenerator) option" where
  "GenerateServerID = GenerateWithPrefix ''server''"
definition GenerateDeviceID :: "int list \<Rightarrow> SnowflakeGenerator \<Rightarrow> (string \<times> int list \<times> SnowflakeGenerator) option" where
  "GenerateDeviceID = GenerateWithPrefix ''dev''"
definition GenerateTraceID :: "int list \<Rightarrow> SnowflakeGenerator \<Rightarrow> (string \<times> int list \<times> SnowflakeGenerator) option" where
  "GenerateTraceID = GenerateWithPrefix ''trace''"
definition GenerateRequestID :: "int list \<Rightarrow> SnowflakeGenerator \<Rightarrow> (string \<times> int list \<times> SnowflakeGenerator) option" where
  "GenerateRequestID = GenerateWithPrefix ''req''"

text \<open>Hexadecimal printing with \<^verbatim>\<open>%x\<close>, and the version-4 identifier from sixteen random bytes.\<close>

definition hex_digit :: "nat \<Rightarrow> char" where
  "hex_digit n = (if n < 10 then char_of (48 + n) else char_of (87 + n))"

definition hex :: "bytes \<Rightarrow> string" where
  "hex bs = concat (map (\<lambda>b. [hex_digit (unat b div 16), hex_digit (unat b mod 16)]) bs)"

definition uuid_bytes :: "bytes \<Rightarrow> bytes" where
  "uuid_bytes rnd = rnd[6 := (rnd ! 6 AND 0x0F) OR 0x40, 8 := (rnd ! 8 AND 0x3F) OR 0x80]"

definition UUID_Generate :: "bytes \<Rightarrow> string" where
  "UUID_Generate rnd =
     (let b = uuid_bytes rnd in
      hex (take 4 b) @ ''-'' @ hex (take 2 (drop 4 b)) @ ''-'' @ hex (take 2 (drop 6 b)) @ ''-'' @
      hex (take 2 (drop 8 b)) @ ''-'' @ hex (take 6 (drop 10 b)))"

text \<open>The MD5 generator hashes the time and a random number, or the time twice when no randomness is available.\<close>

definition MD5_Generate :: "(bytes \<Rightarrow> bytes) \<Rightarrow> int option \<Rightarrow> int \<Rightarrow> int \<Rightarrow> string" where
  "MD5_Generate md5 rnd now1 now2 =
     (let randomValue = (case rnd of Some v \<Rightarrow> v | None \<Rightarrow> now1);
          data = show_int now2 @ ''-'' @ show_int randomValue
      in hex (md5 (to_bytes data)))"

record net_iface =
  if_Up :: bool
  if_Loopback :: bool
  if_HardwareAddr :: string

fun GetMacAddress_loop :: "net_iface list \<Rightarrow> string result" where
  "GetMacAddress_loop [] = Inl (Error ''no valid MAC address found'')"
| "GetMacAddress_loop (iface # interfaces) =
     (if \<not> if_Up iface \<or> if_Loopback iface then GetMacAddress_loop interfaces
      else if 0 < length (if_HardwareAddr iface) then Inr (if_HardwareAddr iface)
      else GetMacAddress_loop interfaces)"

definition GetMacAddress :: "net_iface list result \<Rightarrow> string result" where
  "GetMacAddress interfaces = bind_r interfaces GetMacAddress_loop"

definition GenerateNodeID :: "(bytes \<Rightarrow> bytes) \<Rightarrow> net_iface list result \<Rightarrow> int" where
  "GenerateNodeID md5 interfaces =
     (let mac = (case GetMacAddress interfaces of Inr a \<Rightarrow> a | Inl _ \<Rightarrow> ''00:00:00:00:00:00'');
          hash = md5 (to_bytes mac)
      in push_bit 8 (uint (hash ! 0)) OR uint (hash ! 1))"

section \<open>Lemmas\<close>

lemma waitNextMillis_Some: "waitNextMillis l clock = Some (t, clock') \<Longrightarrow> l < t \<and> t \<in> set clock \<and> set clock' \<subseteq> set clock"
  by (induction clock) (auto split: if_splits)

lemma waitNextMillis_returns: "\<exists>t \<in> set clock. l < t \<Longrightarrow> \<exists>t clock'. waitNextMillis l clock = Some (t, clock')"
  by (induction clock) auto

text \<open>The layout of an identifier: 41 bits of age, 10 of node, 12 of sequence.\<close>

lemma or_disjoint_int:
  fixes a b :: int
  assumes "0 \<le> b" "b < 2 ^ n"
  shows "(a * 2 ^ n) OR b = a * 2 ^ n + b"
proof -
  have "bit b k \<Longrightarrow> k < n" for k
    using assms by (metis bit_take_bit_iff take_bit_int_eq_self)
  then have "push_bit n a AND b = 0"
    by (intro bit_eqI) (fastforce simp: bit_simps)
  then show ?thesis by (simp add: disjunctive_add_eq_or [symmetric] push_bit_eq_mult)
qed

lemma snowflake_layout:
  assumes "0 \<le> age" "age < 2 ^ 41" "0 \<le> seq" "seq < 2 ^ 12"
  shows "snowflake_id age node seq = age * 2 ^ 22 + (node mod 1024) * 2 ^ 12 + seq"
proof -
  let ?n = "node mod 1024"
  have n: "0 \<le> ?n" "?n < 1024" by simp_all
  have node: "node AND 0x3FF = ?n"
    using take_bit_eq_mask [of 10 node] by (simp add: take_bit_eq_mod mask_eq_exp_minus_1)
  have "push_bit 22 age OR push_bit 12 ?n = (age * 2 ^ 10 + ?n) * 2 ^ 12"
    using or_disjoint_int [of "?n * 2 ^ 12" 22 age] n by (simp add: push_bit_eq_mult)
  then have num: "push_bit 22 age OR push_bit 12 ?n OR seq = age * 2 ^ 22 + ?n * 2 ^ 12 + seq"
    using or_disjoint_int [of seq 12 "age * 2 ^ 10 + ?n"] assms(3,4) by (simp add: or.assoc [symmetric])
  have "snowflake_id age node seq = sint (word_of_int (push_bit 22 age OR push_bit 12 (node AND 0x3FF) OR seq) :: 64 word)"
    by (simp add: snowflake_id_def of_int_or_eq of_int_and_eq push_bit_of_int)
  also have "\<dots> = signed_take_bit 63 (age * 2 ^ 22 + ?n * 2 ^ 12 + seq)"
    unfolding node num by (subst signed_of_int) simp
  also have "\<dots> = age * 2 ^ 22 + ?n * 2 ^ 12 + seq"
    using assms n by (intro signed_take_bit_int_eq_self) simp_all
  finally show ?thesis .
qed

text \<open>The number a generator issued last, and its invariant.\<close>

definition last_num :: "SnowflakeGenerator \<Rightarrow> int" where
  "last_num g = (sf_lastTime g - sf_epoch g) * 2 ^ 22 + (sf_nodeID g mod 1024) * 2 ^ 12 + sf_sequence g"

definition sf_wf :: "SnowflakeGenerator \<Rightarrow> bool" where
  "sf_wf g \<longleftrightarrow> 0 \<le> sf_sequence g \<and> sf_sequence g < 2 ^ 12"

definition in_era :: "SnowflakeGenerator \<Rightarrow> int \<Rightarrow> bool" where
  "in_era g t \<longleftrightarrow> sf_epoch g \<le> t \<and> t < sf_epoch g + 2 ^ 41"

lemma seq_mask: "0 \<le> (x :: int) \<Longrightarrow> x < 2 ^ 12 \<Longrightarrow> (x + 1) AND 0xFFF = (if x = 4095 then 0 else x + 1)"
proof -
  assume x: "0 \<le> x" "x < 2 ^ 12"
  have "(x + 1) AND 0xFFF = (x + 1) mod 2 ^ 12"
    using take_bit_eq_mask [of 12 "x + 1"] by (simp add: take_bit_eq_mod mask_eq_exp_minus_1)
  then show ?thesis using x by auto
qed

lemma Generate_num_step:
  assumes "Generate_num clock g = Some (v, clock', g')" "sf_wf g" "\<forall>t \<in> set clock. in_era g t"
  shows "v = last_num g' \<and> last_num g < v \<and> 0 \<le> v \<and> sf_wf g' \<and> set clock' \<subseteq> set clock \<and>
    sf_epoch g' = sf_epoch g \<and> sf_nodeID g' = sf_nodeID g \<and> in_era g (sf_lastTime g')
    \<or> sf_lastTime g \<ge> sf_epoch g + 2 ^ 41"
proof (cases "sf_lastTime g < sf_epoch g + 2 ^ 41")
  case era: True
  obtain reading clock1 where c: "clock = reading # clock1" using assms(1) by (cases clock) (auto simp: Generate_num_def)
  define now where "now = max reading (sf_lastTime g)"
  define q where "q = (if now = sf_lastTime g then (sf_sequence g + 1) AND 0xFFF else 0)"
  have seq: "0 \<le> sf_sequence g" "sf_sequence g < 2 ^ 12" using assms(2) by (simp_all add: sf_wf_def)
  have q: "0 \<le> q" "q < 2 ^ 12" "now = sf_lastTime g \<Longrightarrow> q \<noteq> 0 \<Longrightarrow> q = sf_sequence g + 1"
    using seq seq_mask [OF seq] by (auto simp: q_def split: if_splits)
  have now: "in_era g now" "sf_lastTime g \<le> now" using assms(3) era by (auto simp: c now_def in_era_def max_def)
  obtain time where time: "(if now = sf_lastTime g \<and> q = 0 then waitNextMillis (sf_lastTime g) clock1
        else Some (now, clock1)) = Some (time, clock')"
    and g': "g' = g\<lparr>sf_sequence := q, sf_lastTime := time\<rparr>"
    and v: "v = snowflake_id (time - sf_epoch g) (sf_nodeID g) q"
    using assms(1) by (auto simp: Generate_num_def c now_def q_def max_def Let_def split: option.splits if_splits)
  have rest: "set clock' \<subseteq> set clock" and t_era: "in_era g time"
    and later: "sf_lastTime g < time \<or> time = sf_lastTime g \<and> q = sf_sequence g + 1"
    using time now q(3) assms(3) waitNextMillis_Some [of "sf_lastTime g" clock1 time clock']
    by (auto simp: c split: if_splits)
  have vnum: "v = last_num g'"
    using t_era q by (simp add: v g' last_num_def in_era_def snowflake_layout)
  moreover have "last_num g < last_num g'"
    using later seq q by (auto simp: last_num_def g')
  moreover have "0 \<le> last_num g'" using t_era q by (simp add: last_num_def g' in_era_def)
  ultimately show ?thesis using q rest t_era by (simp add: sf_wf_def g')
qed simp

text \<open>A run of identifiers, each with its own prefix.\<close>

fun Generate_run :: "string list \<Rightarrow> int list \<Rightarrow> SnowflakeGenerator \<Rightarrow> (string list \<times> int list \<times> SnowflakeGenerator) option" where
  "Generate_run [] clock g = Some ([], clock, g)"
| "Generate_run (p # ps) clock g =
     (case GenerateWithPrefix p clock g of
        None \<Rightarrow> None
      | Some (x, clock1, g1) \<Rightarrow> map_option (\<lambda>(xs, r). (x # xs, r)) (Generate_run ps clock1 g1))"

definition issued :: "string \<Rightarrow> int \<Rightarrow> string" where
  "issued p v = p @ ''_'' @ show_int v"

lemma issued_inj: "0 \<le> v \<Longrightarrow> 0 \<le> w \<Longrightarrow> issued p v = issued p' w \<Longrightarrow> v = w"
proof -
  have tail: "rev (takeWhile (\<lambda>c. c \<noteq> CHR ''_'') (rev (issued p v))) = show_int v" if "0 \<le> v" for p v
  proof -
    have "CHR ''_'' \<notin> set (show_int v)"
      using that show_nat_digits [of "nat v"] by (auto simp: show_int_def list_all_iff is_digit_def)
    then have tw: "takeWhile (\<lambda>c. c \<noteq> CHR ''_'') (rev (show_int v)) = rev (show_int v)"
      by (subst takeWhile_eq_all_conv) auto
    have "takeWhile (\<lambda>c. c \<noteq> CHR ''_'') (rev (issued p v)) = takeWhile (\<lambda>c. c \<noteq> CHR ''_'') (rev (show_int v))"
      by (simp add: issued_def takeWhile_tail)
    then show ?thesis unfolding tw by simp
  qed
  assume "0 \<le> v" "0 \<le> w" "issued p v = issued p' w"
  then have "show_int v = show_int w" using tail [of v p] tail [of w p'] by simp
  then show "v = w" by (simp add: show_int_inj)
qed

lemma Generate_run_nums:
  assumes "Generate_run ps clock g = Some (xs, clock', g')" "sf_wf g" "\<forall>t \<in> set clock. in_era g t"
    and "sf_lastTime g < sf_epoch g + 2 ^ 41"
  shows "\<exists>vs. xs = map2 issued ps vs \<and> length vs = length ps \<and> sorted_wrt (<) vs \<and>
    (\<forall>v \<in> set vs. 0 \<le> v \<and> last_num g < v)"
  using assms
proof (induction ps arbitrary: clock g xs)
  case (Cons p ps)
  obtain v clock1 g1 where one: "Generate_num clock g = Some (v, clock1, g1)"
    using Cons.prems(1) by (auto simp: GenerateWithPrefix_def Generate_def split: option.splits)
  with Cons.prems(1) obtain ys where xs: "xs = issued p v # ys" and ys: "Generate_run ps clock1 g1 = Some (ys, clock', g')"
    by (auto simp: GenerateWithPrefix_def Generate_def issued_def split: option.splits)
  have st: "v = last_num g1" "last_num g < v" "0 \<le> v" "sf_wf g1" "set clock1 \<subseteq> set clock"
      "sf_epoch g1 = sf_epoch g" "in_era g (sf_lastTime g1)"
    using Generate_num_step [OF one Cons.prems(2,3)] Cons.prems(4) by auto
  have "\<forall>t \<in> set clock1. in_era g1 t" using Cons.prems(3) st(5,6) by (auto simp: in_era_def)
  then obtain vs where "ys = map2 issued ps vs" "length vs = length ps" "sorted_wrt (<) vs"
      "\<forall>w \<in> set vs. 0 \<le> w \<and> last_num g1 < w"
    using Cons.IH [OF ys st(4)] st(6,7) by (auto simp: in_era_def)
  then show ?case using xs st by (intro exI [of _ "v # vs"]) auto
qed simp

section \<open>Properties\<close>

text \<open>
  C9: All identifiers of one generator are different, for any number of calls, any prefixes and any
  clock readings, even when the clock goes back or stands still, while the clock is within 2^41
  milliseconds of 2024-01-01.
\<close>

theorem snowflake_unique:
  assumes "Generate_run ps clock (NewSnowflakeGenerator node) = Some (ids, clock', g')"
    and "\<forall>t \<in> set clock. 1704067200000 \<le> t \<and> t < 1704067200000 + 2 ^ 41"
  shows "length ids = length ps \<and> distinct ids"
proof -
  have "sf_wf (NewSnowflakeGenerator node)" "\<forall>t \<in> set clock. in_era (NewSnowflakeGenerator node) t"
    "sf_lastTime (NewSnowflakeGenerator node) < sf_epoch (NewSnowflakeGenerator node) + 2 ^ 41"
    using assms(2) by (simp_all add: sf_wf_def in_era_def NewSnowflakeGenerator_def)
  from Generate_run_nums [OF assms(1) this] obtain vs where
    vs: "ids = map2 issued ps vs" "length vs = length ps" "sorted_wrt (<) vs" "\<forall>v \<in> set vs. 0 \<le> v" by blast
  have "distinct ids" unfolding distinct_conv_nth
  proof (intro allI impI)
    fix i j assume ij: "i < length ids" "j < length ids" "i \<noteq> j"
    have "vs ! i \<noteq> vs ! j"
      using ij vs by (metis length_map length_zip min.idem nat_neq_iff order_less_irrefl sorted_wrt_iff_nth_less)
    then show "ids ! i \<noteq> ids ! j"
      using ij vs issued_inj [of "vs ! i" "vs ! j" "ps ! i" "ps ! j"] by auto
  qed
  then show ?thesis using vs by simp
qed

theorem snowflake_unique_witness:
  "\<exists>ids c g. Generate_run [''cmd'', ''conn'', ''cmd''] [1704067200005, 1704067200003, 1704067200005] (NewSnowflakeGenerator 7)
      = Some (ids, c, g) \<and> distinct ids"
proof -
  have "\<exists>r. Generate_run [''cmd'', ''conn'', ''cmd''] [1704067200005, 1704067200003, 1704067200005] (NewSnowflakeGenerator 7) = Some r"
    by (simp add: GenerateWithPrefix_def Generate_def Generate_num_def NewSnowflakeGenerator_def)
  then obtain ids c g where r: "Generate_run [''cmd'', ''conn'', ''cmd''] [1704067200005, 1704067200003, 1704067200005]
      (NewSnowflakeGenerator 7) = Some (ids, c, g)" by (metis prod_cases3)
  have "distinct ids" using snowflake_unique [OF r] by simp
  with r show ?thesis by blast
qed

text \<open>
  C27: A call returns as soon as one of the readings after the first is later than the last issued
  time, and the number it issues is the age in the high bits, the node modulo 1024 and the sequence.
\<close>

theorem snowflake_returns_layout:
  assumes "sf_wf g" "\<forall>t \<in> set (reading # clock). in_era g t" "sf_lastTime g < sf_epoch g + 2 ^ 41"
    and "\<exists>t \<in> set clock. sf_lastTime g < t"
  shows "\<exists>clock' g'. Generate (reading # clock) g =
     Some (show_int ((sf_lastTime g' - sf_epoch g) * 2 ^ 22 + sf_nodeID g mod 1024 * 2 ^ 12 + sf_sequence g'), clock', g')
     \<and> max reading (sf_lastTime g) \<le> sf_lastTime g' \<and> sf_wf g'"
proof -
  have "\<exists>r. Generate_num (reading # clock) g = Some r"
    using waitNextMillis_returns [OF assms(4)] by (auto simp: Generate_num_def Let_def)
  then obtain v clock' g' where r: "Generate_num (reading # clock) g = Some (v, clock', g')" by (metis prod_cases3)
  have "max reading (sf_lastTime g) \<le> sf_lastTime g'"
    using r waitNextMillis_Some [of "sf_lastTime g" clock]
    by (fastforce simp: Generate_num_def Let_def max_def split: option.splits if_splits)
  then show ?thesis
    using Generate_num_step [OF r assms(1,2)] assms(3) by (auto simp: Generate_def r last_num_def)
qed

theorem snowflake_returns_layout_witness:
  "\<exists>clock' g'. Generate [1704067200001, 1704067200002] (NewSnowflakeGenerator 7) =
     Some (show_int ((sf_lastTime g' - 1704067200000) * 2 ^ 22 + 7 * 2 ^ 12 + sf_sequence g'), clock', g')"
  using snowflake_returns_layout [of "NewSnowflakeGenerator 7" 1704067200001 "[1704067200002]"]
  by (auto simp: sf_wf_def in_era_def NewSnowflakeGenerator_def)

end
