(* ===== verification/RateLimit.thy ===== *)
theory RateLimit
  imports Prelude Floats
begin

text \<open>
  \<^verbatim>\<open>internal/ratelimit/ratelimit.go\<close>: the token bucket and the three limiters built on it.  Times
  are nanoseconds of the monotonic clock; \<^verbatim>\<open>float64\<close> values are rationals and every arithmetic
  operation of the code rounds to 53 bits with \<open>fl 53\<close>.  The configured rates are integers, so a
  rate or burst is the rounding of an integer.
\<close>

section \<open>Definitions\<close>

record TokenBucket =
  tb_rate :: rat
  tb_burst :: rat
  tb_tokens :: rat
  tb_last :: int

definition NewTokenBucket :: "int \<Rightarrow> rat \<Rightarrow> rat \<Rightarrow> TokenBucket" where
  "NewTokenBucket now rate burst0 =
     (let burst = (if burst0 \<le> 0 then rate else burst0)
      in \<lparr>tb_rate = rate, tb_burst = burst, tb_tokens = burst, tb_last = now\<rparr>)"

text \<open>\<^verbatim>\<open>Duration.Seconds\<close>: whole seconds plus the fraction, both as \<^verbatim>\<open>float64\<close>.\<close>

definition Seconds :: "int \<Rightarrow> rat" where
  "Seconds d = fl 53 (fl 53 (of_int (d div second)) + fl 53 (of_int (d mod second) / 1000000000))"

definition refill :: "int \<Rightarrow> TokenBucket \<Rightarrow> TokenBucket" where
  "refill now t =
     (let elapsed = Seconds (now - tb_last t);
          tokens = fl 53 (tb_tokens t + fl 53 (elapsed * tb_rate t))
      in t\<lparr>tb_last := now, tb_tokens := (if tb_burst t < tokens then tb_burst t else tokens)\<rparr>)"

definition AllowN :: "int \<Rightarrow> rat \<Rightarrow> TokenBucket \<Rightarrow> bool \<times> TokenBucket" where
  "AllowN now n t0 =
     (let t = refill now t0 in
      if n \<le> tb_tokens t then (True, t\<lparr>tb_tokens := fl 53 (tb_tokens t - n)\<rparr>) else (False, t))"

definition Allow :: "int \<Rightarrow> TokenBucket \<Rightarrow> bool \<times> TokenBucket" where
  "Allow now t0 =
     (let t = refill now t0 in
      if 1 \<le> tb_tokens t then (True, t\<lparr>tb_tokens := fl 53 (tb_tokens t - 1)\<rparr>) else (False, t))"

record ConnectLimiter =
  cl_Enabled :: bool
  cl_bucket :: TokenBucket
  cl_Accepted :: int
  cl_Rejected :: int

definition NewConnectLimiter :: "int \<Rightarrow> int \<Rightarrow> int \<Rightarrow> bool \<Rightarrow> ConnectLimiter" where
  "NewConnectLimiter now rate burst enabled =
     \<lparr>cl_Enabled = enabled, cl_bucket = NewTokenBucket now (fl 53 (of_int rate)) (fl 53 (of_int burst)),
      cl_Accepted = 0, cl_Rejected = 0\<rparr>"

definition ConnectLimiter_Allow :: "int \<Rightarrow> ConnectLimiter \<Rightarrow> bool \<times> ConnectLimiter" where
  "ConnectLimiter_Allow now l =
     (if \<not> cl_Enabled l then (True, l\<lparr>cl_Accepted := cl_Accepted l + 1\<rparr>)
      else (let (ok, b) = Allow now (cl_bucket l) in
        if ok then (True, l\<lparr>cl_bucket := b, cl_Accepted := cl_Accepted l + 1\<rparr>)
        else (False, l\<lparr>cl_bucket := b, cl_Rejected := cl_Rejected l + 1\<rparr>)))"

definition ConnectLimiter_Stats :: "ConnectLimiter \<Rightarrow> int \<times> int" where
  "ConnectLimiter_Stats l = (cl_Accepted l, cl_Rejected l)"

record IPLimiter =
  ip_Enabled :: bool
  ip_rate :: rat
  ip_burst :: rat
  ip_buckets :: "string \<rightharpoonup> TokenBucket"
  ip_CleanupInterval :: int

definition NewIPLimiter :: "int \<Rightarrow> int \<Rightarrow> bool \<Rightarrow> IPLimiter" where
  "NewIPLimiter rate burst enabled =
     \<lparr>ip_Enabled = enabled, ip_rate = fl 53 (of_int rate), ip_burst = fl 53 (of_int burst),
      ip_buckets = Map.empty, ip_CleanupInterval = 300 * second\<rparr>"

definition IPLimiter_Allow :: "int \<Rightarrow> string \<Rightarrow> IPLimiter \<Rightarrow> bool \<times> IPLimiter" where
  "IPLimiter_Allow now ip l =
     (if \<not> ip_Enabled l then (True, l)
      else (let b = (case ip_buckets l ip of Some b \<Rightarrow> b | None \<Rightarrow> NewTokenBucket now (ip_rate l) (ip_burst l));
                (ok, b') = Allow now b
            in (ok, l\<lparr>ip_buckets := (ip_buckets l)(ip \<mapsto> b')\<rparr>)))"

text \<open>Deleting map entries inside the loop over the map: the order makes no difference.\<close>

definition Cleanup :: "int \<Rightarrow> IPLimiter \<Rightarrow> IPLimiter" where
  "Cleanup now l = l\<lparr>ip_buckets := (\<lambda>ip. case ip_buckets l ip of
       None \<Rightarrow> None
     | Some b \<Rightarrow> if ip_CleanupInterval l < now - tb_last b then None else Some b)\<rparr>"

record AcceptLimiter =
  al_Enabled :: bool
  al_bucket :: TokenBucket
  al_Rejected :: int

definition NewAcceptLimiter :: "int \<Rightarrow> int \<Rightarrow> bool \<Rightarrow> AcceptLimiter" where
  "NewAcceptLimiter now rate enabled =
     \<lparr>al_Enabled = enabled, al_bucket = NewTokenBucket now (fl 53 (of_int rate)) (fl 53 (of_int rate)), al_Rejected = 0\<rparr>"

definition AcceptLimiter_Allow :: "int \<Rightarrow> AcceptLimiter \<Rightarrow> bool \<times> AcceptLimiter" where
  "AcceptLimiter_Allow now l =
     (if \<not> al_Enabled l then (True, l)
      else (let (ok, b) = Allow now (al_bucket l) in
        if ok then (True, l\<lparr>al_bucket := b\<rparr>)
        else (False, l\<lparr>al_bucket := b, al_Rejected := al_Rejected l + 1\<rparr>)))"

definition RejectedCount :: "AcceptLimiter \<Rightarrow> int" where
  "RejectedCount l = al_Rejected l"

section \<open>Lemmas\<close>

text \<open>The rounding unit of \<^verbatim>\<open>float64\<close>, and exact seconds.\<close>

definition eps :: rat where "eps = 1 / 2 ^ 53"

definition secs :: "int \<Rightarrow> rat" where "secs d = of_int d / 1000000000"

lemma eps_nonneg [simp]: "0 \<le> eps" "0 \<le> 1 + eps" and eps_inverse: "2 ^ 53 * eps = 1"
  by (simp_all add: eps_def)

lemma secs_add: "secs (a + b) = secs a + secs b"
  by (simp add: secs_def add_divide_distrib)

lemma secs_nonneg [simp]: "0 \<le> d \<Longrightarrow> 0 \<le> secs d"
  by (simp add: secs_def)

lemma fl_le: "0 \<le> x \<Longrightarrow> fl 53 x \<le> x * (1 + eps)"
proof -
  assume "0 \<le> x"
  then have "fl 53 x - x \<le> x * eps"
    using order_trans [OF abs_ge_self fl_error [of 53 x]] by (simp add: eps_def)
  then show ?thesis by (simp add: algebra_simps)
qed

definition bucket_ok :: "TokenBucket \<Rightarrow> bool" where
  "bucket_ok t \<longleftrightarrow> 0 \<le> tb_rate t \<and> 0 \<le> tb_tokens t \<and> tb_tokens t \<le> tb_burst t \<and> tb_burst t \<le> 2 ^ 53"

lemma Seconds_0 [simp]: "Seconds 0 = 0"
  by (simp add: Seconds_def)

lemma Seconds_bounds:
  assumes "0 \<le> d"
  shows "0 \<le> Seconds d \<and> Seconds d \<le> secs d * (1 + eps) ^ 2"
proof -
  define a where "a = (of_int (d div second) :: rat)"
  define b where "b = (of_int (d mod second) / 1000000000 :: rat)"
  have nonneg: "0 \<le> a" "0 \<le> b" using assms by (simp_all add: a_def b_def pos_imp_zdiv_nonneg_iff)
  have "(of_int d :: rat) = of_int (d div second * second + d mod second)" by simp
  then have d: "secs d = a + b"
    unfolding secs_def a_def b_def of_int_add of_int_mult by (simp add: field_simps)
  have sum: "fl 53 a + fl 53 b \<le> (a + b) * (1 + eps)"
    using fl_le [OF nonneg(1)] fl_le [OF nonneg(2)] by (simp add: algebra_simps)
  have pos: "0 \<le> fl 53 a + fl 53 b" using nonneg by (simp add: fl_nonneg)
  have "fl 53 (fl 53 a + fl 53 b) \<le> (fl 53 a + fl 53 b) * (1 + eps)" by (rule fl_le [OF pos])
  also have "\<dots> \<le> (a + b) * (1 + eps) * (1 + eps)" by (rule mult_right_mono [OF sum eps_nonneg(2)])
  finally show ?thesis
    using fl_nonneg [OF pos] by (simp add: Seconds_def a_def [symmetric] b_def [symmetric] d power2_eq_square mult.assoc)
qed

lemma refill_ok:
  assumes "bucket_ok t" "tb_last t \<le> now"
  shows "bucket_ok (refill now t) \<and> tb_rate (refill now t) = tb_rate t \<and> tb_burst (refill now t) = tb_burst t \<and>
    tb_last (refill now t) = now \<and>
    tb_tokens (refill now t) \<le>
      tb_tokens t + tb_burst t * eps + secs (now - tb_last t) * tb_rate t * (1 + eps) ^ 4"
proof -
  define D where "D = secs (now - tb_last t)"
  define e where "e = Seconds (now - tb_last t)"
  define x where "x = fl 53 (e * tb_rate t)"
  have D: "0 \<le> D" using assms(2) by (simp add: D_def)
  have e: "0 \<le> e" "e \<le> D * (1 + eps) ^ 2"
    using Seconds_bounds [of "now - tb_last t"] assms(2) by (simp_all add: e_def D_def)
  have r: "0 \<le> tb_rate t" and tok: "0 \<le> tb_tokens t" "tb_tokens t \<le> tb_burst t" "tb_burst t \<le> 2 ^ 53"
    using assms(1) by (simp_all add: bucket_ok_def)
  have x0: "0 \<le> x" using e r by (simp add: x_def fl_nonneg)
  have "x \<le> e * tb_rate t * (1 + eps)" unfolding x_def using e r by (intro fl_le) simp
  also have "\<dots> \<le> D * (1 + eps) ^ 2 * tb_rate t * (1 + eps)"
    using e r by (intro mult_right_mono) simp_all
  finally have x: "x \<le> D * tb_rate t * (1 + eps) ^ 3" by (simp add: power2_eq_square power3_eq_cube mult_ac)
  have "fl 53 (tb_tokens t + x) \<le> (tb_tokens t + x) * (1 + eps)" using tok x0 by (intro fl_le) simp
  also have "\<dots> = tb_tokens t + tb_tokens t * eps + x * (1 + eps)" by (simp add: algebra_simps)
  also have "\<dots> \<le> tb_tokens t + tb_burst t * eps + D * tb_rate t * (1 + eps) ^ 3 * (1 + eps)"
    using tok x by (intro add_mono mult_right_mono order_refl) simp_all
  finally have up: "fl 53 (tb_tokens t + x) \<le> tb_tokens t + tb_burst t * eps + D * tb_rate t * (1 + eps) ^ 4"
    by (simp add: power3_eq_cube power4_eq_xxxx mult_ac)
  have "0 \<le> fl 53 (tb_tokens t + x)" using tok x0 by (simp add: fl_nonneg)
  then show ?thesis using up tok r
    by (simp add: refill_def Let_def bucket_ok_def e_def [symmetric] x_def [symmetric] D_def [symmetric])
qed

text \<open>One call: the invariant stays, and what is admitted is paid for by the tokens and the refill.\<close>

lemma Allow_ok:
  assumes "bucket_ok t" "tb_last t \<le> now" "Allow now t = (ok, t')"
  shows "bucket_ok t' \<and> tb_rate t' = tb_rate t \<and> tb_burst t' = tb_burst t \<and> tb_last t' = now \<and>
    tb_tokens t' + of_bool ok \<le>
      tb_tokens t + 2 * tb_burst t * eps + secs (now - tb_last t) * tb_rate t * (1 + eps) ^ 4"
proof -
  note re = refill_ok [OF assms(1,2)]
  define x where "x = tb_tokens (refill now t)"
  have burst: "0 \<le> tb_burst t" "tb_burst t \<le> 2 ^ 53" using assms(1) by (auto simp: bucket_ok_def)
  show ?thesis
  proof (cases "1 \<le> x")
    case False
    have "0 \<le> tb_burst t * eps" using burst by simp
    then have "tb_tokens (refill now t) \<le>
        tb_tokens t + 2 * tb_burst t * eps + secs (now - tb_last t) * tb_rate t * (1 + eps) ^ 4"
      using re by linarith
    then show ?thesis using False re assms(3) by (auto simp: Allow_def Let_def x_def)
  next
    case True
    have xb: "x \<le> tb_burst t" using re by (simp add: x_def bucket_ok_def)
    have "fl 53 (x - 1) \<le> (x - 1) * (1 + eps)" using True by (intro fl_le) simp
    moreover have "(x - 1) * eps \<le> tb_burst t * eps" using xb by (intro mult_right_mono) simp_all
    moreover have "tb_burst t * eps \<le> 1" using mult_right_mono [OF burst(2) eps_nonneg(1)] unfolding eps_inverse .
    moreover have "(x - 1) * (1 + eps) = x - 1 + (x - 1) * eps" by (simp add: algebra_simps)
    ultimately have up: "fl 53 (x - 1) \<le> x - 1 + tb_burst t * eps" "fl 53 (x - 1) \<le> x" by linarith+
    have "0 \<le> fl 53 (x - 1)" using True by (simp add: fl_nonneg)
    then show ?thesis using True re up xb assms(3)
      by (auto simp: Allow_def Let_def x_def bucket_ok_def)
  qed
qed

text \<open>A run of calls at given times, with the decisions.\<close>

fun Allow_run :: "int list \<Rightarrow> TokenBucket \<Rightarrow> bool list \<times> TokenBucket" where
  "Allow_run [] t = ([], t)"
| "Allow_run (now # ts) t = (let (ok, t1) = Allow now t; (oks, t2) = Allow_run ts t1 in (ok # oks, t2))"

fun clock_from :: "int \<Rightarrow> int list \<Rightarrow> bool" where
  "clock_from t [] = True"
| "clock_from t (x # xs) = (t \<le> x \<and> clock_from x xs)"

definition admitted :: "bool list \<Rightarrow> nat" where
  "admitted oks = length (filter id oks)"

lemma Allow_run_bound:
  assumes "bucket_ok t" "clock_from (tb_last t) ts" "Allow_run ts t = (oks, t')"
  shows "bucket_ok t' \<and> tb_burst t' = tb_burst t \<and> of_nat (admitted oks) + tb_tokens t' \<le>
    tb_tokens t + of_nat (length ts) * (2 * tb_burst t * eps) +
    secs (last (tb_last t # ts) - tb_last t) * tb_rate t * (1 + eps) ^ 4"
  using assms
proof (induction ts arbitrary: t oks)
  case (Cons now ts)
  obtain ok t1 where one: "Allow now t = (ok, t1)" by fastforce
  obtain oks1 where rest: "Allow_run ts t1 = (oks1, t')" and oks: "oks = ok # oks1"
    using Cons.prems(3) one by (auto split: prod.splits)
  have a: "bucket_ok t1" "tb_rate t1 = tb_rate t" "tb_burst t1 = tb_burst t" "tb_last t1 = now"
    and pay: "tb_tokens t1 + of_bool ok \<le>
      tb_tokens t + 2 * tb_burst t * eps + secs (now - tb_last t) * tb_rate t * (1 + eps) ^ 4"
    using Allow_ok [OF Cons.prems(1) _ one] Cons.prems(2) by auto
  have ih: "bucket_ok t' \<and> tb_burst t' = tb_burst t1 \<and> of_nat (admitted oks1) + tb_tokens t' \<le>
      tb_tokens t1 + of_nat (length ts) * (2 * tb_burst t * eps) +
      secs (last (now # ts) - now) * tb_rate t * (1 + eps) ^ 4"
    using Cons.IH [OF a(1) _ rest] Cons.prems(2) a by simp
  have split: "secs (last (now # ts) - tb_last t) = secs (last (now # ts) - now) + secs (now - tb_last t)"
    by (simp flip: secs_add)
  have "of_nat (admitted oks) = of_bool ok + (of_nat (admitted oks1) :: rat)"
    by (simp add: admitted_def oks)
  moreover have "of_nat (length (now # ts)) * (2 * tb_burst t * eps) =
      of_nat (length ts) * (2 * tb_burst t * eps) + 2 * tb_burst t * eps"
    by (simp add: algebra_simps)
  moreover have "secs (last (tb_last t # now # ts) - tb_last t) * tb_rate t * (1 + eps) ^ 4 =
      secs (last (now # ts) - now) * tb_rate t * (1 + eps) ^ 4 + secs (now - tb_last t) * tb_rate t * (1 + eps) ^ 4"
    using split by (simp add: distrib_right split del: if_split)
  ultimately have "of_nat (admitted oks) + tb_tokens t' \<le>
      tb_tokens t + of_nat (length (now # ts)) * (2 * tb_burst t * eps) +
      secs (last (tb_last t # now # ts) - tb_last t) * tb_rate t * (1 + eps) ^ 4"
    using ih pay by linarith
  then show ?case using ih a(3) by simp
qed (simp add: admitted_def secs_def)

text \<open>At one instant nothing is refilled, and whole tokens are counted without rounding.\<close>

lemma Allow_instant:
  assumes "tb_last t = now" "tb_tokens t = of_nat k" "k < 2 ^ 53" "of_nat k \<le> tb_burst t"
  shows "Allow now t = (0 < k, t\<lparr>tb_tokens := of_nat (k - 1)\<rparr>)"
proof -
  have "refill now t = t"
    using assms fl_nat [OF assms(3)] by (simp add: refill_def Let_def)
  moreover have "fl 53 (of_nat k - 1) = of_nat (k - 1)" if "0 < k"
    using that assms(3) fl_nat [of "k - 1" 53] by (simp add: of_nat_diff)
  ultimately show ?thesis using assms(2) by (cases "k = 0") (simp_all add: Allow_def Let_def)
qed

lemma Allow_run_instant:
  assumes "tb_last t = now" "tb_tokens t = of_nat k" "k < 2 ^ 53" "of_nat k \<le> tb_burst t"
  shows "fst (Allow_run (replicate n now) t) = replicate (min n k) True @ replicate (n - k) False"
  using assms
proof (induction n arbitrary: t k)
  case (Suc n)
  show ?case
  proof (cases k)
    case 0
    have "t\<lparr>tb_tokens := 0\<rparr> = t" using Suc.prems(2) 0 by simp
    then have "Allow now t = (False, t)" using Allow_instant [OF Suc.prems] unfolding 0 by simp
    then show ?thesis using 0 Suc.IH [of t 0] Suc.prems by (simp add: split_beta Let_def)
  next
    case (Suc k')
    have "fst (Allow_run (replicate n now) (t\<lparr>tb_tokens := of_nat k'\<rparr>)) =
        replicate (min n k') True @ replicate (n - k') False"
      using Suc Suc.IH [of "t\<lparr>tb_tokens := of_nat k'\<rparr>" k'] Suc.prems by simp
    then show ?thesis using Suc Allow_instant [OF Suc.prems] by (simp add: split_beta Let_def)
  qed
qed simp

text \<open>Requests from several sources, with the decisions of one source.\<close>

fun IP_run :: "(int \<times> string) list \<Rightarrow> IPLimiter \<Rightarrow> (string \<times> bool) list" where
  "IP_run [] l = []"
| "IP_run ((now, ip) # rs) l = (let (ok, l') = IPLimiter_Allow now ip l in (ip, ok) # IP_run rs l')"

definition same_for :: "string \<Rightarrow> IPLimiter \<Rightarrow> IPLimiter \<Rightarrow> bool" where
  "same_for ip l l' \<longleftrightarrow> ip_Enabled l = ip_Enabled l' \<and> ip_rate l = ip_rate l' \<and> ip_burst l = ip_burst l' \<and>
     ip_buckets l ip = ip_buckets l' ip"

lemma same_for_step:
  assumes "same_for ip l l'"
  shows "fst (IPLimiter_Allow now ip l) = fst (IPLimiter_Allow now ip l') \<and>
     same_for ip (snd (IPLimiter_Allow now ip l)) (snd (IPLimiter_Allow now ip l'))"
    and "other \<noteq> ip \<Longrightarrow> same_for ip (snd (IPLimiter_Allow now other l)) l'"
  using assms by (cases "ip_buckets l' ip"; auto simp: same_for_def IPLimiter_Allow_def Let_def split_beta)+

lemma IP_run_isolated:
  "same_for ip l l' \<Longrightarrow>
     filter (\<lambda>(i, _). i = ip) (IP_run rs l) = IP_run (filter (\<lambda>(_, i). i = ip) rs) l'"
proof (induction rs arbitrary: l l')
  case (Cons r rs)
  obtain now i where r: "r = (now, i)" by fastforce
  show ?case
  proof (cases "i = ip")
    case True
    then show ?thesis using Cons.IH [of "snd (IPLimiter_Allow now ip l)" "snd (IPLimiter_Allow now ip l')"]
        same_for_step(1) [OF Cons.prems, of now] by (simp add: r split_beta Let_def)
  next
    case False
    then show ?thesis using Cons.IH [OF same_for_step(2) [OF Cons.prems False, of now]]
      by (simp add: r split_beta Let_def)
  qed
qed simp

section \<open>Properties\<close>



text \<open>
  A fresh connect limiter with an integer burst admits, among any number of handshakes at one
  instant, exactly the first burst-many and no more.
\<close>

theorem burst_at_one_instant:
  assumes "0 < burst" "burst < 2 ^ 53"
  shows "fst (Allow_run (replicate n now) (cl_bucket (NewConnectLimiter now rate (int burst) True))) =
    replicate (min n burst) True @ replicate (n - burst) False"
proof (rule Allow_run_instant)
  have "fl 53 (of_int (int burst)) = of_nat burst" using fl_nat [OF assms(2)] by simp
  then show "tb_tokens (cl_bucket (NewConnectLimiter now rate (int burst) True)) = of_nat burst"
    and "of_nat burst \<le> tb_burst (cl_bucket (NewConnectLimiter now rate (int burst) True))"
    using assms(1) by (simp_all add: NewConnectLimiter_def NewTokenBucket_def Let_def)
qed (use assms(2) in \<open>simp_all add: NewConnectLimiter_def NewTokenBucket_def Let_def\<close>)

theorem burst_at_one_instant_witness:
  "fst (Allow_run (replicate 3 7) (cl_bucket (NewConnectLimiter 7 100 (int 2) True))) = [True, True, False]"
  by (subst burst_at_one_instant) (simp, simp, simp add: numeral_2_eq_2 numeral_3_eq_3)

text \<open>
  The decisions for one source address are the decisions it would get if no other source sent
  anything: no flood from other addresses can starve it or help it.
\<close>

theorem ip_limiter_isolates_sources:
  "filter (\<lambda>(i, _). i = ip) (IP_run rs l) = IP_run (filter (\<lambda>(_, i). i = ip) rs) l"
  by (rule IP_run_isolated) (simp add: same_for_def)

end
