(* ===== verification/Auth.thy ===== *)
theory Auth
  imports Config Ids
begin

text \<open>
  Credentials: the pre-shared keys of devices (\<^verbatim>\<open>internal/security/dtls.go\<close>, \<^verbatim>\<open>internal/auth/psk.go\<close> and
  the key handling of \<^verbatim>\<open>internal/gateway/iot/server.go\<close>) and the tokens of users
  (\<^verbatim>\<open>internal/auth/jwt.go\<close>).  SHA-256, the PEM and key parsers and the token library are arguments.
  Instants are nanoseconds; the dates inside a token are whole seconds, as the library truncates them.
\<close>

section \<open>Pre-shared keys\<close>

record PSKStore =
  keys :: "string \<rightharpoonup> bytes"
  hints :: "string \<rightharpoonup> bytes"

definition NewPSKStore :: PSKStore where
  "NewPSKStore = \<lparr>keys = Map.empty, hints = Map.empty\<rparr>"

definition AddPSK :: "string \<Rightarrow> bytes \<Rightarrow> bytes \<Rightarrow> PSKStore \<Rightarrow> unit result \<times> PSKStore" where
  "AddPSK deviceID psk hint s =
     (if length psk < 16 then (Inl (Error ''PSK must be at least 16 bytes''), s)
      else (Inr (), s\<lparr>keys := (keys s)(deviceID \<mapsto> psk), hints := (hints s)(deviceID \<mapsto> hint)\<rparr>))"

definition GetPSK :: "string \<Rightarrow> PSKStore \<Rightarrow> bytes option" where
  "GetPSK deviceID s = keys s deviceID"

definition GetHint :: "string \<Rightarrow> PSKStore \<Rightarrow> bytes option" where
  "GetHint deviceID s = hints s deviceID"

definition RemovePSK :: "string \<Rightarrow> PSKStore \<Rightarrow> PSKStore" where
  "RemovePSK deviceID s = s\<lparr>keys := (keys s)(deviceID := None), hints := (hints s)(deviceID := None)\<rparr>"

definition GeneratePSK :: "int \<Rightarrow> bytes result \<Rightarrow> bytes result" where
  "GeneratePSK len rnd =
     (if len < 16 \<or> len > 64 then Inl (Error ''PSK length must be between 16 and 64 bytes'')
      else (case rnd of Inl e \<Rightarrow> Inl (wrap_error ''failed to generate PSK: '' e) | Inr psk \<Rightarrow> Inr psk))"

definition derivePSK :: "(bytes \<Rightarrow> bytes) \<Rightarrow> string \<Rightarrow> bytes" where
  "derivePSK sha256 psk = (if 16 \<le> length psk then to_bytes psk else sha256 (to_bytes psk))"

text \<open>The keys the IoT server starts with, and its DTLS key callback.\<close>

fun load_psks :: "(bytes \<Rightarrow> bytes) \<Rightarrow> (string \<rightharpoonup> string) \<Rightarrow> string list \<Rightarrow> PSKStore \<Rightarrow> PSKStore" where
  "load_psks sha256 devs [] s = s"
| "load_psks sha256 devs (deviceID # order) s =
     (case devs deviceID of
        Some psk \<Rightarrow> load_psks sha256 devs order (snd (AddPSK deviceID (derivePSK sha256 psk) (to_bytes deviceID) s))
      | None \<Rightarrow> load_psks sha256 devs order s)"

definition default_psk :: "(bytes \<Rightarrow> bytes) \<Rightarrow> IoTConfig \<Rightarrow> bytes option" where
  "default_psk sha256 cfg = (if iot_PSK cfg \<noteq> [] then Some (derivePSK sha256 (iot_PSK cfg)) else None)"

definition psk_callback :: "PSKStore \<Rightarrow> bytes option \<Rightarrow> bytes \<Rightarrow> bytes result" where
  "psk_callback s defaultPSK hint =
     (let deviceID = to_string hint in
      case GetPSK deviceID s of
        Some psk \<Rightarrow> Inr psk
      | None \<Rightarrow> (case defaultPSK of Some psk \<Rightarrow> Inr psk
                 | None \<Rightarrow> Inl (Error (''PSK not found for device: '' @ deviceID))))"

record PSKDevice =
  pd_DeviceID :: string
  pd_PSK :: string
  pd_CreatedAt :: int
  pd_UpdatedAt :: int
  pd_Active :: bool

type_synonym PSKManager = "string \<rightharpoonup> PSKDevice"

definition RegisterDevice :: "int \<Rightarrow> string \<Rightarrow> string \<Rightarrow> PSKManager \<Rightarrow> unit result \<times> PSKManager" where
  "RegisterDevice now deviceID psk m =
     (Inr (), m(deviceID \<mapsto> \<lparr>pd_DeviceID = deviceID, pd_PSK = psk, pd_CreatedAt = now, pd_UpdatedAt = now, pd_Active = True\<rparr>))"

definition hashPSK :: "(bytes \<Rightarrow> bytes) \<Rightarrow> string \<Rightarrow> string" where
  "hashPSK sha256 psk = hex (sha256 (to_bytes psk))"

definition ValidateDevice :: "(bytes \<Rightarrow> bytes) \<Rightarrow> string \<Rightarrow> string \<Rightarrow> PSKManager \<Rightarrow> bool" where
  "ValidateDevice sha256 deviceID pskHash m =
     (case m deviceID of
        None \<Rightarrow> False
      | Some dev \<Rightarrow> if \<not> pd_Active dev then False else pskHash = hashPSK sha256 (pd_PSK dev))"

definition PSKManager_GetPSK :: "string \<Rightarrow> PSKManager \<Rightarrow> string option" where
  "PSKManager_GetPSK deviceID m =
     (case m deviceID of None \<Rightarrow> None | Some dev \<Rightarrow> if \<not> pd_Active dev then None else Some (pd_PSK dev))"

fun InitPSKDevices :: "int \<Rightarrow> (string \<rightharpoonup> string) \<Rightarrow> string list \<Rightarrow> PSKManager \<Rightarrow> PSKManager" where
  "InitPSKDevices now devs [] m = m"
| "InitPSKDevices now devs (deviceID # order) m =
     (case devs deviceID of
        Some psk \<Rightarrow> InitPSKDevices now devs order (snd (RegisterDevice now deviceID psk m))
      | None \<Rightarrow> InitPSKDevices now devs order m)"

definition ValidatePSKDevice :: "string \<Rightarrow> PSKManager \<Rightarrow> bool" where
  "ValidatePSKDevice deviceID m = (PSKManager_GetPSK deviceID m \<noteq> None)"

section \<open>Tokens\<close>

record ('priv, 'pub) JWTManager =
  jm_privateKey :: 'priv
  jm_publicKey :: 'pub
  jm_issuer :: string
  jm_ttl :: int

record Claims =
  cl_UserID :: string
  cl_DeviceID :: string
  cl_Issuer :: string
  cl_Subject :: string
  cl_Audience :: "string list"
  cl_IssuedAt :: "int option"
  cl_ExpiresAt :: "int option"
  cl_NotBefore :: "int option"
  cl_ID :: string

text \<open>
  The token library: signing, and parsing with a callback that is asked for the key once the
  header is known (its algorithm, and whether it is an RSA method); a parsed token carries its
  claims and whether it is valid.
\<close>

record ('priv, 'pub) jwt_lib =
  SignedString :: "'priv \<Rightarrow> Claims \<Rightarrow> string result"
  ParseWithClaims :: "(string \<Rightarrow> bool \<Rightarrow> 'pub result) \<Rightarrow> int \<Rightarrow> string \<Rightarrow> (Claims \<times> bool) result"

datatype 'k parsed_key = RSAKey 'k | OtherKey

record ('priv, 'pub) key_lib =
  pem_Decode :: "string \<Rightarrow> bytes option"
  ParsePKCS1PrivateKey :: "bytes \<Rightarrow> 'priv result"
  ParsePKCS8PrivateKey :: "bytes \<Rightarrow> 'priv parsed_key result"
  ParsePKIXPublicKey :: "bytes \<Rightarrow> 'pub parsed_key result"
  ParsePKCS1PublicKey :: "bytes \<Rightarrow> 'pub result"
  GenerateKeyPEM :: "int \<Rightarrow> (string \<times> string) result"

definition parse_private :: "('priv, 'pub) key_lib \<Rightarrow> string \<Rightarrow> 'priv result" where
  "parse_private kl privateKeyPEM =
     (case pem_Decode kl privateKeyPEM of
        None \<Rightarrow> Inl (Error ''failed to parse private key PEM'')
      | Some der \<Rightarrow>
          (case ParsePKCS1PrivateKey kl der of
             Inr k \<Rightarrow> Inr k
           | Inl err \<Rightarrow>
               (case ParsePKCS8PrivateKey kl der of
                  Inl err2 \<Rightarrow> Inl (Error (''failed to parse private key: '' @ show_failure err @ '' (PKCS1) / '' @
                                       show_failure err2 @ '' (PKCS8)''))
                | Inr (RSAKey k) \<Rightarrow> Inr k
                | Inr OtherKey \<Rightarrow> Inl (Error ''private key is not RSA type''))))"

definition parse_public :: "('priv, 'pub) key_lib \<Rightarrow> string \<Rightarrow> 'pub result" where
  "parse_public kl publicKeyPEM =
     (case pem_Decode kl publicKeyPEM of
        None \<Rightarrow> Inl (Error ''failed to parse public key PEM'')
      | Some der \<Rightarrow>
          bind_r (case ParsePKIXPublicKey kl der of
               Inr k \<Rightarrow> Inr k
             | Inl err \<Rightarrow>
                 (case ParsePKCS1PublicKey kl der of
                    Inl err2 \<Rightarrow> Inl (Error (''failed to parse public key: '' @ show_failure err @ '' (PKIX) / '' @
                                         show_failure err2 @ '' (PKCS1)''))
                  | Inr k \<Rightarrow> Inr (RSAKey k)))
            (\<lambda>k. case k of RSAKey p \<Rightarrow> Inr p | OtherKey \<Rightarrow> Inl (Error ''public key is not RSA type'')))"

definition NewJWTManager :: "('priv, 'pub) key_lib \<Rightarrow> string \<Rightarrow> string \<Rightarrow> string \<Rightarrow> int \<Rightarrow>
    ('priv, 'pub) JWTManager result" where
  "NewJWTManager kl privateKeyPEM publicKeyPEM issuer ttl =
     bind_r (parse_private kl privateKeyPEM) (\<lambda>privateKey.
     bind_r (parse_public kl publicKeyPEM) (\<lambda>publicKey.
     Inr \<lparr>jm_privateKey = privateKey, jm_publicKey = publicKey, jm_issuer = issuer, jm_ttl = ttl\<rparr>))"

definition EnsureRSAKeys :: "('priv, 'pub) key_lib \<Rightarrow> string \<Rightarrow> string \<Rightarrow> string \<Rightarrow>
    ('priv, 'pub) JWTManager result \<times> string \<times> string" where
  "EnsureRSAKeys kl priv pub issuer =
     (case (if priv \<noteq> [] \<and> pub \<noteq> [] then NewJWTManager kl priv pub issuer (2 * hour) else Inl (Error [])) of
        Inr m \<Rightarrow> (Inr m, priv, pub)
      | Inl _ \<Rightarrow>
          (case GenerateKeyPEM kl 2048 of
             Inl e \<Rightarrow> (Inl (wrap_error ''failed to generate RSA key pair: '' e), priv, pub)
           | Inr (priv', pub') \<Rightarrow>
               ((case NewJWTManager kl priv' pub' issuer (2 * hour) of
                   Inl e \<Rightarrow> Inl (wrap_error ''failed to create JWT manager with generated keys: '' e)
                 | Inr m \<Rightarrow> Inr m), priv', pub')))"

text \<open>\<open>traceID\<close> is the identifier \<^verbatim>\<open>utils.GenerateTraceID\<close> returned to this call.\<close>

definition token_claims :: "('priv, 'pub) JWTManager \<Rightarrow> int \<Rightarrow> string \<Rightarrow> string \<Rightarrow> string \<Rightarrow> Claims" where
  "token_claims m now traceID userID deviceID =
     \<lparr>cl_UserID = userID, cl_DeviceID = deviceID, cl_Issuer = jm_issuer m, cl_Subject = userID,
      cl_Audience = [''dual-gateway''], cl_IssuedAt = Some (now div second),
      cl_ExpiresAt = Some ((now + jm_ttl m) div second), cl_NotBefore = Some (now div second), cl_ID = traceID\<rparr>"

definition GenerateToken :: "('priv, 'pub) jwt_lib \<Rightarrow> int \<Rightarrow> string \<Rightarrow> string \<Rightarrow> string \<Rightarrow>
    ('priv, 'pub) JWTManager \<Rightarrow> string result" where
  "GenerateToken jl now traceID userID deviceID m =
     SignedString jl (jm_privateKey m) (token_claims m now traceID userID deviceID)"

definition key_func :: "('priv, 'pub) JWTManager \<Rightarrow> string \<Rightarrow> bool \<Rightarrow> 'pub result" where
  "key_func m alg is_rsa =
     (if \<not> is_rsa then Inl (Error (''unexpected signing method: '' @ alg)) else Inr (jm_publicKey m))"

definition ValidateToken :: "('priv, 'pub) jwt_lib \<Rightarrow> int \<Rightarrow> string \<Rightarrow> ('priv, 'pub) JWTManager \<Rightarrow> Claims result" where
  "ValidateToken jl now tokenString m =
     (case ParseWithClaims jl (key_func m) now tokenString of
        Inl err \<Rightarrow> Inl (wrap_error ''failed to parse token: '' err)
      | Inr (claims, valid) \<Rightarrow>
          if \<not> valid then Inl (Error ''invalid token'')
          else if cl_Issuer claims \<noteq> jm_issuer m then Inl (Error ''invalid issuer'')
          else if (case cl_ExpiresAt claims of None \<Rightarrow> False | Some t \<Rightarrow> t * second < now) then Inl (Error ''token expired'')
          else Inr claims)"

definition RefreshToken :: "('priv, 'pub) jwt_lib \<Rightarrow> int \<Rightarrow> string \<Rightarrow> string \<Rightarrow> ('priv, 'pub) JWTManager \<Rightarrow> string result" where
  "RefreshToken jl now traceID tokenString m =
     bind_r (ValidateToken jl now tokenString m) (\<lambda>claims.
     if (case cl_ExpiresAt claims of None \<Rightarrow> False | Some t \<Rightarrow> 300 * second < t * second - now)
     then Inl (Error ''token not ready for refresh'')
     else GenerateToken jl now traceID (cl_UserID claims) (cl_DeviceID claims) m)"

section \<open>Properties\<close>

definition psk_inv :: "PSKStore \<Rightarrow> bool" where
  "psk_inv s \<longleftrightarrow> (\<forall>d k. keys s d = Some k \<longrightarrow> 16 \<le> length k) \<and> dom (hints s) = dom (keys s)"

lemma AddPSK_inv: "psk_inv s \<Longrightarrow> psk_inv (snd (AddPSK d k h s))"
  by (auto simp: psk_inv_def AddPSK_def)

lemma derivePSK_long: "\<forall>b. length (sha256 b) = 32 \<Longrightarrow> 16 \<le> length (derivePSK sha256 p)"
  by (simp add: derivePSK_def to_bytes_def)

lemma load_psks_keys:
  assumes "\<forall>b. length (sha256 b) = 32"
  shows "psk_inv s \<Longrightarrow> psk_inv (load_psks sha256 devs order s)"
    and "keys (load_psks sha256 devs order s) d =
      (if d \<in> set order \<and> devs d \<noteq> None then map_option (derivePSK sha256) (devs d) else keys s d)"
proof -
  show "psk_inv s \<Longrightarrow> psk_inv (load_psks sha256 devs order s)"
    by (induction order arbitrary: s) (auto simp: AddPSK_inv split: option.split)
  show "keys (load_psks sha256 devs order s) d =
      (if d \<in> set order \<and> devs d \<noteq> None then map_option (derivePSK sha256) (devs d) else keys s d)"
  proof (induction order arbitrary: s)
    case (Cons e order)
    have "\<not> length (derivePSK sha256 p) < 16" for p using derivePSK_long [OF assms, of p] by simp
    then show ?case using Cons by (auto simp: AddPSK_def split: option.splits)
  qed simp
qed

text \<open>
  Whatever keys are configured, every configured device gets a key of at least 16 bytes, the one
  derived from its entry, and no other device gets one; an unregistered device is refused by the
  DTLS callback exactly when no default key is configured.
\<close>

theorem configured_keys_usable:
  assumes "\<forall>b. length (sha256 b) = 32" "key_order devs order"
  shows "GetPSK d (load_psks sha256 devs order NewPSKStore) = map_option (derivePSK sha256) (devs d) \<and>
    psk_inv (load_psks sha256 devs order NewPSKStore) \<and>
    (devs d = None \<longrightarrow> (\<forall>hint. to_string hint = d \<longrightarrow>
       psk_callback (load_psks sha256 devs order NewPSKStore) (default_psk sha256 cfg) hint =
         (if iot_PSK cfg = [] then Inl (Error (''PSK not found for device: '' @ d))
          else Inr (derivePSK sha256 (iot_PSK cfg)))))"
proof -
  have "psk_inv NewPSKStore" by (simp add: psk_inv_def NewPSKStore_def)
  note k = load_psks_keys(1) [OF assms(1) this, of devs order] load_psks_keys(2) [OF assms(1), of devs order NewPSKStore]
  have keys: "keys (load_psks sha256 devs order NewPSKStore) d = map_option (derivePSK sha256) (devs d)" for d
    using key_orderD [OF assms(2), of d] unfolding k(2) by (cases "devs d") (auto simp: NewPSKStore_def)
  show ?thesis using k(1) by (auto simp: GetPSK_def keys psk_callback_def default_psk_def)
qed

theorem configured_keys_usable_witness:
  "GetPSK ''d'' (load_psks (\<lambda>_. replicate 32 7) [''d'' \<mapsto> ''short''] [''d''] NewPSKStore) = Some (replicate 32 7)"
  using configured_keys_usable [of "\<lambda>_. replicate 32 7" "[''d'' \<mapsto> ''short'']" "[''d'']" "''d''"]
  by (simp add: key_order_def derivePSK_def)

text \<open>
  The token library's promise: what it signed with a private key it parses back with the matching
  public key while the dates allow, and it asks the callback for the key with the header of RS256.
\<close>

definition jwt_pair :: "('priv, 'pub) jwt_lib \<Rightarrow> ('priv, 'pub) JWTManager \<Rightarrow> bool" where
  "jwt_pair jl m \<longleftrightarrow> (\<forall>c t kf now. SignedString jl (jm_privateKey m) c = Inr t \<longrightarrow>
      kf ''RS256'' True = Inr (jm_publicKey m) \<longrightarrow>
      (case cl_NotBefore c of Some n \<Rightarrow> n * second \<le> now | None \<Rightarrow> True) \<longrightarrow>
      (case cl_ExpiresAt c of Some x \<Rightarrow> now < x * second | None \<Rightarrow> True) \<longrightarrow>
      ParseWithClaims jl kf now t = Inr (c, True))"


text \<open>
  Whatever the token library accepts, the gateway accepts no token of another issuer, no token
  past its expiry and none signed with a method that is not RSA.
\<close>

theorem token_checks:
  assumes "ValidateToken jl now tok m = Inr c"
  shows "cl_Issuer c = jm_issuer m \<and> (\<forall>x. cl_ExpiresAt c = Some x \<longrightarrow> now \<le> x * second) \<and>
    ParseWithClaims jl (key_func m) now tok = Inr (c, True) \<and>
    key_func m alg False = Inl (Error (''unexpected signing method: '' @ alg))"
  using assms by (auto simp: ValidateToken_def key_func_def split: sum.splits if_splits option.splits)

text \<open>A token library for the witnesses: a token is the marshalled claims, with no secret.\<close>

definition plain_jwt :: "Claims \<Rightarrow> (unit, unit) jwt_lib" where
  "plain_jwt c0 = \<lparr>SignedString = \<lambda>_ c. if c = c0 then Inr ''tok'' else Inl (Error ''no key''),
     ParseWithClaims = \<lambda>kf now t. bind_r (kf ''RS256'' True) (\<lambda>_.
       if t = ''tok'' then Inr (c0, True) else Inl (Error ''malformed''))\<rparr>"

definition plain_manager :: "(unit, unit) JWTManager" where
  "plain_manager = \<lparr>jm_privateKey = (), jm_publicKey = (), jm_issuer = ''dual-gateway'', jm_ttl = 7200 * second\<rparr>"

lemma plain_pair: "jwt_pair (plain_jwt c0) plain_manager"
  by (auto simp: jwt_pair_def plain_jwt_def split: if_splits)


theorem token_checks_witness:
  "cl_Issuer (token_claims plain_manager 0 ''t'' ''u'' ''d'') = jm_issuer plain_manager"
proof -
  have "ValidateToken (plain_jwt (token_claims plain_manager 0 ''t'' ''u'' ''d'')) second ''tok'' plain_manager =
     Inr (token_claims plain_manager 0 ''t'' ''u'' ''d'')"
    by (simp add: ValidateToken_def plain_jwt_def key_func_def token_claims_def plain_manager_def)
  from token_checks [OF this] show ?thesis by blast
qed

end
