(* ===== verification/Kafka.thy ===== *)
theory Kafka
  imports Prelude
begin

text \<open>
  \<^verbatim>\<open>internal/mq/kafka.go\<close>: publishing to Kafka with a drop mode.  The brokers, the writer and the
  reader are outside: whether a broker answers and whether a write succeeds are arguments; what
  was written is logged with its key.
\<close>

record 'e MQ =
  mq_available :: bool
  mq_droppedCend :: int
  mq_droppedIoT :: int
  mq_written :: "(string \<times> 'e) list"

text \<open>The probe dials the first broker: an empty list is an index out of range.\<close>

definition mq_Init :: "(string \<Rightarrow> bool) \<Rightarrow> string list \<Rightarrow> 'e MQ \<Rightarrow> unit result \<times> 'e MQ" where
  "mq_Init dial brokers m =
     (case idx brokers 0 of
        Inl e \<Rightarrow> (Inl e, m)
      | Inr b \<Rightarrow> if \<not> dial b then (Inr (), m\<lparr>mq_available := False\<rparr>) else (Inr (), m\<lparr>mq_available := True\<rparr>))"

definition IsAvailable :: "'e MQ \<Rightarrow> bool" where
  "IsAvailable m = mq_available m"

definition PublishCendMessage :: "unit result \<Rightarrow> 'e \<Rightarrow> 'e MQ \<Rightarrow> unit result \<times> 'e MQ" where
  "PublishCendMessage wr message m =
     (if \<not> mq_available m then (Inr (), m\<lparr>mq_droppedCend := mq_droppedCend m + 1\<rparr>)
      else (case wr of Inl e \<Rightarrow> (Inl e, m) | Inr _ \<Rightarrow> (Inr (), m\<lparr>mq_written := mq_written m @ [(''cend'', message)]\<rparr>)))"

definition PublishIoTEvent :: "unit result \<Rightarrow> 'e \<Rightarrow> 'e MQ \<Rightarrow> unit result \<times> 'e MQ" where
  "PublishIoTEvent wr event m =
     (if \<not> mq_available m then (Inr (), m\<lparr>mq_droppedIoT := mq_droppedIoT m + 1\<rparr>)
      else (case wr of Inl e \<Rightarrow> (Inl e, m) | Inr _ \<Rightarrow> (Inr (), m\<lparr>mq_written := mq_written m @ [(''iot'', event)]\<rparr>)))"

text \<open>
  Consuming: the reader's answers are a list, and the state the handler works on is passed along.  A failed
  read is logged and the loop goes on.
\<close>

fun consume_loop :: "(bytes \<Rightarrow> 's \<Rightarrow> 's) \<Rightarrow> bytes result list \<Rightarrow> 's \<Rightarrow> 's" where
  "consume_loop handler [] s = s"
| "consume_loop handler (Inl e # reads) s = consume_loop handler reads s"
| "consume_loop handler (Inr v # reads) s = consume_loop handler reads (handler v s)"

definition ConsumeMessages :: "(bytes \<Rightarrow> 's \<Rightarrow> 's) \<Rightarrow> bytes result list \<Rightarrow> 'e MQ \<Rightarrow> 's \<Rightarrow> 's" where
  "ConsumeMessages handler reads m s = (if \<not> mq_available m then s else consume_loop handler reads s)"

text \<open>The handler sees the messages that were read, each once and in order, whatever fails in between.\<close>

lemma ConsumeMessages_in_order:
  "mq_available m \<Longrightarrow> ConsumeMessages handler reads m s = fold handler [v. Inr v \<leftarrow> reads] s"
proof -
  have "consume_loop handler reads s = fold handler [v. Inr v \<leftarrow> reads] s"
    by (induction handler reads s rule: consume_loop.induct) simp_all
  then show "mq_available m \<Longrightarrow> ?thesis" by (simp add: ConsumeMessages_def)
qed

end
