(* ===== verification/IotServer.thy ===== *)
theory IotServer
  imports Mqttsn Tlv Shadow CommandQueue RateLimit Auth Kafka
begin

text \<open>
  The IoT gateway: \<^verbatim>\<open>internal/gateway/iot/handler.go\<close>, the transport endpoint and stream framing of
  \<^verbatim>\<open>quic.go\<close>, and the queues and periodic work of \<^verbatim>\<open>server.go\<close>.  One record holds the server with
  its device table, sessions, limiters, shadow manager, command queue, metrics and the state of
  the Redis and Kafka packages.  The environment of a call is a record: the clock (one reading in
  nanoseconds per call), the outcome of each transport write, the Redis and JSON parameters.  Log
  output is left out.  Locks make each table operation atomic; a handler is one step.
\<close>

section \<open>Transport endpoints and framing (quic.go)\<close>

datatype endpoint = QuicStream nat | DtlsConn nat | UdpAddr "(string \<times> string) option"

text \<open>
  A UDP address is its printed form with the printed IP; connections and streams are identities,
  connections of both kinds numbered together.
\<close>

record Peer =
  p_Addr :: "(string \<times> string) option"
  p_Conn :: "nat option"
  p_Quic :: "nat option"
  p_Stream :: "nat option"

definition Peer_String :: "Peer \<Rightarrow> string" where
  "Peer_String p = (case p_Addr p of None \<Rightarrow> ''unknown'' | Some (addr, ip) \<Rightarrow> addr)"

definition Peer_IP :: "Peer \<Rightarrow> string" where
  "Peer_IP p = (case p_Addr p of None \<Rightarrow> [] | Some (addr, ip) \<Rightarrow> ip)"

definition frame_rest :: "bytes \<Rightarrow> nat \<Rightarrow> bytes \<Rightarrow> (bytes \<times> bytes) result" where
  "frame_rest hdr tot r =
     (if tot < length hdr + 1 \<or> tot > 65535
      then Inl (Error (''invalid MQTT-SN frame length '' @ show_nat tot))
      else bind_r (ReadFull r (tot - length hdr)) (\<lambda>(body, rest). Inr (hdr @ body, rest)))"

definition readMQTTFrame :: "bytes \<Rightarrow> (bytes \<times> bytes) result" where
  "readMQTTFrame r = bind_r (ReadFull r 1) (\<lambda>(hdr, r1).
     if hdr ! 0 = 0x01
     then bind_r (ReadFull r1 2) (\<lambda>(len, r2). bind_r (Uint16 len) (\<lambda>w. frame_rest (hdr @ len) (unat w) r2))
     else frame_rest hdr (unat (hdr ! 0)) r1)"

section \<open>Server state\<close>

record DeviceInfo =
  dev_DeviceID :: string
  dev_GatewayID :: string
  dev_Address :: string
  dev_LastSeen :: int
  dev_Status :: string
  dev_PSK :: bytes
  dev_SessionID :: string
  dev_Peer :: "Peer option"

record Session =
  ses_ID :: string
  ses_DeviceID :: string
  ses_CreatedAt :: int
  ses_LastActive :: int
  ses_KeepAlive :: uint16
  ses_Clean :: bool

record Metrics =
  PacketsReceived :: int
  PacketsSent :: int
  BytesReceived :: int
  BytesSent :: int
  ConnectCount :: int
  DisconnectCount :: int
  PublishCount :: int
  SubscribeCount :: int
  ErrorCount :: int

datatype event_value = VFloat rat | VByte byte | VBytes bytes

record IoTEvent =
  ie_device_id :: string
  ie_topic_id :: uint16
  ie_msg_id :: uint16
  ie_qos :: byte
  ie_retain :: bool
  ie_timestamp :: int
  ie_values :: "string \<rightharpoonup> event_value"
  ie_gateway_id :: string

record 'r Server =
  s_ID :: string
  s_PSKStore :: PSKStore
  s_DefaultPSK :: "bytes option"
  s_devices :: "string \<rightharpoonup> DeviceInfo"
  s_sessions :: "string \<rightharpoonup> Session"
  s_byDevice :: "string \<rightharpoonup> string"
  s_Metrics :: Metrics
  s_Shadow :: Manager
  s_CmdQueue :: Queue
  s_ConnectLimiter :: ConnectLimiter
  s_IPLimiter :: IPLimiter
  s_redis :: "'r RedisState"
  s_mq :: "IoTEvent MQ"
  s_packetCh :: "(bytes \<times> Peer) list"
  s_Dropped :: int
  s_PacketCount :: int
  s_ByteCount :: int
  s_AsyncRedis :: "(string \<times> string) list"
  s_writes :: "(endpoint \<times> bytes \<times> bool) list"
    \<comment> \<open>every transport write with whether it succeeded\<close>

text \<open>
  The environment: \<open>e_write n ep data\<close> is the outcome of the n-th transport write, \<open>e_sid\<close> the
  session identifier the generator returns next, \<open>e_kafka\<close> the outcome of a Kafka write.
\<close>

record 'r Env =
  e_ops :: "'r redis_ops"
  e_js :: json_ops
  e_cj :: cmd_json
  e_write :: "nat \<Rightarrow> endpoint \<Rightarrow> bytes \<Rightarrow> unit result"
  e_sid :: string
  e_kafka :: "unit result"
  e_now :: int

abbreviation unix :: "'r Env \<Rightarrow> int" where "unix e \<equiv> e_now e div second"
abbreviation millis :: "'r Env \<Rightarrow> int" where "millis e \<equiv> e_now e div 1000000"

definition count :: "(Metrics \<Rightarrow> Metrics) \<Rightarrow> 'r Server \<Rightarrow> 'r Server" where
  "count f s = s\<lparr>s_Metrics := f (s_Metrics s)\<rparr>"

definition err :: "Metrics \<Rightarrow> Metrics" where
  "err m = m\<lparr>ErrorCount := ErrorCount m + 1\<rparr>"

definition sent :: "nat \<Rightarrow> Metrics \<Rightarrow> Metrics" where
  "sent n m = m\<lparr>PacketsSent := PacketsSent m + 1, BytesSent := BytesSent m + int n\<rparr>"

section \<open>Sending\<close>

definition transport_write :: "'r Env \<Rightarrow> endpoint \<Rightarrow> bytes \<Rightarrow> 'r Server \<Rightarrow> unit result \<times> 'r Server" where
  "transport_write e ep data s =
     (let r = e_write e (length (s_writes s)) ep data
      in (r, s\<lparr>s_writes := s_writes s @ [(ep, data, r = Inr ())]\<rparr>))"

definition Peer_Send :: "'r Env \<Rightarrow> Peer option \<Rightarrow> bytes \<Rightarrow> 'r Server \<Rightarrow> unit result \<times> 'r Server" where
  "Peer_Send e peer data s =
     (case peer of
        None \<Rightarrow> (Inl (Error ''nil peer''), s)
      | Some p \<Rightarrow>
          if p_Quic p \<noteq> None then
            (case p_Stream p of
               None \<Rightarrow> (Inl (Error ''quic peer without stream''), s)
             | Some st \<Rightarrow> transport_write e (QuicStream st) data s)
          else (case p_Conn p of
                  Some c \<Rightarrow> transport_write e (DtlsConn c) data s
                | None \<Rightarrow> transport_write e (UdpAddr (p_Addr p)) data s))"

definition SendToDevice :: "'r Env \<Rightarrow> string \<Rightarrow> bytes \<Rightarrow> 'r Server \<Rightarrow> unit result \<times> 'r Server" where
  "SendToDevice e deviceID data s =
     (case s_devices s deviceID of
        None \<Rightarrow> (Inl (Error (''device not online: '' @ deviceID)), s)
      | Some dev \<Rightarrow>
          (case dev_Peer dev of
             None \<Rightarrow> (Inl (Error (''device peer missing: '' @ deviceID)), s)
           | Some p \<Rightarrow> Peer_Send e (Some p) data s))"

text \<open>The shape of every reply: write, then count an error or the packet.\<close>

definition reply :: "'r Env \<Rightarrow> Peer \<Rightarrow> bytes \<Rightarrow> 'r Server \<Rightarrow> 'r Server" where
  "reply e peer data s =
     (case Peer_Send e (Some peer) data s of
        (Inl _, s') \<Rightarrow> count err s'
      | (Inr _, s') \<Rightarrow> count (sent (length data)) s')"

definition sendConnack :: "'r Env \<Rightarrow> Peer \<Rightarrow> byte \<Rightarrow> 'r Server \<Rightarrow> 'r Server" where
  "sendConnack e peer returnCode = reply e peer [0x03, CONNACK, returnCode]"

definition sendPuback :: "'r Env \<Rightarrow> Peer \<Rightarrow> uint16 \<Rightarrow> uint16 \<Rightarrow> byte \<Rightarrow> 'r Server \<Rightarrow> 'r Server" where
  "sendPuback e peer topicID msgID returnCode =
     reply e peer [0x07, PUBACK, hi16 topicID, lo16 topicID, hi16 msgID, lo16 msgID, returnCode]"

definition sendRetryInfo :: "'r Env \<Rightarrow> Peer \<Rightarrow> uint16 \<Rightarrow> 'r Server \<Rightarrow> 'r Server" where
  "sendRetryInfo e peer retryAfterSec = reply e peer (EncodeRetryInfo retryAfterSec)"

section \<open>Shadow, queue and Redis calls of the server\<close>

definition with_shadow :: "(Manager \<times> 'r RedisState \<Rightarrow> 'v \<times> Manager \<times> 'r RedisState) \<Rightarrow> 'r Server \<Rightarrow> 'r Server" where
  "with_shadow f s = (let (_, m, g) = f (s_Shadow s, s_redis s) in s\<lparr>s_Shadow := m, s_redis := g\<rparr>)"

definition with_queue :: "(Queue \<times> 'r RedisState \<Rightarrow> 'v \<times> Queue \<times> 'r RedisState) \<Rightarrow> 'r Server \<Rightarrow> 'v \<times> 'r Server" where
  "with_queue f s = (let (v, q, g) = f (s_CmdQueue s, s_redis s) in (v, s\<lparr>s_CmdQueue := q, s_redis := g\<rparr>))"

definition with_redis :: "('r RedisState \<Rightarrow> 'v \<times> 'r RedisState) \<Rightarrow> 'r Server \<Rightarrow> 'r Server" where
  "with_redis f s = s\<lparr>s_redis := snd (f (s_redis s))\<rparr>"

definition report :: "'r Env \<Rightarrow> string \<Rightarrow> string \<Rightarrow> 'r Server \<Rightarrow> 'r Server" where
  "report e deviceID state s =
     with_shadow (ReportHeartbeatWithGateway (e_ops e) (unix e) (millis e) deviceID state (s_ID s)) s"

definition touch_device :: "'r Env \<Rightarrow> string \<Rightarrow> 'r Server \<Rightarrow> 'r Server" where
  "touch_device e deviceID s =
     (case s_devices s deviceID of
        None \<Rightarrow> s
      | Some dev \<Rightarrow> s\<lparr>s_devices := (s_devices s)(deviceID \<mapsto> dev\<lparr>dev_LastSeen := e_now e, dev_Status := ''online''\<rparr>)\<rparr>)"

section \<open>Handlers (handler.go)\<close>

fun send_commands :: "'r Env \<Rightarrow> string \<Rightarrow> Command list \<Rightarrow> 'r Server \<Rightarrow> 'r Server" where
  "send_commands e deviceID [] s = s"
| "send_commands e deviceID (c # cmds) s =
     (let payload = to_bytes (cmd_Params c);
          cmdMsg = EncodeCmd deviceID (cmd_CmdID c) (CmdTypeToByte (cmd_Type c)) payload
      in case SendToDevice e deviceID cmdMsg s of
           (Inl _, s') \<Rightarrow> count err s'
         | (Inr _, s') \<Rightarrow> send_commands e deviceID cmds (count (sent (length cmdMsg)) s'))"

definition dispatchPendingCommands :: "'r Env \<Rightarrow> string \<Rightarrow> 'r Server \<Rightarrow> 'r Server" where
  "dispatchPendingCommands e deviceID s =
     (case s_devices s deviceID of
        None \<Rightarrow> s
      | Some _ \<Rightarrow>
          (let (cmds, s') = with_queue (Fetch (e_ops e) (e_cj e) deviceID 0) s in
           case cmds of
             Inl _ \<Rightarrow> s'
           | Inr cs \<Rightarrow> send_commands e deviceID cs s'))"

definition asyncRedisWork :: "'r Env \<Rightarrow> string \<times> string \<Rightarrow> 'r Server \<Rightarrow> 'r Server" where
  "asyncRedisWork e = (\<lambda>(deviceID, addr) s.
     dispatchPendingCommands e deviceID
       (with_shadow (Touch (e_ops e) (unix e) deviceID (s_ID s))
         (with_redis (RegisterIoTDevice (e_ops e) (e_js e) (unix e) deviceID (s_ID s) addr) s)))"

definition open_session :: "'r Env \<Rightarrow> ConnectMessage \<Rightarrow> 'r Server \<Rightarrow> 'r Server" where
  "open_session e msg s =
     (let deviceID = conn_ClientID msg; sessionID = e_sid e;
          session = \<lparr>ses_ID = sessionID, ses_DeviceID = deviceID, ses_CreatedAt = e_now e, ses_LastActive = e_now e,
                     ses_KeepAlive = conn_Duration msg, ses_Clean = (conn_Flags msg AND 0x02 \<noteq> 0)\<rparr>;
          sessions1 = (case s_byDevice s deviceID of Some oldID \<Rightarrow> (s_sessions s)(oldID := None) | None \<Rightarrow> s_sessions s)
      in s\<lparr>s_sessions := sessions1(sessionID \<mapsto> session), s_byDevice := (s_byDevice s)(deviceID \<mapsto> sessionID)\<rparr>)"

definition register_device :: "'r Env \<Rightarrow> string \<Rightarrow> Peer \<Rightarrow> 'r Server \<Rightarrow> 'r Server" where
  "register_device e deviceID peer s =
     (let psk = (case GetPSK deviceID (s_PSKStore s) of Some p \<Rightarrow> p
                 | None \<Rightarrow> (case s_DefaultPSK s of Some p \<Rightarrow> p | None \<Rightarrow> []))
      in s\<lparr>s_devices := (s_devices s)(deviceID \<mapsto>
           \<lparr>dev_DeviceID = deviceID, dev_GatewayID = s_ID s, dev_Address = Peer_String peer, dev_LastSeen = e_now e,
            dev_Status = ''online'', dev_PSK = psk, dev_SessionID = [], dev_Peer = Some peer\<rparr>)\<rparr>)"

text \<open>The two limiters of a CONNECT, with Go's short-circuit: the address is asked only if the first admits.\<close>

definition admit :: "'r Env \<Rightarrow> Peer \<Rightarrow> 'r Server \<Rightarrow> bool \<times> 'r Server" where
  "admit e peer s =
     (let (ok1, l1) = ConnectLimiter_Allow (e_now e) (s_ConnectLimiter s); s1 = s\<lparr>s_ConnectLimiter := l1\<rparr> in
      if \<not> ok1 then (False, s1)
      else (let (ok2, l2) = IPLimiter_Allow (e_now e) (Peer_IP peer) (s_IPLimiter s1)
            in (ok2, s1\<lparr>s_IPLimiter := l2\<rparr>)))"

definition handleConnect :: "'r Env \<Rightarrow> bytes \<Rightarrow> Peer \<Rightarrow> 'r Server \<Rightarrow> 'r Server" where
  "handleConnect e data peer s =
     (case DecodeConnect data of
        Inl _ \<Rightarrow> count err s
      | Inr msg \<Rightarrow>
          (let deviceID = conn_ClientID msg in
           if deviceID = [] then sendConnack e peer 0x02 s
           else (let (ok, s1) = admit e peer s in
             if \<not> ok then sendRetryInfo e peer 10 (sendConnack e peer 0x03 s1)
             else if GetPSK deviceID (s_PSKStore s1) = None \<and> s_DefaultPSK s1 = None
             then sendConnack e peer 0x02 s1
             else (let s2 = open_session e msg (register_device e deviceID peer s1);
                       s3 = sendConnack e peer 0x00 (count (\<lambda>m. m\<lparr>ConnectCount := ConnectCount m + 1\<rparr>) s2);
                       work = (deviceID, Peer_String peer)
                   in if length (s_AsyncRedis s3) < 65536 then s3\<lparr>s_AsyncRedis := s_AsyncRedis s3 @ [work]\<rparr>
                      else asyncRedisWork e work s3))))"

definition handleStatus :: "'r Env \<Rightarrow> bytes \<Rightarrow> Peer \<Rightarrow> 'r Server \<Rightarrow> 'r Server" where
  "handleStatus e data peer s =
     (case DecodeStatus data of
        Inl _ \<Rightarrow> count err s
      | Inr (deviceID, stateByte) \<Rightarrow>
          if s_devices s deviceID = None then s
          else (let s1 = touch_device e deviceID s in
                case ByteToStateStr stateByte of
                  None \<Rightarrow> s1
                | Some stateStr \<Rightarrow> report e deviceID stateStr s1))"

definition handleFetch :: "'r Env \<Rightarrow> bytes \<Rightarrow> Peer \<Rightarrow> 'r Server \<Rightarrow> 'r Server" where
  "handleFetch e data peer s =
     (case DecodeFetch data of
        Inl _ \<Rightarrow> count err s
      | Inr deviceID \<Rightarrow> dispatchPendingCommands e deviceID s)"

definition handleCmdAck :: "'r Env \<Rightarrow> bytes \<Rightarrow> Peer \<Rightarrow> 'r Server \<Rightarrow> 'r Server" where
  "handleCmdAck e data peer s =
     (case DecodeCmdAck data of
        Inl _ \<Rightarrow> count err s
      | Inr (deviceID, cmdID, code, resultState) \<Rightarrow>
          (let stateStr = (case ByteToStateStr resultState of Some st \<Rightarrow> st | None \<Rightarrow> []);
               s1 = snd (with_queue (MarkDone (e_ops e) (e_cj e) deviceID cmdID) s);
               s2 = (if stateStr \<noteq> [] \<and> stateStr \<noteq> ''offline'' then report e deviceID stateStr s1 else s1)
           in with_redis (redis_PublishMessage (e_ops e) CmdResultChan
                (ResultMsg \<lparr>cr_cmd_id = cmdID, cr_device_id = deviceID, cr_code = code, cr_result_state = stateStr,
                            cr_timestamp = millis e\<rparr>)) s2))"

text \<open>The fields of a PUBLISH: the last device identifier wins, as does the last value of each kind.\<close>

definition field_value :: "TLV \<Rightarrow> (string \<times> event_value) option" where
  "field_value item =
     (let ty = tlv_Type item;
          u16 = (\<lambda>name k. case GetUint16 item of Inr v \<Rightarrow> Some (name, VFloat (fl 24 (of_nat (unat v) / k))) | Inl _ \<Rightarrow> None);
          u8 = (\<lambda>name. case GetUint8 item of Inr v \<Rightarrow> Some (name, VByte v) | Inl _ \<Rightarrow> None)
      in if ty = TypeTemperature then u16 ''temperature'' 100
         else if ty = TypeHumidity then u16 ''humidity'' 100
         else if ty = TypeVoltage then u16 ''voltage'' 1000
         else if ty = TypeBattery then u8 ''battery''
         else if ty = TypeSignal then u8 ''signal''
         else if ty = TypeStatus then u8 ''status''
         else if ty = TypeAlarm then u8 ''alarm''
         else if ty = TypeGPS then Some (''gps'', VBytes (tlv_Value item))
         else None)"

fun scan_fields :: "TLV list \<Rightarrow> string \<Rightarrow> (string \<rightharpoonup> event_value) \<Rightarrow> string \<times> (string \<rightharpoonup> event_value)" where
  "scan_fields [] deviceID vals = (deviceID, vals)"
| "scan_fields (item # items) deviceID vals =
     (if tlv_Type item = TypeDeviceID then scan_fields items (GetString item) vals
      else (case field_value item of
              Some (name, v) \<Rightarrow> scan_fields items deviceID (vals(name \<mapsto> v))
            | None \<Rightarrow> scan_fields items deviceID vals))"

definition reported_state :: "(string \<rightharpoonup> event_value) \<Rightarrow> string" where
  "reported_state vals =
     (case vals ''status'' of
        Some (VByte sv) \<Rightarrow> (case StateFromTLV sv of Some st \<Rightarrow> st | None \<Rightarrow> [])
      | _ \<Rightarrow> [])"

definition handlePublish :: "'r Env \<Rightarrow> bytes \<Rightarrow> Peer \<Rightarrow> 'r Server \<Rightarrow> 'r Server" where
  "handlePublish e data peer s =
     (case DecodePublish data of
        Inl _ \<Rightarrow> count err s
      | Inr msg \<Rightarrow>
          (case DecodeAll (NewTlvDecoder (pub_Data msg)) of
             Inl _ \<Rightarrow> count err s
           | Inr tlvs \<Rightarrow>
               (let (deviceID, vals) = scan_fields tlvs [] Map.empty in
                if deviceID = [] then s
                else (let s1 = touch_device e deviceID s;
                          s2 = report e deviceID (reported_state vals) s1;
                          s3 = with_redis (UpdateIoTDeviceHeartbeat (e_ops e) (e_js e) (unix e) deviceID) s2;
                          qos = drop_bit 5 (pub_Flags msg AND 0x60);
                          event = \<lparr>ie_device_id = deviceID, ie_topic_id = pub_TopicID msg, ie_msg_id = pub_MsgID msg,
                                   ie_qos = qos, ie_retain = (pub_Flags msg AND 0x10 \<noteq> 0), ie_timestamp = unix e,
                                   ie_values = vals, ie_gateway_id = s_ID s\<rparr>;
                          s4 = s3\<lparr>s_mq := snd (PublishIoTEvent (e_kafka e) event (s_mq s3))\<rparr>;
                          s5 = count (\<lambda>m. m\<lparr>PublishCount := PublishCount m + 1\<rparr>) s4
                      in if qos = 1 \<or> qos = 2 then sendPuback e peer (pub_TopicID msg) (pub_MsgID msg) 0x00 s5 else s5))))"

definition touch_session :: "'r Env \<Rightarrow> string \<Rightarrow> 'r Server \<Rightarrow> 'r Server" where
  "touch_session e deviceID s =
     (case s_byDevice s deviceID of
        None \<Rightarrow> s
      | Some sessionID \<Rightarrow>
          (case s_sessions s sessionID of
             None \<Rightarrow> s
           | Some ses \<Rightarrow> s\<lparr>s_sessions := (s_sessions s)(sessionID \<mapsto> ses\<lparr>ses_LastActive := e_now e\<rparr>)\<rparr>))"

definition handlePingReq :: "'r Env \<Rightarrow> bytes \<Rightarrow> Peer \<Rightarrow> 'r Server \<Rightarrow> 'r Server" where
  "handlePingReq e data peer s =
     (let deviceID = to_string data;
          s1 = (if 0 < length data then report e deviceID [] (touch_session e deviceID (touch_device e deviceID s)) else s);
          pingResp = [0x02, PINGRESP]
      in case Peer_Send e (Some peer) pingResp s1 of
           (Inl _, s2) \<Rightarrow> count err s2
         | (Inr _, s2) \<Rightarrow>
             (let s3 = count (sent (length pingResp)) s2
              in if 0 < length data then dispatchPendingCommands e deviceID s3 else s3))"

definition dropDevice :: "'r Env \<Rightarrow> string \<Rightarrow> 'r Server \<Rightarrow> 'r Server" where
  "dropDevice e deviceID s =
     (let s1 = s\<lparr>s_devices := (s_devices s)(deviceID := None)\<rparr>;
          s2 = (case s_byDevice s1 deviceID of
                  Some sessionID \<Rightarrow> s1\<lparr>s_sessions := (s_sessions s1)(sessionID := None),
                                      s_byDevice := (s_byDevice s1)(deviceID := None)\<rparr>
                | None \<Rightarrow> s1);
          s3 = with_redis (RemoveIoTDevice (e_ops e) deviceID) s2;
          s4 = with_shadow (MarkOffline (e_ops e) (unix e) (millis e) deviceID) s3
      in count (\<lambda>m. m\<lparr>DisconnectCount := DisconnectCount m + 1\<rparr>) s4)"

text \<open>The loops that look for a device visit the table in an order they are given.\<close>

fun find_device :: "(DeviceInfo \<Rightarrow> bool) \<Rightarrow> (string \<rightharpoonup> DeviceInfo) \<Rightarrow> string list \<Rightarrow> string" where
  "find_device P devices [] = []"
| "find_device P devices (d # order) =
     (case devices d of
        Some dev \<Rightarrow> if P dev then d else find_device P devices order
      | None \<Rightarrow> find_device P devices order)"

definition handleDisconnect :: "'r Env \<Rightarrow> string list \<Rightarrow> bytes \<Rightarrow> Peer \<Rightarrow> 'r Server \<Rightarrow> 'r Server" where
  "handleDisconnect e order data peer s =
     (let deviceID = (if 0 < length data then to_string data
                      else find_device (\<lambda>dev. dev_Address dev = Peer_String peer) (s_devices s) order)
      in if deviceID \<noteq> [] then dropDevice e deviceID s else s)"

definition handleSubscribe :: "'r Env \<Rightarrow> bytes \<Rightarrow> Peer \<Rightarrow> 'r Server \<Rightarrow> 'r Server" where
  "handleSubscribe e data peer s =
     (if length data < 5 then s
      else (let topicID = be_uint16 (data ! 2) (data ! 3); qos = data ! 4 AND 0x03;
                suback = [0x08, SUBACK, data ! 0, data ! 1, 0x00, lo16 topicID, 0x00, qos]
            in case Peer_Send e (Some peer) suback s of
                 (Inl _, s') \<Rightarrow> count err s'
               | (Inr _, s') \<Rightarrow> count (\<lambda>m. m\<lparr>SubscribeCount := SubscribeCount m + 1\<rparr>) s'))"

definition handleUnsubscribe :: "'r Env \<Rightarrow> bytes \<Rightarrow> Peer \<Rightarrow> 'r Server \<Rightarrow> 'r Server" where
  "handleUnsubscribe e data peer s =
     (if length data < 4 then s
      else (case Peer_Send e (Some peer) [0x04, UNSUBACK, data ! 0, data ! 1] s of
              (Inl _, s') \<Rightarrow> count err s'
            | (Inr _, s') \<Rightarrow> s'))"

definition handleRegister :: "'r Env \<Rightarrow> bytes \<Rightarrow> Peer \<Rightarrow> 'r Server \<Rightarrow> 'r Server" where
  "handleRegister e data peer s =
     (if length data < 6 then s
      else (case Peer_Send e (Some peer)
                   [0x07, REGACK, data ! 0, data ! 1, data ! 2, data ! 3, data ! 0, data ! 1, 0x00] s of
              (Inl _, s') \<Rightarrow> count err s'
            | (Inr _, s') \<Rightarrow> s'))"

definition HandlePacket :: "'r Env \<Rightarrow> string list \<Rightarrow> bytes \<Rightarrow> Peer \<Rightarrow> 'r Server \<Rightarrow> 'r Server" where
  "HandlePacket e order data peer s0 =
     (case ParseMessage data of
        Inl _ \<Rightarrow> count err s0
      | Inr (msgType, msgData) \<Rightarrow>
          (let s = count (\<lambda>m. m\<lparr>PacketsReceived := PacketsReceived m + 1,
                                BytesReceived := BytesReceived m + int (length data)\<rparr>) s0
           in if msgType = CONNECT then handleConnect e msgData peer s
              else if msgType = PUBLISH then handlePublish e msgData peer s
              else if msgType = PINGREQ then handlePingReq e msgData peer s
              else if msgType = DISCONNECT then handleDisconnect e order msgData peer s
              else if msgType = SUBSCRIBE then handleSubscribe e msgData peer s
              else if msgType = UNSUBSCRIBE then handleUnsubscribe e msgData peer s
              else if msgType = REGISTER then handleRegister e msgData peer s
              else if msgType = STATUS then handleStatus e msgData peer s
              else if msgType = FETCH then handleFetch e msgData peer s
              else if msgType = CMDACK then handleCmdAck e msgData peer s
              else s))"

definition dropDeviceByConn :: "'r Env \<Rightarrow> string list \<Rightarrow> nat \<Rightarrow> 'r Server \<Rightarrow> 'r Server" where
  "dropDeviceByConn e order conn s =
     (let target = find_device (\<lambda>dev. case dev_Peer dev of None \<Rightarrow> False
            | Some p \<Rightarrow> p_Conn p = Some conn \<or> p_Quic p = Some conn) (s_devices s) order
      in if target \<noteq> [] then dropDevice e target s else s)"

definition dropDeviceByStream :: "'r Env \<Rightarrow> string list \<Rightarrow> nat \<Rightarrow> 'r Server \<Rightarrow> 'r Server" where
  "dropDeviceByStream e order stream s =
     (let target = find_device (\<lambda>dev. case dev_Peer dev of None \<Rightarrow> False | Some p \<Rightarrow> p_Stream p = Some stream)
            (s_devices s) order
      in if target \<noteq> [] then dropDevice e target s else s)"

text \<open>
  The sweep of idle sessions, in an order it is given; it returns the devices it found silent.  One
  expired session is deleted with its index entry, and its device is shown offline.
\<close>

definition expire_one :: "string \<Rightarrow> Session \<Rightarrow> 'r Server \<Rightarrow> 'r Server" where
  "expire_one sid ses s =
     (let d = ses_DeviceID ses;
          s1 = s\<lparr>s_sessions := (s_sessions s)(sid := None),
                 s_byDevice := (if s_byDevice s d = Some sid then (s_byDevice s)(d := None) else s_byDevice s)\<rparr>
      in case s_devices s1 d of
           Some dev \<Rightarrow> s1\<lparr>s_devices := (s_devices s1)(d \<mapsto> dev\<lparr>dev_Status := ''offline''\<rparr>)\<rparr>
         | None \<Rightarrow> s1)"

fun expire_sessions :: "int \<Rightarrow> int \<Rightarrow> string list \<Rightarrow> 'r Server \<Rightarrow> string list \<times> 'r Server" where
  "expire_sessions now timeout [] s = ([], s)"
| "expire_sessions now timeout (sid # order) s =
     (case s_sessions s sid of
        None \<Rightarrow> expire_sessions now timeout order s
      | Some ses \<Rightarrow>
          if now - ses_LastActive ses > timeout then
            (let (ids, s') = expire_sessions now timeout order (expire_one sid ses s) in (ses_DeviceID ses # ids, s'))
          else expire_sessions now timeout order s)"

definition CleanupExpiredSessions :: "'r Env \<Rightarrow> int \<Rightarrow> string list \<Rightarrow> 'r Server \<Rightarrow> string list \<times> 'r Server" where
  "CleanupExpiredSessions e timeout order s = expire_sessions (e_now e) timeout order s"

section \<open>Queues and periodic work (server.go, quic.go)\<close>

fun mark_all_offline :: "'r Env \<Rightarrow> string list \<Rightarrow> 'r Server \<Rightarrow> 'r Server" where
  "mark_all_offline e [] s = s"
| "mark_all_offline e (d # ds) s =
     mark_all_offline e ds (with_shadow (MarkOffline (e_ops e) (unix e) (millis e) d) s)"

definition sessionCleanup_tick :: "'r Env \<Rightarrow> IoTConfig \<Rightarrow> string list \<Rightarrow> 'r Server \<Rightarrow> 'r Server" where
  "sessionCleanup_tick e cfg order s =
     (let t = wrap64 (iot_SessionTimeout cfg * second);
          timeout = (if t \<le> 0 then 300 * second else t);
          (expired, s') = CleanupExpiredSessions e timeout order s
      in mark_all_offline e expired s')"

text \<open>Receiving a packet: counted, then queued for the workers or dropped when the queue is full.\<close>

definition receive :: "bytes \<Rightarrow> Peer \<Rightarrow> 'r Server \<Rightarrow> 'r Server" where
  "receive data peer s =
     (if length (s_packetCh s) < 1048576 then s\<lparr>s_packetCh := s_packetCh s @ [(data, peer)]\<rparr>
      else s\<lparr>s_Dropped := s_Dropped s + 1\<rparr>)"

definition readLoop_step :: "bytes \<Rightarrow> (string \<times> string) \<Rightarrow> 'r Server \<Rightarrow> 'r Server" where
  "readLoop_step data addr s =
     receive data \<lparr>p_Addr = Some addr, p_Conn = None, p_Quic = None, p_Stream = None\<rparr>
       (s\<lparr>s_PacketCount := s_PacketCount s + 1, s_ByteCount := s_ByteCount s + int (length data)\<rparr>)"

definition dtls_step :: "bytes \<Rightarrow> (string \<times> string) option \<Rightarrow> nat \<Rightarrow> 'r Server \<Rightarrow> 'r Server" where
  "dtls_step data addr conn s =
     (if length data < 2 then s
      else receive data \<lparr>p_Addr = addr, p_Conn = Some conn, p_Quic = None, p_Stream = None\<rparr>
             (s\<lparr>s_PacketCount := s_PacketCount s + 1, s_ByteCount := s_ByteCount s + int (length data)\<rparr>))"

lemma ReadFull_rest: "ReadFull r n = Inr (xs, r') \<Longrightarrow> length r' + n = length r"
  by (auto simp: ReadFull_eq_Inr)

text \<open>Every frame read takes at least its length byte off the stream.\<close>

lemma readMQTTFrame_shorter: "readMQTTFrame r = Inr (frame, rest) \<Longrightarrow> length rest < length r"
  by (auto simp: readMQTTFrame_def frame_rest_def bind_r_eq_Inr dest!: ReadFull_rest split: if_splits prod.splits)

text \<open>
  One turn of the read loop of a QUIC stream: the frame is queued and the loop goes on with the rest
  of the stream, or the stream has failed and its device goes offline.
\<close>

definition quic_stream_step :: "'r Env \<Rightarrow> string list \<Rightarrow> Peer \<Rightarrow> nat \<Rightarrow> bytes \<Rightarrow> 'r Server \<Rightarrow> bytes option \<times> 'r Server" where
  "quic_stream_step e order peer stream r s =
     (case readMQTTFrame r of
        Inl _ \<Rightarrow> (None, dropDeviceByStream e order stream s)
      | Inr (frame, rest) \<Rightarrow> (Some rest, receive frame peer s))"

lemma quic_stream_step_shorter:
  "quic_stream_step e order peer stream r s = (Some rest, s') \<Longrightarrow> length rest < length r"
  by (auto simp: quic_stream_step_def dest: readMQTTFrame_shorter split: sum.splits)

text \<open>The loop over the bytes the stream delivers before it ends, with nothing in between.\<close>

function handleQUICStream :: "'r Env \<Rightarrow> string list \<Rightarrow> Peer \<Rightarrow> nat \<Rightarrow> bytes \<Rightarrow> 'r Server \<Rightarrow> 'r Server" where
  "handleQUICStream e order peer stream r s =
     (case quic_stream_step e order peer stream r s of
        (None, s') \<Rightarrow> s'
      | (Some rest, s') \<Rightarrow> handleQUICStream e order peer stream rest s')"
  by pat_completeness auto
termination
  by (relation "measure (\<lambda>(_, _, _, _, r, _). length r)") (auto dest: quic_stream_step_shorter [OF sym])

declare handleQUICStream.simps [simp del]

text \<open>A QUIC connection serves its streams one after the other and drops its device when it ends.\<close>

fun handleQUICConn :: "'r Env \<Rightarrow> string list \<Rightarrow> nat \<Rightarrow> (string \<times> string) \<Rightarrow> (nat \<times> bytes) list \<Rightarrow> 'r Server \<Rightarrow> 'r Server" where
  "handleQUICConn e order conn addr [] s = dropDeviceByConn e order conn s"
| "handleQUICConn e order conn addr ((stream, r) # streams) s =
     handleQUICConn e order conn addr streams
       (handleQUICStream e order \<lparr>p_Addr = Some addr, p_Conn = None, p_Quic = Some conn, p_Stream = Some stream\<rparr> stream r s)"

text \<open>A DTLS connection: the datagrams read, then the drop.\<close>

fun handleDTLSConn :: "'r Env \<Rightarrow> string list \<Rightarrow> nat \<Rightarrow> (string \<times> string) \<Rightarrow> bytes list \<Rightarrow> 'r Server \<Rightarrow> 'r Server" where
  "handleDTLSConn e order conn addr [] s = dropDeviceByConn e order conn s"
| "handleDTLSConn e order conn addr (data # datas) s =
     handleDTLSConn e order conn addr datas (dtls_step data (Some addr) conn s)"

definition workerLoop_step :: "'r Env \<Rightarrow> string list \<Rightarrow> 'r Server \<Rightarrow> 'r Server" where
  "workerLoop_step e order s =
     (case s_packetCh s of
        [] \<Rightarrow> s
      | (data, peer) # ch \<Rightarrow> HandlePacket e order data peer (s\<lparr>s_packetCh := ch\<rparr>))"

definition async_step :: "'r Env \<Rightarrow> 'r Server \<Rightarrow> 'r Server" where
  "async_step e s =
     (case s_AsyncRedis s of
        [] \<Rightarrow> s
      | work # rest \<Rightarrow> asyncRedisWork e work (s\<lparr>s_AsyncRedis := rest\<rparr>))"

definition cmdTrigger_step :: "'r Env \<Rightarrow> CmdTrigger \<Rightarrow> 'r Server \<Rightarrow> 'r Server" where
  "cmdTrigger_step e trig s = dispatchPendingCommands e (trig_DeviceID trig) s"

definition ipLimiterCleanup_tick :: "'r Env \<Rightarrow> 'r Server \<Rightarrow> 'r Server" where
  "ipLimiterCleanup_tick e s = s\<lparr>s_IPLimiter := Cleanup (e_now e) (s_IPLimiter s)\<rparr>"

text \<open>
  Starting: the outcome of resolving and binding the address is an argument; the result is the
  number of workers and which of the DTLS and QUIC listeners are started.
\<close>

definition worker_count :: "IoTConfig \<Rightarrow> int" where
  "worker_count cfg =
     (let w = (if iot_WorkerCount cfg \<le> 0 then 64 else iot_WorkerCount cfg) in if w < 4 then 4 else w)"

definition Start :: "'r Env \<Rightarrow> unit result \<Rightarrow> unit result \<Rightarrow> IoTConfig \<Rightarrow> 'r Server \<Rightarrow> (int \<times> bool \<times> bool) result \<times> 'r Server" where
  "Start e resolve listen cfg s =
     (let addr = iot_Host cfg @ '':'' @ show_int (iot_Port cfg) in
      case resolve of
        Inl er \<Rightarrow> (Inl (wrap_error ''failed to resolve UDP addr: '' er), s)
      | Inr _ \<Rightarrow>
          (case listen of
             Inl er \<Rightarrow> (Inl (wrap_error ''failed to listen UDP: '' er), s)
           | Inr _ \<Rightarrow>
               (Inr (worker_count cfg,
                     iot_DTLSEnabled cfg \<and> iot_DTLSPort cfg > 0 \<and> iot_DTLSPort cfg \<noteq> iot_Port cfg,
                     iot_QUICEnabled cfg \<and> iot_QUICPort cfg > 0),
                with_redis (RegisterGateway (e_ops e) (e_js e) (unix e) (s_ID s) ''iot'' addr) s)))"

definition Stop :: "'r Env \<Rightarrow> string list \<Rightarrow> 'r Server \<Rightarrow> 'r Server" where
  "Stop e order s = with_redis (UnregisterGateway (e_ops e) (s_ID s)) (mark_all_offline e order s)"

definition NewServer :: "(bytes \<Rightarrow> bytes) \<Rightarrow> Config \<Rightarrow> string list \<Rightarrow> string \<Rightarrow> int \<Rightarrow> 'r RedisState \<Rightarrow> IoTEvent MQ \<Rightarrow> 'r Server" where
  "NewServer sha256 cfg order serverID now g mq =
     \<lparr>s_ID = serverID, s_PSKStore = load_psks sha256 (auth_PSKDevices (cfg_Auth cfg)) order NewPSKStore,
      s_DefaultPSK = default_psk sha256 (cfg_IoT cfg), s_devices = Map.empty, s_sessions = Map.empty,
      s_byDevice = Map.empty,
      s_Metrics = \<lparr>PacketsReceived = 0, PacketsSent = 0, BytesReceived = 0, BytesSent = 0, ConnectCount = 0,
                   DisconnectCount = 0, PublishCount = 0, SubscribeCount = 0, ErrorCount = 0\<rparr>,
      s_Shadow = NewManager (cfg_Shadow cfg), s_CmdQueue = NewQueue (cfg_Shadow cfg),
      s_ConnectLimiter = NewConnectLimiter now (rl_ConnectRate (cfg_RateLimit cfg)) (rl_ConnectBurst (cfg_RateLimit cfg))
        (rl_Enabled (cfg_RateLimit cfg)),
      s_IPLimiter = NewIPLimiter (rl_UDPPerIPRate (cfg_RateLimit cfg)) (rl_UDPPerIPBurst (cfg_RateLimit cfg))
        (rl_Enabled (cfg_RateLimit cfg)),
      s_redis = g, s_mq = mq, s_packetCh = [], s_Dropped = 0, s_PacketCount = 0, s_ByteCount = 0,
      s_AsyncRedis = [], s_writes = []\<rparr>"

end
