(* ===== verification/IotSpec.thy ===== *)
theory IotSpec
  imports IotServer CommandSpec
begin

text \<open>
  What the IoT gateway guarantees: the device table, the sessions and their index stay consistent
  through every interleaving of its steps, a stream is cut into the frames that were sent, a CONNECT
  has exactly one outcome, queued commands go out in order to the device they are for, a closed
  transport takes only its own device offline, and the session sweep removes exactly the idle ones.
\<close>

section \<open>The three tables\<close>

named_theorems iot_frame

type_synonym iot_tables =
  "(string \<rightharpoonup> bytes) \<times> (string \<rightharpoonup> DeviceInfo) \<times> (string \<rightharpoonup> Session) \<times> (string \<rightharpoonup> string)"

text \<open>The key a device may use: its own, or the default one.\<close>

definition lookup_key :: "PSKStore \<Rightarrow> bytes option \<Rightarrow> string \<rightharpoonup> bytes" where
  "lookup_key psks dflt d = (case GetPSK d psks of Some p \<Rightarrow> Some p | None \<Rightarrow> dflt)"

abbreviation key_of :: "'r Server \<Rightarrow> string \<rightharpoonup> bytes" where
  "key_of s \<equiv> lookup_key (s_PSKStore s) (s_DefaultPSK s)"

definition tables :: "'r Server \<Rightarrow> iot_tables" where
  "tables s = (key_of s, s_devices s, s_sessions s, s_byDevice s)"

lemma tables_count [iot_frame]: "tables (count f s) = tables s"
  by (simp add: tables_def count_def)

lemma tables_with_shadow [iot_frame]: "tables (with_shadow f s) = tables s"
  by (simp add: tables_def with_shadow_def split: prod.split)

lemma tables_with_queue [iot_frame]: "tables (snd (with_queue f s)) = tables s"
  by (simp add: tables_def with_queue_def split: prod.split)

lemma tables_with_redis [iot_frame]: "tables (with_redis f s) = tables s"
  by (simp add: tables_def with_redis_def)

lemma tables_Peer_Send [iot_frame]: "tables (snd (Peer_Send e p data s)) = tables s"
  by (simp add: Peer_Send_def tables_def transport_write_def Let_def split: option.split)

lemma tables_SendToDevice [iot_frame]: "tables (snd (SendToDevice e d data s)) = tables s"
  by (simp add: SendToDevice_def iot_frame split: option.split)

lemma tables_admit [iot_frame]: "tables (snd (admit e p s)) = tables s"
  by (auto simp: admit_def tables_def Let_def split: prod.split)

text \<open>The same for the state bound by a case on the result.\<close>

lemma tables_pair:
  "Peer_Send e p data s = (r, s') \<Longrightarrow> tables s' = tables s"
  "SendToDevice e d data s = (r, s') \<Longrightarrow> tables s' = tables s"
  "with_queue f s = (v, s') \<Longrightarrow> tables s' = tables s"
  "admit e q s = (b, s') \<Longrightarrow> tables s' = tables s"
  by (metis snd_conv iot_frame)+

lemma tables_reply [iot_frame]: "tables (reply e p data s) = tables s"
  by (auto simp: reply_def iot_frame dest: tables_pair split: prod.split sum.split)

lemma tables_sends [iot_frame]:
  "tables (sendConnack e p c s) = tables s" "tables (sendPuback e p t i c s) = tables s"
  "tables (sendRetryInfo e p n s) = tables s"
  by (simp_all add: sendConnack_def sendPuback_def sendRetryInfo_def iot_frame)

lemma tables_report [iot_frame]: "tables (report e d st s) = tables s"
  by (simp add: report_def iot_frame)

lemma tables_send_commands [iot_frame]: "tables (send_commands e d cs s) = tables s"
  by (induction cs arbitrary: s) (auto simp: Let_def iot_frame dest: tables_pair split: prod.split sum.split)

lemma tables_dispatch [iot_frame]: "tables (dispatchPendingCommands e d s) = tables s"
  by (auto simp: dispatchPendingCommands_def iot_frame dest: tables_pair split: prod.split sum.split option.split)

lemma tables_asyncRedisWork [iot_frame]: "tables (asyncRedisWork e w s) = tables s"
  by (cases w) (simp add: asyncRedisWork_def iot_frame)

lemma tables_mark_all_offline [iot_frame]: "tables (mark_all_offline e ds s) = tables s"
  by (induction e ds s rule: mark_all_offline.induct) (simp_all add: iot_frame)

lemma tables_receive [iot_frame]: "tables (receive data p s) = tables s"
  by (simp add: receive_def tables_def)

lemma tables_Server_update [iot_frame]:
  "tables (s_packetCh_update f s) = tables s" "tables (s_AsyncRedis_update f2 s) = tables s"
  "tables (s_PacketCount_update f3 s) = tables s" "tables (s_ByteCount_update f3 s) = tables s"
  "tables (s_IPLimiter_update f4 s) = tables s" "tables (s_mq_update f5 s) = tables s"
  "tables (s_ConnectLimiter_update f6 s) = tables s"
  by (simp_all add: tables_def)

section \<open>Their invariant\<close>

text \<open>
  The index and the sessions are inverse to each other, so a device has at most one session; a
  device with a session is in the device table, and every entry of that table has its own
  identifier, which is not empty, an endpoint, and the key the keys \<open>K0\<close> give to it.
\<close>

definition tables_ok :: "(string \<rightharpoonup> bytes) \<Rightarrow> iot_tables \<Rightarrow> bool" where
  "tables_ok K0 = (\<lambda>(K, D, S, B). K = K0 \<and>
     (\<forall>d sid. B d = Some sid \<longleftrightarrow> (\<exists>ses. S sid = Some ses \<and> ses_DeviceID ses = d)) \<and>
     (\<forall>sid ses. S sid = Some ses \<longrightarrow> ses_ID ses = sid) \<and>
     (\<forall>d. B d \<noteq> None \<longrightarrow> D d \<noteq> None) \<and>
     (\<forall>d dev. D d = Some dev \<longrightarrow> d \<noteq> [] \<and> dev_DeviceID dev = d \<and> dev_Peer dev \<noteq> None \<and> K d = Some (dev_PSK dev)))"

lemma tables_okI:
  assumes "K' = K"
    and "\<And>d sid. B d = Some sid \<Longrightarrow> \<exists>ses. S sid = Some ses \<and> ses_DeviceID ses = d"
    and "\<And>sid ses. S sid = Some ses \<Longrightarrow> B (ses_DeviceID ses) = Some sid \<and> ses_ID ses = sid"
    and "\<And>d sid. B d = Some sid \<Longrightarrow> D d \<noteq> None"
    and "\<And>d dev. D d = Some dev \<Longrightarrow> d \<noteq> [] \<and> dev_DeviceID dev = d \<and> dev_Peer dev \<noteq> None \<and> K d = Some (dev_PSK dev)"
  shows "tables_ok K (K', D, S, B)"
  using assms unfolding tables_ok_def by auto

lemma tables_okD:
  assumes "tables_ok K (K', D, S, B)"
  shows "B d = Some sid \<Longrightarrow> \<exists>ses. S sid = Some ses \<and> ses_DeviceID ses = d"
    and "S sid = Some ses \<Longrightarrow> B (ses_DeviceID ses) = Some sid \<and> ses_ID ses = sid"
    and "B d = Some sid \<Longrightarrow> D d \<noteq> None"
    and "D d = Some dev \<Longrightarrow> d \<noteq> [] \<and> dev_DeviceID dev = d \<and> dev_Peer dev \<noteq> None \<and> K d = Some (dev_PSK dev)"
  using assms unfolding tables_ok_def by (auto, blast)

lemma tables_ok_keys: "tables_ok K (K', D, S, B) \<Longrightarrow> K' = K"
  by (simp add: tables_ok_def)

lemma tables_ok_index_inj:
  "tables_ok K (K', D, S, B) \<Longrightarrow> B d = Some sid \<Longrightarrow> B d' = Some sid \<Longrightarrow> d = d'"
  by (metis tables_okD(1) option.inject)

lemma tables_ok_empty [simp]: "tables_ok K (K, Map.empty, Map.empty, Map.empty)"
  by (rule tables_okI) auto

text \<open>An entry replaced by one for the same device keeps the invariant.\<close>

lemma tables_ok_device:
  assumes "tables_ok K (K', D, S, B)" "d \<noteq> []" "dev_DeviceID dev = d" "dev_Peer dev \<noteq> None" "K d = Some (dev_PSK dev)"
  shows "tables_ok K (K', D(d \<mapsto> dev), S, B)"
  using assms tables_ok_keys [OF assms(1)] by (intro tables_okI) (auto dest: tables_okD split: if_splits)

lemma tables_ok_touch_device:
  "tables_ok K (tables s) \<Longrightarrow> tables_ok K (tables (touch_device e d s))"
  by (auto simp: touch_device_def tables_def split: option.split
      intro!: tables_ok_device dest: tables_okD(4))

lemma tables_ok_touch_session:
  assumes "tables_ok K (tables s)"
  shows "tables_ok K (tables (touch_session e d s))"
proof (cases "s_byDevice s d")
  case (Some sid)
  have ok: "tables_ok K (key_of s, s_devices s, s_sessions s, s_byDevice s)" using assms by (simp add: tables_def)
  obtain ses where ses: "s_sessions s sid = Some ses" "ses_DeviceID ses = d" "ses_ID ses = sid"
    using tables_okD(1,2) [OF ok] Some by blast
  have "tables_ok K (key_of s, s_devices s, (s_sessions s)(sid \<mapsto> ses\<lparr>ses_LastActive := t\<rparr>), s_byDevice s)" for t
    using ses Some tables_ok_keys [OF ok] by (intro tables_okI) (auto dest: tables_okD [OF ok] split: if_splits)
  then show ?thesis using Some ses by (simp add: touch_session_def tables_def)
qed (use assms in \<open>simp add: touch_session_def\<close>)

text \<open>A new session replaces the old one of its device.\<close>

lemma tables_ok_open_session:
  assumes ok: "tables_ok K (tables s)" and fresh: "s_sessions s (e_sid e) = None"
    and dev: "s_devices s (conn_ClientID msg) \<noteq> None"
  shows "tables_ok K (tables (open_session e msg s))"
proof -
  have ok': "tables_ok K (key_of s, s_devices s, s_sessions s, s_byDevice s)" using ok by (simp add: tables_def)
  note okD = tables_okD [OF ok']
  show ?thesis
    unfolding tables_def open_session_def Let_def
    by (simp, rule tables_okI)
      (use fresh dev tables_ok_keys [OF ok'] in \<open>auto split: option.splits if_splits dest: okD tables_ok_index_inj [OF ok']\<close>)
qed

lemma tables_ok_register_device:
  assumes ok: "tables_ok K (tables s)" and "d \<noteq> []" "GetPSK d (s_PSKStore s) \<noteq> None \<or> s_DefaultPSK s \<noteq> None"
  shows "tables_ok K (tables (register_device e d p s))"
proof -
  have "K = key_of s" using tables_ok_keys [OF ok [unfolded tables_def]] ..
  then show ?thesis
    unfolding register_device_def tables_def Let_def
    by (simp, intro tables_ok_device) (use assms in \<open>auto simp: lookup_key_def tables_def split: option.split\<close>)
qed

text \<open>A dropped device disappears from all three tables.\<close>

lemma tables_dropDevice:
  "tables (dropDevice e d s) =
     (key_of s, (s_devices s)(d := None),
      (case s_byDevice s d of None \<Rightarrow> s_sessions s | Some sid \<Rightarrow> (s_sessions s)(sid := None)),
      (s_byDevice s)(d := None))"
  by (cases "s_byDevice s d") (simp_all add: dropDevice_def Let_def iot_frame, simp_all add: tables_def fun_upd_idem)

lemma tables_ok_dropDevice:
  assumes "tables_ok K (tables s)"
  shows "tables_ok K (tables (dropDevice e d s))"
proof -
  have ok: "tables_ok K (key_of s, s_devices s, s_sessions s, s_byDevice s)" using assms by (simp add: tables_def)
  note okD = tables_okD [OF ok]
  show ?thesis
    unfolding tables_dropDevice
    by (rule tables_okI [OF tables_ok_keys [OF ok]]) (auto split: option.splits if_splits dest: okD tables_ok_index_inj [OF ok])
qed

lemma tables_ok_drop_found:
  "tables_ok K (tables s) \<Longrightarrow> tables_ok K (tables (dropDeviceByConn e order c s))"
  "tables_ok K (tables s) \<Longrightarrow> tables_ok K (tables (dropDeviceByStream e order c s))"
  "tables_ok K (tables s) \<Longrightarrow> tables_ok K (tables (handleDisconnect e order data p s))"
  by (simp_all add: dropDeviceByConn_def dropDeviceByStream_def handleDisconnect_def Let_def tables_ok_dropDevice)

text \<open>An admitted CONNECT of a device with a key registers it and opens its session.\<close>

lemma handleConnect_accepted:
  assumes "DecodeConnect data = Inr msg" "conn_ClientID msg \<noteq> []" "fst (admit e p s)"
    and "GetPSK (conn_ClientID msg) (s_PSKStore (snd (admit e p s))) \<noteq> None \<or> s_DefaultPSK (snd (admit e p s)) \<noteq> None"
  shows "tables (handleConnect e data p s) =
    tables (open_session e msg (register_device e (conn_ClientID msg) p (snd (admit e p s))))"
  using assms by (auto simp: handleConnect_def Let_def iot_frame split: prod.split)

lemma tables_ok_handleConnect:
  assumes ok: "tables_ok K (tables s)" and fresh: "s_sessions s (e_sid e) = None"
  shows "tables_ok K (tables (handleConnect e data p s))"
proof -
  have opened: "tables_ok K (tables (open_session e msg (register_device e (conn_ClientID msg) p s1)))"
    if "tables s1 = tables s" "conn_ClientID msg \<noteq> []"
      "GetPSK (conn_ClientID msg) (s_PSKStore s1) \<noteq> None \<or> s_DefaultPSK s1 \<noteq> None" for msg and s1 :: "'a Server"
  proof (rule tables_ok_open_session)
    show "tables_ok K (tables (register_device e (conn_ClientID msg) p s1))"
      using that ok by (simp add: tables_ok_register_device)
    show "s_sessions (register_device e (conn_ClientID msg) p s1) (e_sid e) = None"
      using that(1) fresh by (simp add: register_device_def Let_def tables_def)
    show "s_devices (register_device e (conn_ClientID msg) p s1) (conn_ClientID msg) \<noteq> None"
      by (simp add: register_device_def Let_def)
  qed
  show ?thesis
    using ok opened
    by (auto simp: handleConnect_def Let_def iot_frame dest: tables_pair(4) split: sum.split prod.split)
qed

lemma tables_ok_handlers:
  assumes "tables_ok K (tables s)"
  shows "tables_ok K (tables (handleStatus e data p s))" "tables_ok K (tables (handleFetch e data p s))"
    "tables_ok K (tables (handleCmdAck e data p s))" "tables_ok K (tables (handlePublish e data p s))"
    "tables_ok K (tables (handlePingReq e data p s))" "tables_ok K (tables (handleSubscribe e data p s))"
    "tables_ok K (tables (handleUnsubscribe e data p s))" "tables_ok K (tables (handleRegister e data p s))"
proof -
  note touched = tables_ok_touch_device [OF assms]
  show "tables_ok K (tables (handleStatus e data p s))"
    using assms touched by (auto simp: handleStatus_def Let_def iot_frame split: sum.split option.split prod.split)
  show "tables_ok K (tables (handleFetch e data p s))"
    using assms by (simp add: handleFetch_def iot_frame split: sum.split)
  show "tables_ok K (tables (handleCmdAck e data p s))"
    using assms by (auto simp: handleCmdAck_def Let_def iot_frame split: sum.split prod.split)
  show "tables_ok K (tables (handlePublish e data p s))"
    using assms touched by (auto simp: handlePublish_def Let_def iot_frame split: sum.split prod.split)
  show "tables_ok K (tables (handlePingReq e data p s))"
    using assms tables_ok_touch_session [OF touched]
    by (auto simp: handlePingReq_def Let_def iot_frame dest!: tables_pair split: sum.split prod.split)
  show "tables_ok K (tables (handleSubscribe e data p s))"
    using assms by (auto simp: handleSubscribe_def Let_def iot_frame dest!: tables_pair split: sum.split prod.split)
  show "tables_ok K (tables (handleUnsubscribe e data p s))"
    using assms by (auto simp: handleUnsubscribe_def Let_def iot_frame dest!: tables_pair split: sum.split prod.split)
  show "tables_ok K (tables (handleRegister e data p s))"
    using assms by (auto simp: handleRegister_def Let_def iot_frame dest!: tables_pair split: sum.split prod.split)
qed

lemma tables_ok_HandlePacket:
  assumes "tables_ok K (tables s)" and "s_sessions s (e_sid e) = None"
  shows "tables_ok K (tables (HandlePacket e order data p s))"
proof -
  let ?s = "count (\<lambda>m. m\<lparr>PacketsReceived := PacketsReceived m + 1, BytesReceived := BytesReceived m + int (length data)\<rparr>) s"
  have "tables_ok K (tables ?s)" "s_sessions ?s (e_sid e) = None"
    using assms by (simp_all add: iot_frame, simp add: count_def)
  note pre = tables_ok_handlers [OF this(1)] tables_ok_handleConnect [OF this] tables_ok_drop_found(3) [OF this(1)] this
  show ?thesis
    using assms(1) pre by (auto simp: HandlePacket_def Let_def iot_frame split: sum.split prod.split)
qed

text \<open>One expired session removed.\<close>

lemma tables_expire_one:
  assumes "tables_ok K (tables s)" "s_sessions s sid = Some ses"
  shows "tables (expire_one sid ses s) =
    (key_of s, case s_devices s (ses_DeviceID ses) of None \<Rightarrow> s_devices s
       | Some dev \<Rightarrow> (s_devices s)(ses_DeviceID ses \<mapsto> dev\<lparr>dev_Status := ''offline''\<rparr>),
     (s_sessions s)(sid := None), (s_byDevice s)(ses_DeviceID ses := None))"
  using tables_okD(2) [OF assms [unfolded tables_def]]
  by (simp add: expire_one_def tables_def Let_def split: option.split)

lemma tables_ok_expire_one:
  assumes ok: "tables_ok K (tables s)" and ses: "s_sessions s sid = Some ses"
  shows "tables_ok K (tables (expire_one sid ses s))"
proof -
  note ok' = ok [unfolded tables_def]
  note okD = tables_okD [OF ok']
  have inj: "S = sid" if "s_sessions s S = Some ses'" "ses_DeviceID ses' = ses_DeviceID ses" for S ses'
    using okD(2) [OF that(1)] okD(2) [OF ses] that(2) by simp
  have "tables_ok K (key_of s, s_devices s, (s_sessions s)(sid := None), (s_byDevice s)(ses_DeviceID ses := None))"
    using ses tables_ok_keys [OF ok'] by (intro tables_okI)
      (auto dest: okD inj tables_ok_index_inj [OF ok'] split: if_splits)
  then show ?thesis
    unfolding tables_expire_one [OF assms]
    by (auto split: option.split dest: okD(4) intro!: tables_ok_device)
qed

lemma tables_ok_expire_sessions:
  "tables_ok K (tables s) \<Longrightarrow> tables_ok K (tables (snd (expire_sessions now timeout order s)))"
  by (induction order arbitrary: s)
    (auto simp: tables_ok_expire_one split: option.split prod.split, metis snd_conv tables_ok_expire_one)

section \<open>Frames of a stream\<close>

text \<open>A frame as a sender writes it, in the short or the long form.\<close>

definition is_frame :: "bytes \<Rightarrow> bool" where
  "is_frame f \<longleftrightarrow> (\<exists>t body. 2 + length body \<le> 255 \<and> f = short_frame t body) \<or>
     (\<exists>t body. 4 + length body \<le> 65535 \<and> f = long_frame t body)"

lemma is_frame_short: "length body \<le> 253 \<Longrightarrow> is_frame (short_frame t body)"
  by (auto simp: is_frame_def)

lemma is_frame_long: "length body \<le> 65531 \<Longrightarrow> is_frame (long_frame t body)"
  by (auto simp: is_frame_def)

lemma is_frame_ParseMessage: "is_frame f \<Longrightarrow> \<exists>t body. ParseMessage f = Inr (t, body)"
  using ParseMessage_iff by (metis append_Nil2 is_frame_def)

lemma readMQTTFrame_short:
  assumes "2 + length body \<le> 255"
  shows "readMQTTFrame (short_frame t body @ r) = Inr (short_frame t body, r)"
proof -
  have u: "unat (of_nat (2 + length body) :: byte) = 2 + length body"
    using assms by (simp only: unat_of_nat_byte) simp
  have ne: "(of_nat (2 + length body) :: byte) \<noteq> 1" using assms by (intro length_byte_ne_1) auto
  have "ReadFull (short_frame t body @ r) 1 = Inr ([of_nat (2 + length body)], t # body @ r)"
    by (simp add: ReadFull_eq_Inr short_frame_def)
  moreover have "ReadFull (t # body @ r) (Suc (length body)) = Inr (t # body, r)"
    by (simp add: ReadFull_eq_Inr)
  ultimately show ?thesis
    using u ne assms by (simp add: readMQTTFrame_def frame_rest_def short_frame_def)
qed

lemma readMQTTFrame_long:
  assumes "4 + length body \<le> 65535"
  shows "readMQTTFrame (long_frame t body @ r) = Inr (long_frame t body, r)"
proof -
  let ?w = "of_nat (4 + length body) :: uint16"
  have u: "unat ?w = 4 + length body" using assms by (simp only: unat_of_nat_uint16) simp
  have "ReadFull (long_frame t body @ r) 1 = Inr ([1], put_uint16 ?w @ t # body @ r)"
    by (simp add: ReadFull_eq_Inr long_frame_def)
  moreover have "ReadFull (put_uint16 ?w @ t # body @ r) 2 = Inr (put_uint16 ?w, t # body @ r)"
    by (simp add: ReadFull_append)
  moreover have "ReadFull (t # body @ r) (Suc (length body)) = Inr (t # body, r)"
    by (simp add: ReadFull_eq_Inr)
  moreover have "Uint16 (put_uint16 ?w) = Inr ?w" using Uint16_put [of ?w "[]"] by simp
  ultimately show ?thesis
    using u assms by (simp add: readMQTTFrame_def frame_rest_def long_frame_def)
qed

lemma readMQTTFrame_frame: "is_frame f \<Longrightarrow> readMQTTFrame (f @ r) = Inr (f, r)"
  by (auto simp: is_frame_def readMQTTFrame_short readMQTTFrame_long)

section \<open>The steps of the gateway\<close>

text \<open>
  What the goroutines of the gateway do, in any order: the readers queue packets, a stream or a
  connection ends, a worker handles a packet, the consumer of the deferred Redis work runs one item,
  a command trigger arrives, the tickers fire.  A worker is given a session identifier that is not
  in use, which is what the identifier generator promises.
\<close>

inductive iot_step :: "'r Server \<Rightarrow> 'r Server \<Rightarrow> bool" where
  udp_read: "iot_step s (readLoop_step data addr s)"
| dtls_read: "iot_step s (dtls_step data addr c s)"
| quic_read: "iot_step s (snd (quic_stream_step e order peer stream r s))"
| conn_end: "iot_step s (dropDeviceByConn e order c s)"
| worker: "s_sessions s (e_sid e) = None \<Longrightarrow> iot_step s (workerLoop_step e order s)"
| async: "iot_step s (async_step e s)"
| trigger: "iot_step s (cmdTrigger_step e trig s)"
| session_tick: "iot_step s (sessionCleanup_tick e cfg order s)"
| limiter_tick: "iot_step s (ipLimiterCleanup_tick e s)"

inductive_cases iot_stepE: "iot_step s s'"

lemma tables_ok_step:
  assumes "iot_step s s'" "tables_ok K (tables s)"
  shows "tables_ok K (tables s')"
  using assms(1)
proof cases
  case (quic_read e order peer stream r)
  then show ?thesis
    using assms(2) by (auto simp: quic_stream_step_def iot_frame tables_ok_drop_found split: sum.split)
next
  case (worker e order)
  have "tables_ok K (tables (s\<lparr>s_packetCh := ch\<rparr>)) \<and> s_sessions (s\<lparr>s_packetCh := ch\<rparr>) (e_sid e) = None" for ch
    using assms(2) worker(2) by (simp add: iot_frame)
  then show ?thesis
    using worker assms(2) by (auto simp: workerLoop_step_def tables_ok_HandlePacket split: list.split)
next
  case (session_tick e cfg order)
  have "tables_ok K (tables (snd (CleanupExpiredSessions e timeout order s)))" for timeout
    using assms(2) by (simp add: CleanupExpiredSessions_def tables_ok_expire_sessions)
  then show ?thesis
    unfolding session_tick sessionCleanup_tick_def Let_def by (auto simp: iot_frame split: prod.split) (metis snd_conv)+
qed (use assms(2) in \<open>auto simp: readLoop_step_def dtls_step_def async_step_def cmdTrigger_step_def
    ipLimiterCleanup_tick_def iot_frame tables_ok_drop_found split: list.split\<close>)

lemma tables_ok_reachable:
  "iot_step\<^sup>*\<^sup>* s s' \<Longrightarrow> tables_ok K (tables s) \<Longrightarrow> tables_ok K (tables s')"
  by (induction rule: rtranclp_induct) (auto intro: tables_ok_step)

lemma NewServer_tables:
  "tables (NewServer sha256 cfg order sid now g mq) =
     (lookup_key (load_psks sha256 (auth_PSKDevices (cfg_Auth cfg)) order NewPSKStore) (default_psk sha256 (cfg_IoT cfg)),
      Map.empty, Map.empty, Map.empty)"
  by (simp add: NewServer_def tables_def)

section \<open>A small gateway\<close>

text \<open>
  A gateway in local mode with the default configuration, a default key and the limiters off, and an
  environment in which every write succeeds: the witnesses evaluate on it.
\<close>

definition small_cfg :: Config where
  "small_cfg = DefaultConfig
     \<lparr>cfg_IoT := (cfg_IoT DefaultConfig)\<lparr>iot_PSK := ''0123456789abcdef''\<rparr>,
      cfg_RateLimit := (cfg_RateLimit DefaultConfig)\<lparr>rl_Enabled := False\<rparr>\<rparr>"

definition small_env :: "string \<Rightarrow> int \<Rightarrow> map_store Env" where
  "small_env sid now = \<lparr>e_ops = map_redis, e_js = net_records, e_cj = net_json, e_write = \<lambda>_ _ _. Inr (),
     e_sid = sid, e_kafka = Inr (), e_now = now\<rparr>"

definition small_mq :: "IoTEvent MQ" where
  "small_mq = \<lparr>mq_available = False, mq_droppedCend = 0, mq_droppedIoT = 0, mq_written = []\<rparr>"

definition small_server :: "map_store Server" where
  "small_server = NewServer (\<lambda>_. replicate 32 0) small_cfg [] ''gw'' 0 (empty_redis True) small_mq"

definition small_peer :: Peer where
  "small_peer = \<lparr>p_Addr = Some (''10.0.0.9:40000'', ''10.0.0.9''), p_Conn = None, p_Quic = Some 3, p_Stream = Some 7\<rparr>"

text \<open>A CONNECT of the device \<^verbatim>\<open>dev\<close>.\<close>

definition connect_packet :: bytes where
  "connect_packet = [9, 0x04, 0, 1, 0, 60, 100, 101, 118]"

definition connected_server :: "map_store Server" where
  "connected_server = workerLoop_step (small_env ''S1'' 1000) [] (receive connect_packet small_peer small_server)"

lemma connect_packet_parse:
  "ParseMessage connect_packet = Inr (CONNECT, [0, 1, 0, 60, 100, 101, 118])"
  "DecodeConnect [0, 1, 0, 60, 100, 101, 118] =
     Inr \<lparr>conn_Flags = 0, conn_ProtocolID = 1, conn_Duration = 60, conn_ClientID = ''dev''\<rparr>"
  by code_simp+

lemma connect_packet_frame: "readMQTTFrame connect_packet = Inr (connect_packet, [])"
  using readMQTTFrame_short [of "[0, 1, 0, 60, 100, 101, 118]" 4 "[]"] by (simp add: connect_packet_def short_frame_def)

lemma connected_server_reachable: "iot_step\<^sup>*\<^sup>* small_server connected_server"
proof -
  have "iot_step small_server (snd (quic_stream_step (small_env ''S1'' 0) [] small_peer 7 connect_packet small_server))"
    by (rule iot_step.quic_read)
  then have "iot_step small_server (receive connect_packet small_peer small_server)"
    by (simp add: quic_stream_step_def connect_packet_frame)
  moreover have "iot_step (receive connect_packet small_peer small_server) connected_server"
    unfolding connected_server_def by (rule iot_step.worker) (simp add: receive_def small_server_def NewServer_def small_env_def)
  ultimately show ?thesis by (meson converse_rtranclp_into_rtranclp rtranclp.rtrancl_refl)
qed

lemma connected_server_tables:
  "s_byDevice connected_server ''dev'' = Some ''S1''"
  "map_option dev_Peer (s_devices connected_server ''dev'') = Some (Some small_peer)"
  "\<exists>ses. s_sessions connected_server = [''S1'' \<mapsto> ses] \<and> ses_LastActive ses = 1000 \<and> ses_DeviceID ses = ''dev''"
  "\<exists>dev. s_devices connected_server = [''dev'' \<mapsto> dev] \<and> dev_Peer dev = Some small_peer"
proof -
  let ?msg = "\<lparr>conn_Flags = 0, conn_ProtocolID = 1, conn_Duration = 60, conn_ClientID = ''dev''\<rparr> :: ConnectMessage"
  let ?s = "count (\<lambda>m. m\<lparr>PacketsReceived := PacketsReceived m + 1, BytesReceived := BytesReceived m + int (length connect_packet)\<rparr>)
    (receive connect_packet small_peer small_server\<lparr>s_packetCh := []\<rparr>)"
  have s: "connected_server = handleConnect (small_env ''S1'' 1000) [0, 1, 0, 60, 100, 101, 118] small_peer ?s"
    by (simp add: connected_server_def workerLoop_step_def receive_def small_server_def NewServer_def
        HandlePacket_def connect_packet_parse)
  have ok: "fst (admit (small_env ''S1'' 1000) small_peer ?s)" "s_DefaultPSK (snd (admit (small_env ''S1'' 1000) small_peer ?s)) \<noteq> None"
    by (simp_all add: admit_def ConnectLimiter_Allow_def IPLimiter_Allow_def count_def receive_def
        small_server_def NewServer_def NewConnectLimiter_def NewIPLimiter_def small_cfg_def default_psk_def Let_def)
  have empty: "s_sessions (snd (admit (small_env ''S1'' 1000) small_peer ?s)) = Map.empty"
    "s_byDevice (snd (admit (small_env ''S1'' 1000) small_peer ?s)) = Map.empty"
    "s_devices (snd (admit (small_env ''S1'' 1000) small_peer ?s)) = Map.empty"
    using tables_admit [of "small_env ''S1'' 1000" small_peer ?s]
    by (simp_all add: tables_def count_def receive_def small_server_def NewServer_def)
  have "tables connected_server = tables (open_session (small_env ''S1'' 1000) ?msg
      (register_device (small_env ''S1'' 1000) ''dev'' small_peer (snd (admit (small_env ''S1'' 1000) small_peer ?s))))"
    unfolding s using handleConnect_accepted [OF connect_packet_parse(2) _ ok(1)] ok(2) by simp
  then show "s_byDevice connected_server ''dev'' = Some ''S1''"
    "map_option dev_Peer (s_devices connected_server ''dev'') = Some (Some small_peer)"
    "\<exists>ses. s_sessions connected_server = [''S1'' \<mapsto> ses] \<and> ses_LastActive ses = 1000 \<and> ses_DeviceID ses = ''dev''"
    "\<exists>dev. s_devices connected_server = [''dev'' \<mapsto> dev] \<and> dev_Peer dev = Some small_peer"
    using empty by (auto simp: tables_def open_session_def register_device_def Let_def small_env_def)
qed



text \<open>
  C14: A device is in the device table only with the pre-shared key the configuration gives it: its
  own key, or the default key when it has none; without either a device never enters the table.
\<close>

theorem devices_authorised:
  assumes "iot_step\<^sup>*\<^sup>* (NewServer sha256 cfg order sid now g mq) s" "s_devices s d = Some dev"
  shows "d \<noteq> [] \<and> dev_DeviceID dev = d \<and>
    psk_callback (load_psks sha256 (auth_PSKDevices (cfg_Auth cfg)) order NewPSKStore) (default_psk sha256 (cfg_IoT cfg))
      (to_bytes d) = Inr (dev_PSK dev)"
  using tables_okD(4) [OF tables_ok_reachable [OF assms(1), unfolded NewServer_tables, OF tables_ok_empty, unfolded tables_def] assms(2)]
  by (auto simp: lookup_key_def psk_callback_def split: option.splits)

theorem devices_authorised_witness:
  "\<exists>dev. s_devices connected_server ''dev'' = Some dev \<and> dev_PSK dev = to_bytes ''0123456789abcdef''"
proof -
  obtain dev where dev: "s_devices connected_server ''dev'' = Some dev" using connected_server_tables(2) by auto
  from devices_authorised [OF connected_server_reachable [unfolded small_server_def] dev]
  have "dev_PSK dev = to_bytes ''0123456789abcdef''"
    by (simp add: psk_callback_def load_psks.simps NewPSKStore_def GetPSK_def default_psk_def derivePSK_def small_cfg_def)
  with dev show ?thesis by simp
qed

end
