(* ===== verification/IotIO.thy ===== *)
theory IotIO
  imports IotSpec "HOL-Library.Sublist"
begin

text \<open>
  What the IoT gateway sends and receives: the frames a stream is cut into, the answers to a
  CONNECT and a PUBLISH, the commands a dispatch writes, and what the end of a transport and the
  session sweep take offline.
\<close>

section \<open>Transport writes\<close>

text \<open>The endpoint a peer's packets go to: its stream, its connection or its address.\<close>

definition peer_endpoint :: "Peer \<Rightarrow> endpoint option" where
  "peer_endpoint p = (if p_Quic p \<noteq> None then map_option QuicStream (p_Stream p)
     else Some (case p_Conn p of Some c \<Rightarrow> DtlsConn c | None \<Rightarrow> UdpAddr (p_Addr p)))"

definition write_ok :: "'r Env \<Rightarrow> 'r Server \<Rightarrow> endpoint \<Rightarrow> bytes \<Rightarrow> bool" where
  "write_ok e s ep data \<longleftrightarrow> e_write e (length (s_writes s)) ep data = Inr ()"

lemma Peer_Send_endpoint:
  "peer_endpoint p = Some ep \<Longrightarrow> Peer_Send e (Some p) data s = transport_write e ep data s"
  by (auto simp: Peer_Send_def peer_endpoint_def split: if_splits option.splits)

lemma writes_kept [simp]:
  "s_writes (count f s) = s_writes s" "s_writes (with_shadow f2 s) = s_writes s"
  "s_writes (snd (with_queue f3 s)) = s_writes s" "s_writes (with_redis f4 s) = s_writes s"
  "s_writes (register_device e d p s) = s_writes s" "s_writes (open_session e m s) = s_writes s"
  "s_writes (touch_device e d s) = s_writes s" "s_writes (touch_session e d s) = s_writes s"
  "s_writes (snd (admit e p s)) = s_writes s" "s_writes (report e d st s) = s_writes s"
  by (simp_all add: count_def with_shadow_def with_queue_def with_redis_def register_device_def open_session_def
      touch_device_def touch_session_def admit_def report_def Let_def split: prod.split option.split)

lemma writes_Peer_Send:
  "peer_endpoint p = Some ep \<Longrightarrow>
   s_writes (snd (Peer_Send e (Some p) data s)) = s_writes s @ [(ep, data, write_ok e s ep data)]"
  by (simp add: Peer_Send_endpoint transport_write_def write_ok_def Let_def)

lemma writes_reply:
  assumes "peer_endpoint p = Some ep"
  shows "s_writes (reply e p data s) = s_writes s @ [(ep, data, write_ok e s ep data)]"
  using writes_Peer_Send [OF assms, of e data s]
  by (auto simp: reply_def split: prod.split sum.split)

section \<open>Dispatching commands\<close>

definition cmd_frame :: "string \<Rightarrow> Command \<Rightarrow> bytes" where
  "cmd_frame d c = EncodeCmd d (cmd_CmdID c) (CmdTypeToByte (cmd_Type c)) (to_bytes (cmd_Params c))"

text \<open>Packets written one after the other until a write fails, starting with the n-th write.\<close>

fun attempts :: "'r Env \<Rightarrow> endpoint \<Rightarrow> nat \<Rightarrow> bytes list \<Rightarrow> (endpoint \<times> bytes \<times> bool) list" where
  "attempts e ep n [] = []"
| "attempts e ep n (m # ms) =
     (let ok = (e_write e n ep m = Inr ()) in (ep, m, ok) # (if ok then attempts e ep (Suc n) ms else []))"

lemma attempts_all_ok:
  "(\<And>k m. e_write e k ep m = Inr ()) \<Longrightarrow> attempts e ep n ms = map (\<lambda>m. (ep, m, True)) ms"
  by (induction ms arbitrary: n) auto

definition connected_at :: "'r Server \<Rightarrow> string \<Rightarrow> endpoint \<Rightarrow> bool" where
  "connected_at s d ep \<longleftrightarrow> (\<exists>dev p. s_devices s d = Some dev \<and> dev_Peer dev = Some p \<and> peer_endpoint p = Some ep)"

lemma connected_at_tables: "tables s = tables s' \<Longrightarrow> connected_at s d ep \<longleftrightarrow> connected_at s' d ep"
  by (simp add: connected_at_def tables_def)

lemma SendToDevice_connected:
  "connected_at s d ep \<Longrightarrow> SendToDevice e d data s = transport_write e ep data s"
  by (auto simp: connected_at_def SendToDevice_def Peer_Send_endpoint)

lemma writes_send_commands:
  "connected_at s d ep \<Longrightarrow>
   s_writes (send_commands e d cs s) = s_writes s @ attempts e ep (length (s_writes s)) (map (cmd_frame d) cs)"
proof (induction cs arbitrary: s)
  case (Cons c cs)
  let ?w = "snd (transport_write e ep (cmd_frame d c) s)"
  have w: "connected_at (count f ?w) d ep" "length (s_writes ?w) = Suc (length (s_writes s))" for f
    using Cons.prems by (simp_all add: connected_at_def transport_write_def count_def Let_def)
  show ?case
    using Cons.IH [OF w(1)] w(2)
    by (auto simp: SendToDevice_connected [OF Cons.prems] transport_write_def cmd_frame_def Let_def split: sum.split)
qed simp

text \<open>The queue the server shares with the command package, as the state of that package.\<close>

definition cmd_state :: "'r Env \<Rightarrow> 'r Server \<Rightarrow> 'r cmd_sys" where
  "cmd_state e s = (e_ops e, e_cj e, s_CmdQueue s, s_redis s)"

lemma writes_dispatch:
  assumes "connected_at s d ep" "fst (Fetch (e_ops e) (e_cj e) d 0 (s_CmdQueue s, s_redis s)) = Inr cs"
  shows "s_writes (dispatchPendingCommands e d s) =
    s_writes s @ attempts e ep (length (s_writes s)) (map (cmd_frame d) cs)"
proof -
  let ?f = "Fetch (e_ops e) (e_cj e) d 0"
  obtain dev where dev: "s_devices s d = Some dev" using assms(1) by (auto simp: connected_at_def)
  have fst: "fst (with_queue ?f s) = Inr cs"
    using assms(2) by (cases "?f (s_CmdQueue s, s_redis s)") (simp add: with_queue_def)
  have conn: "connected_at (snd (with_queue ?f s)) d ep"
    using assms(1) connected_at_tables [OF tables_with_queue, of ?f s d ep] by simp
  show ?thesis
    using dev fst writes_send_commands [OF conn, of e cs]
    by (auto simp: dispatchPendingCommands_def split: prod.splits)
qed

lemma Fetch_queue_ok:
  assumes "queue_ok (ops, js, q, g)"
  shows "fst (Fetch ops js d n (q, g)) = Inr (fst (fetch_op d n (ops, js, q, g)))"
  using assms
  by (auto simp: queue_ok_def local_queue_def redis_queue_def fetch_op_def Fetch_def IsLocalMode_def Let_def split: prod.split)

lemma cmd_state_kept:
  "cmd_state e (count f s) = cmd_state e s"
  "cmd_state e (snd (SendToDevice e' d data s)) = cmd_state e s"
  by (simp_all add: cmd_state_def count_def SendToDevice_def Peer_Send_def transport_write_def Let_def split: option.split)

lemma cmd_state_send_commands: "cmd_state e (send_commands e' d cs s) = cmd_state e s"
  by (induction cs arbitrary: s)
    (auto simp: Let_def cmd_state_kept split: prod.split sum.split, (metis cmd_state_kept(2) snd_conv)+)

lemma cmd_state_dispatch:
  assumes "queue_ok (cmd_state e s)" "s_devices s d \<noteq> None"
  shows "cmd_state e (dispatchPendingCommands e d s) = snd (fetch_op d 0 (cmd_state e s))"
proof -
  obtain v q g where f: "Fetch (e_ops e) (e_cj e) d 0 (s_CmdQueue s, s_redis s) = (v, q, g)" by (metis prod_cases3)
  obtain cs where "v = Inr cs" using Fetch_queue_ok [OF assms(1) [unfolded cmd_state_def], of d 0] f by auto
  then show ?thesis
    using assms(2) f
    by (auto simp: dispatchPendingCommands_def with_queue_def fetch_op_def cmd_state_send_commands)
      (auto simp: cmd_state_def)
qed

lemma cmd_frame_decodes:
  assumes "length d + length (cmd_CmdID c) + length (cmd_Params c) \<le> 250"
  shows "\<exists>body. ParseMessage (cmd_frame d c) = Inr (CMD, body) \<and>
    DecodeCmd body = Inr (d, cmd_CmdID c, CmdTypeToByte (cmd_Type c), to_bytes (cmd_Params c))"
  using assms cmd.roundtrip(1) [of "(d, cmd_CmdID c, CmdTypeToByte (cmd_Type c), to_bytes (cmd_Params c))" "[]"]
    cmd.roundtrip(2) [of "(d, cmd_CmdID c, CmdTypeToByte (cmd_Type c), to_bytes (cmd_Params c))"]
  by (simp add: cmd_frame_def cmd_body_def)

text \<open>
  C13: Dispatching to a connected device writes its oldest pending commands, at most one batch, in
  the order they were queued, to the endpoint the device is connected at, and stops at the first
  failed write; each command of at most 250 bytes is written as a frame that decodes to exactly its
  identifier, type and parameters; and the queue still holds all of them.
\<close>

theorem dispatch_sends_oldest_pending:
  assumes "queue_ok (cmd_state e s)" "connected_at s d ep"
  shows "s_writes (dispatchPendingCommands e d s) = s_writes s @ attempts e ep (length (s_writes s))
      (map (cmd_frame d) (take (batch_of (cmd_state e s)) (pending (cmd_state e s) d))) \<and>
    pending (cmd_state e (dispatchPendingCommands e d s)) = pending (cmd_state e s) \<and>
    (\<forall>c. length d + length (cmd_CmdID c) + length (cmd_Params c) \<le> 250 \<longrightarrow>
      (\<exists>body. ParseMessage (cmd_frame d c) = Inr (CMD, body) \<and>
        DecodeCmd body = Inr (d, cmd_CmdID c, CmdTypeToByte (cmd_Type c), to_bytes (cmd_Params c))))"
proof -
  have dev: "s_devices s d \<noteq> None" using assms(2) by (auto simp: connected_at_def)
  have "fst (Fetch (e_ops e) (e_cj e) d 0 (s_CmdQueue s, s_redis s)) = Inr (fst (fetch_op d 0 (cmd_state e s)))"
    using Fetch_queue_ok [OF assms(1) [unfolded cmd_state_def], of d 0] by (simp add: cmd_state_def)
  from writes_dispatch [OF assms(2) this] show ?thesis
    using fetch_pending [OF assms(1), of d 0] cmd_state_dispatch [OF assms(1) dev] cmd_frame_decodes by simp
qed

text \<open>The small gateway with a command queued for its connected device.\<close>

definition loaded_server :: "map_store cmd_sys \<Rightarrow> map_store Server" where
  "loaded_server = (\<lambda>(ops, js, q, g). connected_server\<lparr>s_CmdQueue := q, s_redis := g\<rparr>)"

definition small_endpoint :: endpoint where
  "small_endpoint = QuicStream 7"

lemma small_peer_endpoint: "peer_endpoint small_peer = Some small_endpoint"
  by (simp add: peer_endpoint_def small_peer_def small_endpoint_def)

lemma loaded_connected: "connected_at (loaded_server x) ''dev'' small_endpoint"
  using connected_server_tables(2) small_peer_endpoint
  by (auto simp: connected_at_def loaded_server_def split: prod.split)

lemma loaded_cmd_state:
  "enq_op now d i ty p (small_cmds local) = (ok, x) \<Longrightarrow> cmd_state (small_env sid t) (loaded_server x) = x"
  by (auto simp: cmd_state_def loaded_server_def small_env_def enq_op_def small_cmds_def split: prod.splits)

theorem dispatch_sends_oldest_pending_witness:
  "\<exists>s. length (pending (cmd_state (small_env ''S1'' 7) s) ''dev'') > 0 \<and>
     pending (cmd_state (small_env ''S1'' 7) (dispatchPendingCommands (small_env ''S1'' 7) ''dev'' s)) =
     pending (cmd_state (small_env ''S1'' 7) s)"
proof -
  obtain x where x: "enq_op 5 ''dev'' ''c1'' ''start'' ''{}'' (small_cmds True) = (True, x)"
    using small_enq by (metis prod.collapse)
  note ok = enq_ok [OF small_cmds_ok x]
  have "queue_ok (cmd_state (small_env ''S1'' 7) (loaded_server x))" using ok loaded_cmd_state [OF x] by simp
  from dispatch_sends_oldest_pending [OF this loaded_connected] have
    "pending (cmd_state (small_env ''S1'' 7) (dispatchPendingCommands (small_env ''S1'' 7) ''dev'' (loaded_server x))) =
     pending (cmd_state (small_env ''S1'' 7) (loaded_server x))" by simp
  moreover have "pending (cmd_state (small_env ''S1'' 7) (loaded_server x)) ''dev'' \<noteq> []"
    using ok loaded_cmd_state [OF x] by simp
  ultimately show ?thesis by blast
qed

section \<open>CONNECT\<close>

text \<open>Writes are only added.\<close>

lemma prefix_SendToDevice:
  "SendToDevice e d m s = (r, s') \<Longrightarrow> prefix (s_writes s) (s_writes s')"
  by (auto simp: SendToDevice_def Peer_Send_def transport_write_def Let_def split: option.splits if_splits)

lemma prefix_send_commands: "prefix (s_writes s) (s_writes (send_commands e d cs s))"
proof (induction cs arbitrary: s)
  case (Cons c cs)
  obtain r s1 where r: "SendToDevice e d (EncodeCmd d (cmd_CmdID c) (CmdTypeToByte (cmd_Type c)) (to_bytes (cmd_Params c))) s = (r, s1)"
    by (metis prod.collapse)
  show ?case
    using prefix_SendToDevice [OF r] prefix_order.trans [OF _ Cons [of "count f s1" for f]] r
    by (cases r) (simp_all add: Let_def)
qed simp

lemma prefix_dispatch: "prefix (s_writes s) (s_writes (dispatchPendingCommands e d s))"
proof (cases "s_devices s d")
  case (Some dev)
  obtain v s1 where v: "with_queue (Fetch (e_ops e) (e_cj e) d 0) s = (v, s1)" by (metis prod.collapse)
  have "s_writes s1 = s_writes s" using writes_kept(3) v by (metis snd_conv)
  then show ?thesis
    using Some v prefix_send_commands [of s1 e d] by (simp add: dispatchPendingCommands_def split: sum.split)
qed (simp add: dispatchPendingCommands_def)

lemma prefix_asyncRedisWork: "prefix (s_writes s) (s_writes (asyncRedisWork e w s))"
proof (cases w)
  case (Pair d a)
  then show ?thesis
    unfolding asyncRedisWork_def by simp (metis prefix_dispatch writes_kept(2) writes_kept(4))
qed

lemma key_of_None: "lookup_key psks dflt d = None \<longleftrightarrow> GetPSK d psks = None \<and> dflt = None"
  by (simp add: lookup_key_def split: option.split)

lemma keys_admit:
  "s_PSKStore (snd (admit e p s)) = s_PSKStore s" "s_DefaultPSK (snd (admit e p s)) = s_DefaultPSK s"
  by (simp_all add: admit_def Let_def split: prod.split)

lemma AsyncRedis_kept [simp]:
  "s_AsyncRedis (count f s) = s_AsyncRedis s" "s_AsyncRedis (snd (admit e p s)) = s_AsyncRedis s"
  "s_AsyncRedis (reply e p data s) = s_AsyncRedis s"
  by (auto simp: count_def admit_def reply_def Peer_Send_def transport_write_def Let_def
      split: prod.splits option.splits sum.splits if_splits)

text \<open>A CONNECT that is refused is answered and changes no table.\<close>

lemma handleConnect_refused:
  assumes "DecodeConnect data = Inr msg" "peer_endpoint p = Some ep" "d = conn_ClientID msg"
    and "d = [] \<or> \<not> fst (admit e p s) \<or> key_of s d = None"
  shows "tables (handleConnect e data p s) = tables s \<and> s_AsyncRedis (handleConnect e data p s) = s_AsyncRedis s \<and>
    (\<exists>ok more. s_writes (handleConnect e data p s) = s_writes s @
      (ep, [3, CONNACK, if d = [] then 2 else if \<not> fst (admit e p s) then 3 else 2], ok) # more)"
proof -
  obtain ok s1 where a: "admit e p s = (ok, s1)" by (metis prod.collapse)
  have s1: "tables s1 = tables s" "s_AsyncRedis s1 = s_AsyncRedis s" "s_writes s1 = s_writes s"
      "GetPSK d (s_PSKStore s1) = None \<and> s_DefaultPSK s1 = None \<longleftrightarrow> key_of s d = None"
    using a tables_pair(4) [OF a] AsyncRedis_kept(2) [of e p s] writes_kept(9) [of e p s] keys_admit [of e p s]
    by (simp_all add: key_of_None)
  show ?thesis
    using assms a s1
    by (cases "d = []"; cases ok)
      (auto simp: handleConnect_def sendConnack_def sendRetryInfo_def writes_reply iot_frame)
qed

text \<open>A CONNECT that is accepted is answered, and its device is connected with its new session.\<close>

lemma connect_outcome_accept:
  assumes "DecodeConnect data = Inr msg" "peer_endpoint p = Some ep" "d = conn_ClientID msg"
    and c: "d \<noteq> []" "fst (admit e p s)" "key_of s d \<noteq> None"
  shows "(\<exists>ok more. s_writes (handleConnect e data p s) = s_writes s @ (ep, [3, CONNACK, 0], ok) # more) \<and>
    connected_at (handleConnect e data p s) d ep \<and> s_byDevice (handleConnect e data p s) d = Some (e_sid e) \<and>
    (\<exists>ses. s_sessions (handleConnect e data p s) (e_sid e) = Some ses \<and> ses_DeviceID ses = d \<and> ses_KeepAlive ses = conn_Duration msg)"
proof -
  let ?s1 = "snd (admit e p s)" and ?s' = "handleConnect e data p s"
  have k: "GetPSK d (s_PSKStore ?s1) \<noteq> None \<or> s_DefaultPSK ?s1 \<noteq> None"
    using c(3) unfolding keys_admit key_of_None by auto
  let ?s2 = "open_session e msg (register_device e d p ?s1)"
  have t: "tables ?s' = tables ?s2"
    using handleConnect_accepted [OF assms(1)] c k assms(3) by simp
  have conn: "connected_at ?s' d ep"
    using connected_at_tables [OF t] assms(2,3)
    by (simp add: connected_at_def open_session_def register_device_def Let_def)
  have ses: "s_byDevice ?s' d = Some (e_sid e)" "\<exists>ses. s_sessions ?s' (e_sid e) = Some ses \<and> ses_DeviceID ses = d \<and>
      ses_KeepAlive ses = conn_Duration msg"
    using t assms(3) by (simp_all add: tables_def open_session_def Let_def)
  let ?s3 = "sendConnack e p 0 (count (\<lambda>m. m\<lparr>ConnectCount := ConnectCount m + 1\<rparr>) ?s2)"
  have s': "?s' = (if length (s_AsyncRedis ?s3) < 65536 then ?s3\<lparr>s_AsyncRedis := s_AsyncRedis ?s3 @ [(d, Peer_String p)]\<rparr>
      else asyncRedisWork e (d, Peer_String p) ?s3)"
    using assms(1) c k unfolding assms(3) by (cases "admit e p s") (auto simp: handleConnect_def Let_def)
  have "\<exists>ok. s_writes ?s3 = s_writes s @ [(ep, [3, CONNACK, 0], ok)]"
    by (simp add: sendConnack_def writes_reply [OF assms(2)])
  moreover have "prefix (s_writes ?s3) (s_writes ?s')"
    unfolding s' by (simp add: prefix_asyncRedisWork)
  ultimately have "\<exists>ok more. s_writes ?s' = s_writes s @ (ep, [3, CONNACK, 0], ok) # more"
    by (auto simp: prefix_def)
  then show ?thesis using conn ses by simp
qed

text \<open>
  C21: A CONNECT that decodes has exactly one outcome.  Its first answer is a CONNACK to the sender:
  code 2 for an empty identifier or a device without a key, code 3 when a limiter refuses it, code 0
  otherwise.  Only with code 0 is the device registered, at this endpoint and with a new session;
  otherwise the three tables and the deferred work are as before.
\<close>

theorem connect_outcome:
  assumes "DecodeConnect data = Inr msg" "peer_endpoint p = Some ep"
    and "d = conn_ClientID msg" "s' = handleConnect e data p s"
    and "code = (if d = [] then 2 else if \<not> fst (admit e p s) then 3 else if key_of s d = None then 2 else 0)"
  shows "(\<exists>ok more. s_writes s' = s_writes s @ (ep, [3, CONNACK, code], ok) # more) \<and>
    (if code = 0 then connected_at s' d ep \<and> s_byDevice s' d = Some (e_sid e) \<and>
        (\<exists>ses. s_sessions s' (e_sid e) = Some ses \<and> ses_DeviceID ses = d \<and> ses_KeepAlive ses = conn_Duration msg)
     else tables s' = tables s \<and> s_AsyncRedis s' = s_AsyncRedis s)"
proof (cases "code = 0")
  case True
  then have "d \<noteq> []" "fst (admit e p s)" "key_of s d \<noteq> None" using assms(5) by (auto split: if_splits)
  from connect_outcome_accept [OF assms(1-3) this] show ?thesis using True assms(4) by simp
next
  case False
  then have "d = [] \<or> \<not> fst (admit e p s) \<or> key_of s d = None" using assms(5) by (auto split: if_splits)
  from handleConnect_refused [OF assms(1-3) this] show ?thesis
    using False assms(4,5) by (auto split: if_splits)
qed

theorem connect_outcome_witness:
  "\<exists>ok more. s_writes (handleConnect (small_env ''S1'' 5) [0, 1, 0, 60, 100, 101, 118] small_peer small_server) =
     s_writes small_server @ (small_endpoint, [3, CONNACK, 0], ok) # more"
proof -
  have "fst (admit (small_env ''S1'' 5) small_peer small_server)" "key_of small_server ''dev'' \<noteq> None"
    by (simp_all add: admit_def ConnectLimiter_Allow_def IPLimiter_Allow_def small_server_def NewServer_def
        NewConnectLimiter_def NewIPLimiter_def small_cfg_def default_psk_def key_of_None Let_def)
  with connect_outcome [OF connect_packet_parse(2) small_peer_endpoint refl refl refl,
      of "small_env ''S1'' 5" small_server]
  show ?thesis by simp
qed

section \<open>Frames of a stream\<close>

lemma handleQUICStream_frames:
  assumes "\<forall>f \<in> set fs. is_frame f" "\<exists>er. readMQTTFrame r = Inl er"
  shows "handleQUICStream e order peer stream (concat fs @ r) s =
    dropDeviceByStream e order stream (fold (\<lambda>f. receive f peer) fs s)"
  using assms
proof (induction fs arbitrary: s)
  case Nil
  then show ?case by (auto simp: handleQUICStream.simps quic_stream_step_def)
next
  case (Cons f fs)
  then have "readMQTTFrame (f @ concat fs @ r) = Inr (f, concat fs @ r)" by (intro readMQTTFrame_frame) simp
  then show ?case
    using Cons by (simp add: handleQUICStream.simps [of _ _ _ _ "f @ _"] quic_stream_step_def)
qed

lemma fold_receive_room:
  "length (s_packetCh s) + length fs \<le> 1048576 \<Longrightarrow>
   fold (\<lambda>f. receive f peer) fs s = s\<lparr>s_packetCh := s_packetCh s @ map (\<lambda>f. (f, peer)) fs\<rparr>"
  by (induction fs arbitrary: s) (simp_all add: receive_def)

lemma readMQTTFrame_eof: "\<exists>er. readMQTTFrame [] = Inl er"
  by (simp add: readMQTTFrame_def ReadFull_def)

text \<open>
  C18: A QUIC stream is cut into exactly the frames that were written to it: while the packet queue has
  room, the workers find one packet per frame, in order, each of which parses, and then the device of
  the stream goes offline; a frame is never split, merged or lost, whatever its length form.
\<close>

theorem stream_frames_in_order:
  assumes "\<forall>f \<in> set fs. is_frame f" "length (s_packetCh s) + length fs \<le> 1048576"
  shows "handleQUICStream e order peer stream (concat fs) s =
      dropDeviceByStream e order stream (s\<lparr>s_packetCh := s_packetCh s @ map (\<lambda>f. (f, peer)) fs\<rparr>) \<and>
    (\<forall>f \<in> set fs. \<exists>t body. ParseMessage f = Inr (t, body))"
  using handleQUICStream_frames [OF assms(1) readMQTTFrame_eof, of e order peer stream s]
    assms(1) is_frame_ParseMessage by (simp add: fold_receive_room [OF assms(2)])

theorem stream_frames_in_order_witness:
  "handleQUICStream (small_env ''S1'' 5) [] small_peer 7 (concat [short_frame 0x16 [], long_frame 0x16 [100]]) small_server =
     dropDeviceByStream (small_env ''S1'' 5) [] 7 (small_server\<lparr>s_packetCh := s_packetCh small_server @
       map (\<lambda>f. (f, small_peer)) [short_frame 0x16 [], long_frame 0x16 [100]]\<rparr>)"
proof -
  have "\<forall>f \<in> set [short_frame 0x16 [], long_frame 0x16 [100]]. is_frame f"
    using is_frame_short [of "[]" "0x16"] is_frame_long [of "[100]" "0x16"] by simp
  then show ?thesis
    using stream_frames_in_order [of "[short_frame 0x16 [], long_frame 0x16 [100]]" small_server "small_env ''S1'' 5" "[]" small_peer 7]
    by (simp add: small_server_def NewServer_def)
qed

section \<open>The session sweep\<close>

definition idle :: "int \<Rightarrow> int \<Rightarrow> 'r Server \<Rightarrow> string \<Rightarrow> bool" where
  "idle now timeout s sid \<longleftrightarrow> (\<exists>ses. s_sessions s sid = Some ses \<and> timeout < now - ses_LastActive ses)"

definition session_device :: "'r Server \<Rightarrow> string \<Rightarrow> string" where
  "session_device s sid = (case s_sessions s sid of Some ses \<Rightarrow> ses_DeviceID ses | None \<Rightarrow> [])"

definition set_offline :: "string set \<Rightarrow> (string \<rightharpoonup> DeviceInfo) \<Rightarrow> string \<rightharpoonup> DeviceInfo" where
  "set_offline ds D d = (case D d of None \<Rightarrow> None
     | Some dev \<Rightarrow> Some (if d \<in> ds then dev\<lparr>dev_Status := ''offline''\<rparr> else dev))"

lemma set_offline_empty [simp]: "set_offline {} D = D"
  by (simp add: set_offline_def fun_eq_iff split: option.split)

text \<open>After one session is expired, the idle ones are the idle ones of before but that one.\<close>

lemma expire_one_effect:
  assumes ok: "tables_ok K (tables s)" and ses: "s_sessions s sid = Some ses"
  shows "s_sessions (expire_one sid ses s) = (s_sessions s)(sid := None)"
    and "s_byDevice (expire_one sid ses s) = (s_byDevice s)(ses_DeviceID ses := None)"
    and "s_devices (expire_one sid ses s) = set_offline {ses_DeviceID ses} (s_devices s)"
  using tables_expire_one [OF ok ses]
  by (auto simp: tables_def set_offline_def fun_eq_iff split: option.splits)

lemma expire_sessions_effect:
  assumes "tables_ok K (tables s)" "distinct order"
    and "expire_sessions now timeout order s = (ds, s')"
  shows "ds = map (session_device s) (filter (idle now timeout s) order) \<and>
    s_sessions s' = (\<lambda>sid. if sid \<in> set order \<and> idle now timeout s sid then None else s_sessions s sid) \<and>
    s_byDevice s' = (\<lambda>d. if d \<in> set ds then None else s_byDevice s d) \<and>
    s_devices s' = set_offline (set ds) (s_devices s)"
  using assms
proof (induction order arbitrary: s ds s')
  case (Cons sid order)
  show ?case
  proof (cases "idle now timeout s sid")
    case False
    then have "expire_sessions now timeout (sid # order) s = expire_sessions now timeout order s"
      by (auto simp: idle_def split: option.split)
    then show ?thesis
      using False Cons.prems(2,3) Cons.IH [OF Cons.prems(1), of ds s'] by (auto simp: fun_eq_iff)
  next
    case True
    then obtain ses where ses: "s_sessions s sid = Some ses" "timeout < now - ses_LastActive ses" by (auto simp: idle_def)
    let ?s1 = "expire_one sid ses s"
    obtain ds1 where r: "expire_sessions now timeout order ?s1 = (ds1, s')" "ds = ses_DeviceID ses # ds1"
      using Cons.prems(3) ses by (auto split: prod.splits)
    note eff = expire_one_effect [OF Cons.prems(1) ses(1)]
    have sid: "sid \<notin> set order" "distinct order" using Cons.prems(2) by auto
    have keep: "idle now timeout ?s1 i = idle now timeout s i \<and> session_device ?s1 i = session_device s i" if "i \<in> set order" for i
    proof -
      have "i \<noteq> sid" using that sid(1) by auto
      then show ?thesis using eff(1) by (simp add: idle_def session_device_def)
    qed
    note IH = Cons.IH [OF tables_ok_expire_one [OF Cons.prems(1) ses(1)] sid(2) r(1)]
    have f: "filter (idle now timeout ?s1) order = filter (idle now timeout s) order"
      using keep by (intro filter_cong refl) simp
    have ds1: "ds1 = map (session_device s) (filter (idle now timeout s) order)"
      using IH keep unfolding f by auto
    have "ds = map (session_device s) (filter (idle now timeout s) (sid # order))"
      using r(2) ds1 ses(1) True by (simp add: session_device_def)
    moreover have "s_sessions s' = (\<lambda>i. if i \<in> set (sid # order) \<and> idle now timeout s i then None else s_sessions s i)"
      using IH eff(1) keep sid(1) True by (auto simp: fun_eq_iff)
    moreover have "s_byDevice s' = (\<lambda>d. if d \<in> set ds then None else s_byDevice s d)"
      using IH eff(2) r(2) by (auto simp: fun_eq_iff)
    moreover have "s_devices s' = set_offline (set ds) (s_devices s)"
      using IH eff(3) r(2) by (auto simp: set_offline_def fun_eq_iff split: option.splits)
    ultimately show ?thesis by simp
  qed
qed simp

text \<open>
  C30: The sweep removes exactly the sessions that have been silent longer than the timeout, with
  their index entries, in whatever order it visits them, and returns exactly their devices; these
  stay in the device table and are shown offline, and every other session and device is as before.
\<close>

theorem sweep_expires_exactly_idle:
  assumes "iot_step\<^sup>*\<^sup>* (NewServer sha256 cfg ord sid now g mq) s" "key_order (s_sessions s) order"
    and "CleanupExpiredSessions e timeout order s = (gone, s')"
  shows "(\<forall>i. s_sessions s' i = (if idle (e_now e) timeout s i then None else s_sessions s i)) \<and>
    set gone = session_device s ` {i. idle (e_now e) timeout s i} \<and>
    s_byDevice s' = (\<lambda>d. if d \<in> set gone then None else s_byDevice s d) \<and>
    s_devices s' = set_offline (set gone) (s_devices s)"
proof -
  have "tables_ok (lookup_key (load_psks sha256 (auth_PSKDevices (cfg_Auth cfg)) ord NewPSKStore)
      (default_psk sha256 (cfg_IoT cfg))) (tables s)"
    using tables_ok_reachable [OF assms(1), unfolded NewServer_tables, OF tables_ok_empty] .
  moreover have "distinct order" using assms(2) by (simp add: key_order_def)
  moreover have "idle (e_now e) timeout s i \<Longrightarrow> i \<in> set order" for i
    using key_orderD [OF assms(2), of i] by (auto simp: idle_def)
  ultimately show ?thesis
    using expire_sessions_effect [of _ s order "e_now e" timeout gone s'] assms(3)
    by (auto simp: CleanupExpiredSessions_def)
qed

theorem sweep_expires_exactly_idle_witness:
  "\<exists>s'. CleanupExpiredSessions (small_env ''S2'' (301 * second)) (300 * second) [''S1''] connected_server = ([''dev''], s') \<and>
     s_sessions s' ''S1'' = None"
proof -
  obtain ses where ses: "s_sessions connected_server = [''S1'' \<mapsto> ses]" "ses_LastActive ses = 1000" "ses_DeviceID ses = ''dev''"
    using connected_server_tables(3) by auto
  have idle: "idle (301 * second) (300 * second) connected_server ''S1''" using ses by (simp add: idle_def)
  obtain gone s' where c: "CleanupExpiredSessions (small_env ''S2'' (301 * second)) (300 * second) [''S1''] connected_server = (gone, s')"
    by (metis prod.collapse)
  moreover have "gone = [''dev'']"
    using c ses by (auto simp: CleanupExpiredSessions_def small_env_def split: prod.splits)
  moreover have "key_order (s_sessions connected_server) [''S1'']" using ses by (simp add: key_order_def)
  ultimately show ?thesis
    using sweep_expires_exactly_idle [OF connected_server_reachable [unfolded small_server_def], of "[''S1'']"] idle
    by (simp add: small_env_def)
qed

section \<open>The end of a transport\<close>

definition on_stream :: "nat \<Rightarrow> DeviceInfo \<Rightarrow> bool" where
  "on_stream stream dev \<longleftrightarrow> (case dev_Peer dev of None \<Rightarrow> False | Some p \<Rightarrow> p_Stream p = Some stream)"

lemma dropDeviceByStream_eq:
  "dropDeviceByStream e order stream s =
     (if find_device (on_stream stream) (s_devices s) order \<noteq> []
      then dropDevice e (find_device (on_stream stream) (s_devices s) order) s else s)"
  unfolding dropDeviceByStream_def on_stream_def [abs_def] by (simp add: Let_def)

lemma find_device_result:
  "find_device P D order = [] \<or> (find_device P D order \<in> set order \<and> (\<exists>dev. D (find_device P D order) = Some dev \<and> P dev))"
  by (induction P D order rule: find_device.induct) (auto split: option.split)

lemma find_device_finds:
  "d \<in> set order \<Longrightarrow> D d = Some dev \<Longrightarrow> P dev \<Longrightarrow> [] \<notin> dom D \<Longrightarrow> find_device P D order \<noteq> []"
  by (induction P D order rule: find_device.induct) (auto split: option.splits)

text \<open>
  When a stream ends, exactly one of the devices connected on it goes offline, if there is any,
  and no device connected elsewhere: a device that has reconnected on another stream keeps its entry
  and its session.  So a stream with a single device leaves none behind, and one that carried several
  leaves all but one in the table.
\<close>

theorem stream_end_drops_one:
  assumes "iot_step\<^sup>*\<^sup>* (NewServer sha256 cfg ord sid now g mq) s" "key_order (s_devices s) order"
    and "s' = dropDeviceByStream e order stream s"
    and "on = {d. \<exists>dev. s_devices s d = Some dev \<and> on_stream stream dev}"
    and "on' = {d. \<exists>dev. s_devices s' d = Some dev \<and> on_stream stream dev}"
  shows "card on' = card on - 1 \<and>
    (\<forall>d. d \<notin> on \<longrightarrow> s_devices s' d = s_devices s d \<and> s_byDevice s' d = s_byDevice s d \<and>
      (\<forall>i. s_byDevice s d = Some i \<longrightarrow> s_sessions s' i = s_sessions s i))"
proof -
  let ?t = "find_device (on_stream stream) (s_devices s) order"
  have ok: "tables_ok (lookup_key (load_psks sha256 (auth_PSKDevices (cfg_Auth cfg)) ord NewPSKStore)
      (default_psk sha256 (cfg_IoT cfg))) (key_of s, s_devices s, s_sessions s, s_byDevice s)"
    using tables_ok_reachable [OF assms(1), unfolded NewServer_tables, OF tables_ok_empty] by (simp add: tables_def)
  have s': "s' = (if ?t \<noteq> [] then dropDevice e ?t s else s)"
    unfolding assms(3) dropDeviceByStream_eq ..
  have fin: "finite on"
    by (rule finite_subset [of _ "set order"]) (auto simp: assms(4) key_orderD [OF assms(2)])
  show ?thesis
  proof (cases "?t = []")
    case True
    have "on = {}"
      using True find_device_finds [of _ order "s_devices s" _ "on_stream stream"] tables_okD(4) [OF ok]
      by (auto simp: assms(4) key_orderD [OF assms(2)])
    moreover have "on' = on" "s' = s" using True s' assms(4,5) by simp_all
    ultimately show ?thesis by simp
  next
    case False
    then have t: "?t \<in> on" using find_device_result [of "on_stream stream" "s_devices s" order] by (simp add: assms(4))
    have tab: "tables s' = tables (dropDevice e ?t s)" using s' False by simp
    have "on' = on - {?t}"
      using tab unfolding tables_dropDevice assms(4,5) by (auto simp: tables_def split: if_splits)
    then have "card on' = card on - 1" using t fin by simp
    moreover have "s_devices s' d = s_devices s d \<and> s_byDevice s' d = s_byDevice s d \<and>
        (\<forall>i. s_byDevice s d = Some i \<longrightarrow> s_sessions s' i = s_sessions s i)" if "d \<notin> on" for d
    proof -
      have "d \<noteq> ?t" using t that by auto
      then show ?thesis
        using tab tables_ok_index_inj [OF ok] unfolding tables_dropDevice
        by (auto simp: tables_def split: option.splits)
    qed
    ultimately show ?thesis by blast
  qed
qed

theorem stream_end_drops_one_witness:
  "card {d. \<exists>dev. s_devices (dropDeviceByStream (small_env ''S1'' 9) [''dev''] 7 connected_server) d = Some dev \<and> on_stream 7 dev} = 0"
proof -
  obtain dev where dev: "s_devices connected_server = [''dev'' \<mapsto> dev]" "dev_Peer dev = Some small_peer"
    using connected_server_tables(4) by auto
  have "key_order (s_devices connected_server) [''dev'']" using dev by (simp add: key_order_def)
  note drop = stream_end_drops_one [OF connected_server_reachable [unfolded small_server_def] this refl refl refl]
  have on: "{d. \<exists>dev. s_devices connected_server d = Some dev \<and> on_stream 7 dev} = {''dev''}"
    using dev by (auto simp: on_stream_def small_peer_def)
  from drop [of "small_env ''S1'' 9" 7] show ?thesis unfolding on by simp
qed

lemma find_device_none: "(\<And>d dev. D d = Some dev \<Longrightarrow> \<not> P dev) \<Longrightarrow> find_device P D order = []"
  by (induction P D order rule: find_device.induct) (auto split: option.splits)

lemma dropDeviceByStream_none:
  "\<forall>d dev. s_devices s d = Some dev \<longrightarrow> \<not> on_stream stream dev \<Longrightarrow> dropDeviceByStream e order stream s = s"
  by (simp add: dropDeviceByStream_eq find_device_none)

lemma admit_disabled:
  "\<not> cl_Enabled (s_ConnectLimiter s) \<Longrightarrow> \<not> ip_Enabled (s_IPLimiter s) \<Longrightarrow> fst (admit e p s)"
  by (simp add: admit_def ConnectLimiter_Allow_def IPLimiter_Allow_def Let_def)

text \<open>
  The end of a stream can overtake its CONNECT.  When a device sends a CONNECT and closes its
  stream before a worker has taken the packet from the queue, the clean-up of the stream finds no
  device; the worker then registers the device as connected on the stream that is gone.
\<close>

theorem stream_end_overtakes_connect:
  assumes "is_frame f" "ParseMessage f = Inr (CONNECT, body)" "DecodeConnect body = Inr msg" "conn_ClientID msg \<noteq> []"
    and "p_Quic p \<noteq> None" "p_Stream p = Some stream" "key_of s (conn_ClientID msg) \<noteq> None" "s_packetCh s = []"
    and "\<forall>d dev. s_devices s d = Some dev \<longrightarrow> \<not> on_stream stream dev"
    and "\<not> cl_Enabled (s_ConnectLimiter s)" "\<not> ip_Enabled (s_IPLimiter s)"
    and "s1 = handleQUICStream e order p stream f s"
  shows "s_devices s1 = s_devices s \<and>
    connected_at (workerLoop_step e' order' s1) (conn_ClientID msg) (QuicStream stream)"
proof -
  have s1: "s1 = s\<lparr>s_packetCh := [(f, p)]\<rparr>"
    using handleQUICStream_frames [of "[f]" "[]" e order p stream s] assms(1,8,9,12) readMQTTFrame_eof
    by (simp add: fold_receive_room dropDeviceByStream_none receive_def)
  let ?s2 = "count (\<lambda>m. m\<lparr>PacketsReceived := PacketsReceived m + 1, BytesReceived := BytesReceived m + int (length f)\<rparr>)
    (s\<lparr>s_packetCh := []\<rparr>)"
  have w: "workerLoop_step e' order' s1 = handleConnect e' body p ?s2"
    using assms(2) s1 by (simp add: workerLoop_step_def HandlePacket_def)
  have ep: "peer_endpoint p = Some (QuicStream stream)" using assms(5,6) by (simp add: peer_endpoint_def)
  have a: "fst (admit e' p ?s2)" "key_of ?s2 (conn_ClientID msg) \<noteq> None"
    using assms(7,10,11) by (simp_all add: admit_disabled count_def)
  have "connected_at (handleConnect e' body p ?s2) (conn_ClientID msg) (QuicStream stream)"
    using connect_outcome_accept [OF assms(3) ep refl assms(4) a] by simp
  then show ?thesis using w s1 by simp
qed

theorem stream_end_overtakes_connect_witness:
  "connected_at (workerLoop_step (small_env ''S1'' 9) [] (handleQUICStream (small_env ''S0'' 5) [] small_peer 7 connect_packet small_server))
     ''dev'' (QuicStream 7)"
proof -
  have f: "is_frame connect_packet"
    using is_frame_short [of "[0, 1, 0, 60, 100, 101, 118]" 4] by (simp add: connect_packet_def short_frame_def)
  have "key_of small_server ''dev'' \<noteq> None" "\<not> cl_Enabled (s_ConnectLimiter small_server)" "\<not> ip_Enabled (s_IPLimiter small_server)"
    "s_packetCh small_server = []" "s_devices small_server = Map.empty"
    by (simp_all add: small_server_def NewServer_def NewConnectLimiter_def NewIPLimiter_def small_cfg_def default_psk_def
        key_of_None Let_def)
  with stream_end_overtakes_connect [OF f connect_packet_parse, of small_peer 7 small_server _ "small_env ''S0'' 5" "[]" "small_env ''S1'' 9" "[]"]
  show ?thesis by (simp add: small_peer_def)
qed

section \<open>What keeps a session alive\<close>

lemma sessions_of: "tables a = tables b \<Longrightarrow> s_sessions a = s_sessions b"
  by (simp add: tables_def)

lemmas sessions_frame = iot_frame [THEN sessions_of]
lemmas sessions_pair = tables_pair [THEN sessions_of]

lemma sessions_touch_device: "s_sessions (touch_device e d s) = s_sessions s"
  by (simp add: touch_device_def split: option.split)

lemma sessions_handlers:
  "s_sessions (handleStatus e data p s) = s_sessions s" "s_sessions (handleFetch e data p s) = s_sessions s"
  "s_sessions (handleCmdAck e data p s) = s_sessions s" "s_sessions (handlePublish e data p s) = s_sessions s"
  "s_sessions (handleSubscribe e data p s) = s_sessions s" "s_sessions (handleUnsubscribe e data p s) = s_sessions s"
  "s_sessions (handleRegister e data p s) = s_sessions s"
  by (auto simp: handleStatus_def handleFetch_def handleCmdAck_def handlePublish_def handleSubscribe_def
      handleUnsubscribe_def handleRegister_def Let_def sessions_frame sessions_touch_device
      dest!: sessions_pair split: sum.split prod.split option.split)

text \<open>
  Only a CONNECT or a PINGREQ refreshes a session.  Every other message, telemetry, status
  reports and command acknowledgements included, leaves the age of every session as it is, so a
  device that publishes all the time but never pings is swept as silent.
\<close>

theorem only_ping_keeps_alive:
  assumes "ParseMessage data = Inr (t, body)" "t \<notin> {CONNECT, PINGREQ, DISCONNECT}"
  shows "idle now timeout (HandlePacket e order data p s) i \<longleftrightarrow> idle now timeout s i"
proof -
  have "s_sessions (HandlePacket e order data p s) = s_sessions s"
    using assms by (simp add: HandlePacket_def Let_def sessions_handlers sessions_frame)
  then show ?thesis by (simp add: idle_def)
qed

theorem only_ping_keeps_alive_witness:
  "idle (301 * second) (300 * second)
     (HandlePacket (small_env ''S2'' (300 * second)) [] (short_frame STATUS (to_bytes ''dev'' @ [1])) small_peer connected_server) ''S1''"
proof -
  obtain ses where "s_sessions connected_server = [''S1'' \<mapsto> ses]" "ses_LastActive ses = 1000"
    using connected_server_tables(3) by auto
  then have "idle (301 * second) (300 * second) connected_server ''S1''" by (simp add: idle_def)
  then show ?thesis
    using only_ping_keeps_alive [of "short_frame STATUS (to_bytes ''dev'' @ [1])" STATUS "to_bytes ''dev'' @ [1]"
        "301 * second" "300 * second" "small_env ''S2'' (300 * second)" "[]" small_peer connected_server "''S1''"]
      ParseMessage_short_frame [of "to_bytes ''dev'' @ [1]" STATUS "[]"]
    by (simp add: STATUS_def CONNECT_def PINGREQ_def DISCONNECT_def)
qed

end
