(* ===== verification/CendCodec.thy ===== *)
theory CendCodec
  imports Prelude
begin

text \<open>
  \<^verbatim>\<open>internal/protocol/cend/codec.go\<close>: the codecs of the C-end protocol, with the message structures
  of \<^verbatim>\<open>protobuf/message.proto\<close>.  The protobuf and zlib libraries are parameters: marshalling and
  unmarshalling of the header and of each body, and compression at a level.
\<close>

section \<open>Messages\<close>

definition AUTH :: int where "AUTH = 0"
definition AUTH_ACK :: int where "AUTH_ACK = 1"
definition HEARTBEAT :: int where "HEARTBEAT = 2"
definition HEARTBEAT_ACK :: int where "HEARTBEAT_ACK = 3"
definition MESSAGE :: int where "MESSAGE = 4"
definition MESSAGE_ACK :: int where "MESSAGE_ACK = 5"
definition PUSH :: int where "PUSH = 6"
definition ERROR :: int where "ERROR = 7"

lemmas MessageType_defs = AUTH_def AUTH_ACK_def HEARTBEAT_def HEARTBEAT_ACK_def MESSAGE_def MESSAGE_ACK_def PUSH_def ERROR_def

record Header =
  hd_Magic :: uint32
  hd_Version :: uint32
  hd_Type :: int
  hd_Seq :: uint64
  hd_Timestamp :: uint64
  hd_TraceId :: string

record AuthRequest =
  arq_Token :: string
  arq_DeviceId :: string
  arq_AppVersion :: string
  arq_Os :: string
  arq_OsVersion :: string

record AuthResponse =
  ars_Code :: int
  ars_Message :: string
  ars_SessionId :: string
  ars_ExpiresAt :: uint64

record Heartbeat =
  hb_ClientTime :: uint64

record HeartbeatAck =
  hba_ServerTime :: uint64

text \<open>The business message, \<^verbatim>\<open>protobuf.Message\<close>.\<close>

record BizMessage =
  bm_RequestId :: string
  bm_From :: string
  bm_To :: string
  bm_Content :: string
  bm_Type :: string
  bm_Metadata :: "string \<rightharpoonup> string"
  bm_Timestamp :: uint64

record MessageAck =
  mak_RequestId :: string
  mak_Code :: int
  mak_Message :: string
  mak_Timestamp :: uint64

record PushMessage =
  psh_MessageId :: string
  psh_From :: string
  psh_Content :: string
  psh_Metadata :: "string \<rightharpoonup> string"
  psh_Timestamp :: uint64

record ErrorResponse =
  err_Code :: int
  err_Message :: string

datatype Body =
    BAuthRequest AuthRequest | BAuthResponse AuthResponse | BHeartbeat Heartbeat | BHeartbeatAck HeartbeatAck
  | BMessage BizMessage | BMessageAck MessageAck | BPush PushMessage | BError ErrorResponse

record proto_lib =
  mar_header :: "Header \<Rightarrow> bytes result"
  un_header :: "bytes \<Rightarrow> Header result"
  mar_body :: "Body \<Rightarrow> bytes result"
  un_body :: "int \<Rightarrow> bytes \<Rightarrow> Body result"
    \<comment> \<open>unmarshalling into the structure of a message type\<close>

section \<open>DefaultCodec\<close>

definition ProtocolMagic :: uint16 where "ProtocolMagic = 0xABCD"
definition ProtocolVersion :: byte where "ProtocolVersion = 1"
definition HeaderSize :: nat where "HeaderSize = 12"
definition MaxMessageSize :: nat where "MaxMessageSize = 1048576"

text \<open>The codec's message: the header may be missing, and so may the body.\<close>

record CodecMessage =
  cm_Header :: "Header option"
  cm_Body :: "Body option"

definition wrap_r :: "string \<Rightarrow> 'a result \<Rightarrow> 'a result" where
  "wrap_r pre r = (case r of Inl e \<Rightarrow> Inl (wrap_error pre e) | Inr v \<Rightarrow> Inr v)"

text \<open>
  Writing into a buffer: \<^verbatim>\<open>PutUint16\<close> and the like need room for all their bytes, \<^verbatim>\<open>copy\<close> copies what
  fits; both need the start within the buffer.
\<close>

definition put_at :: "bytes \<Rightarrow> nat \<Rightarrow> bytes \<Rightarrow> bytes result" where
  "put_at buf i xs =
     (if i + length xs \<le> length buf then Inr (take i buf @ xs @ drop (i + length xs) buf)
      else Inl (Panic ''index out of range''))"

definition copy_at :: "bytes \<Rightarrow> nat \<Rightarrow> bytes \<Rightarrow> bytes result" where
  "copy_at buf i xs =
     (if i \<le> length buf then Inr (take i buf @ take (length buf - i) xs @ drop (i + length xs) buf)
      else Inl (Panic ''slice bounds out of range''))"

text \<open>The buffer of \<^verbatim>\<open>Encode\<close>, write by write.\<close>

definition encode_buffer :: "Header \<Rightarrow> bytes \<Rightarrow> bytes \<Rightarrow> bytes result" where
  "encode_buffer h headerBytes bodyBytes =
     (let n = length headerBytes + length bodyBytes in
      bind_r (put_at (replicate (HeaderSize + n) 0) 0 (put_uint16 ProtocolMagic)) (\<lambda>b1.
      bind_r (put_at b1 2 [ProtocolVersion, of_int (hd_Type h)]) (\<lambda>b2.
      bind_r (put_at b2 4 (put_uint32 (ucast (hd_Seq h)))) (\<lambda>b3.
      bind_r (put_at b3 8 (put_uint32 (of_nat n))) (\<lambda>b4.
      bind_r (copy_at b4 HeaderSize (replicate 2 0)) (\<lambda>b5.
      bind_r (put_at b5 HeaderSize (put_uint16 (of_nat (length headerBytes)))) (\<lambda>b6.
      bind_r (copy_at b6 (HeaderSize + 2) headerBytes) (\<lambda>b7.
      copy_at b7 (HeaderSize + 2 + length headerBytes) bodyBytes))))))))"

definition Codec_Encode :: "proto_lib \<Rightarrow> CodecMessage option \<Rightarrow> bytes result" where
  "Codec_Encode pb msg =
     (case Option.bind msg cm_Header of
        None \<Rightarrow> Inl (Error ''invalid message'')
      | Some h \<Rightarrow>
          bind_r (wrap_r ''failed to marshal header: '' (mar_header pb h)) (\<lambda>headerBytes.
          bind_r (case Option.bind msg cm_Body of None \<Rightarrow> Inr []
                  | Some b \<Rightarrow> wrap_r ''failed to marshal body: '' (mar_body pb b)) (\<lambda>bodyBytes.
            let totalLength = HeaderSize + length headerBytes + length bodyBytes in
            if totalLength > MaxMessageSize then Inl (Error (''message too large: '' @ show_nat totalLength @ '' bytes''))
            else encode_buffer h headerBytes bodyBytes)))"

text \<open>The bounded scan for the end of the header; \<open>i\<close> runs from 1 to \<open>n\<close>.\<close>

fun scan_header :: "(bytes \<Rightarrow> bool) \<Rightarrow> bytes \<Rightarrow> nat \<Rightarrow> nat \<Rightarrow> nat option" where
  "scan_header is_header data i 0 = None"
| "scan_header is_header data i (Suc n) =
     (if is_header (take i data) then Some i else scan_header is_header data (Suc i) n)"

definition header_ok :: "(Header \<Rightarrow> bool) \<Rightarrow> proto_lib \<Rightarrow> bytes \<Rightarrow> bool" where
  "header_ok P pb b = (case un_header pb b of Inr h \<Rightarrow> P h | Inl _ \<Rightarrow> False)"

definition magic_ok :: "Header \<Rightarrow> bool" where
  "magic_ok h \<longleftrightarrow> hd_Magic h = 0xABCD"

definition splitHeaderAndBodyBytes :: "proto_lib \<Rightarrow> bytes \<Rightarrow> (bytes \<times> bytes) result" where
  "splitHeaderAndBodyBytes pb data =
     (let maxScan = (if length data > 128 then 128 else length data) in
      case scan_header (header_ok magic_ok pb) data 1 maxScan of
        Some i \<Rightarrow> Inr (take i data, drop i data)
      | None \<Rightarrow>
          if header_ok magic_ok pb data then Inr (data, [])
          else Inl (Error ''failed to split header and body''))"

definition unmarshalBody :: "proto_lib \<Rightarrow> int \<Rightarrow> bytes \<Rightarrow> Body option" where
  "unmarshalBody pb msgType data =
     (if msgType \<in> {AUTH, AUTH_ACK, HEARTBEAT, HEARTBEAT_ACK, MESSAGE, MESSAGE_ACK, PUSH, ERROR}
      then (case un_body pb msgType data of Inr b \<Rightarrow> Some b | Inl _ \<Rightarrow> None) else None)"

text \<open>The header by its length prefix, when the prefix fits and what it delimits is a header.\<close>

definition split_by_prefix :: "(Header \<Rightarrow> bool) \<Rightarrow> proto_lib \<Rightarrow> bytes \<Rightarrow> (bytes \<times> bytes) option" where
  "split_by_prefix P pb payload =
     (let hl = 256 * unat (payload ! 0) + unat (payload ! 1) in
      if hl \<ge> 2 \<and> 2 + hl \<le> length payload \<and> header_ok P pb (take hl (drop 2 payload))
      then Some (take hl (drop 2 payload), drop (2 + hl) payload) else None)"

text \<open>The payload: its header by length prefix or by scan, then the body by message type.\<close>

definition decode_payload :: "proto_lib \<Rightarrow> byte \<Rightarrow> bytes \<Rightarrow> CodecMessage result" where
  "decode_payload pb ty payload =
     bind_r (case (if length payload \<ge> 2 then split_by_prefix magic_ok pb payload else None) of
               Some hb \<Rightarrow> Inr hb | None \<Rightarrow> splitHeaderAndBodyBytes pb payload) (\<lambda>(headerBytes, bodyBytes).
     bind_r (wrap_r ''failed to unmarshal header: '' (un_header pb headerBytes)) (\<lambda>header.
       Inr \<lparr>cm_Header = Some header,
            cm_Body = (if bodyBytes \<noteq> [] then unmarshalBody pb (int (unat ty)) bodyBytes else None)\<rparr>))"

definition Codec_Decode :: "proto_lib \<Rightarrow> bytes \<Rightarrow> CodecMessage result" where
  "Codec_Decode pb data =
     (if length data < HeaderSize then Inl (Error ''data too short'')
      else bind_r (Uint16 data) (\<lambda>magic.
        if magic \<noteq> ProtocolMagic then Inl (Error ''invalid magic number'')
        else if data ! 2 \<noteq> ProtocolVersion then Inl (Error ''unsupported version'')
        else bind_r (Uint32 (drop 8 data)) (\<lambda>bodyLength.
          let n = unat bodyLength in
          if n > MaxMessageSize then Inl (Error (''message too large: '' @ show_nat n @ '' bytes''))
          else if n > length data - HeaderSize then Inl (Error ''incomplete message data'')
          else decode_payload pb (data ! 3) (take n (drop HeaderSize data)))))"

text \<open>A writer is what was written to it; a reader is what it still delivers.\<close>

definition EncodeToWriter :: "proto_lib \<Rightarrow> CodecMessage option \<Rightarrow> bytes \<Rightarrow> bytes result" where
  "EncodeToWriter pb msg w = bind_r (Codec_Encode pb msg) (\<lambda>data. Inr (w @ data))"

definition DecodeFromReader :: "proto_lib \<Rightarrow> bytes \<Rightarrow> (CodecMessage \<times> bytes) result" where
  "DecodeFromReader pb r =
     bind_r (ReadFull r HeaderSize) (\<lambda>(headerBuf, r1).
     bind_r (Uint16 headerBuf) (\<lambda>magic.
       if magic \<noteq> ProtocolMagic then Inl (Error ''invalid magic number'')
       else bind_r (Uint32 (drop 8 headerBuf)) (\<lambda>bodyLength.
         if unat bodyLength > MaxMessageSize then Inl (Error (''message too large: '' @ show_nat (unat bodyLength) @ '' bytes''))
         else bind_r (ReadFull r1 (unat bodyLength)) (\<lambda>(bodyBuf, r2).
           bind_r (Codec_Decode pb (headerBuf @ bodyBuf)) (\<lambda>m. Inr (m, r2))))))"

section \<open>Factory, stream, batch and compressed codecs\<close>

definition CreateMessage :: "int \<Rightarrow> int \<Rightarrow> uint64 \<Rightarrow> CodecMessage" where
  "CreateMessage nowMillis msgType seq =
     \<lparr>cm_Header = Some \<lparr>hd_Magic = 0xABCD, hd_Version = 1, hd_Type = msgType, hd_Seq = seq,
        hd_Timestamp = of_int nowMillis, hd_TraceId = []\<rparr>, cm_Body = None\<rparr>"

record StreamCodec =
  sc_reader :: bytes
  sc_writer :: bytes

definition WriteMessage :: "proto_lib \<Rightarrow> CodecMessage option \<Rightarrow> StreamCodec \<Rightarrow> unit result \<times> StreamCodec" where
  "WriteMessage pb msg s =
     (case EncodeToWriter pb msg (sc_writer s) of
        Inl e \<Rightarrow> (Inl e, s) | Inr w \<Rightarrow> (Inr (), s\<lparr>sc_writer := w\<rparr>))"

definition ReadMessage :: "proto_lib \<Rightarrow> StreamCodec \<Rightarrow> CodecMessage result \<times> StreamCodec" where
  "ReadMessage pb s =
     (case DecodeFromReader pb (sc_reader s) of
        Inl e \<Rightarrow> (Inl e, s) | Inr (m, r) \<Rightarrow> (Inr m, s\<lparr>sc_reader := r\<rparr>))"

fun encode_messages :: "proto_lib \<Rightarrow> CodecMessage list \<Rightarrow> bytes result" where
  "encode_messages pb [] = Inr []"
| "encode_messages pb (m # ms) =
     bind_r (Codec_Encode pb (Some m)) (\<lambda>data.
     bind_r (encode_messages pb ms) (\<lambda>rest. Inr (put_uint32 (of_nat (length data)) @ data @ rest)))"

definition EncodeBatch :: "proto_lib \<Rightarrow> CodecMessage list \<Rightarrow> bytes result" where
  "EncodeBatch pb messages =
     bind_r (encode_messages pb messages) (\<lambda>b. Inr (put_uint32 (of_nat (length messages)) @ b))"

fun decode_messages :: "proto_lib \<Rightarrow> nat \<Rightarrow> bytes \<Rightarrow> CodecMessage list result" where
  "decode_messages pb 0 r = Inr []"
| "decode_messages pb (Suc n) r =
     bind_r (ReadFull r 4) (\<lambda>(lenBytes, r1).
     bind_r (Uint32 lenBytes) (\<lambda>msgLength.
     bind_r (ReadFull r1 (unat msgLength)) (\<lambda>(msgData, r2).
     bind_r (Codec_Decode pb msgData) (\<lambda>m.
     bind_r (decode_messages pb n r2) (\<lambda>ms. Inr (m # ms))))))"

definition DecodeBatch :: "proto_lib \<Rightarrow> bytes \<Rightarrow> CodecMessage list result" where
  "DecodeBatch pb data =
     bind_r (ReadFull data 4) (\<lambda>(cnt, r). bind_r (Uint32 cnt) (\<lambda>n. decode_messages pb (unat n) r))"

text \<open>\<open>z_zip\<close> at a level fails for a level zlib does not have; \<open>z_unzip\<close> fails on a stream that is not one.\<close>

record zlib_lib =
  z_zip :: "int \<Rightarrow> bytes \<Rightarrow> bytes result"
  z_unzip :: "bytes \<Rightarrow> bytes result"

definition Compressed_Encode :: "proto_lib \<Rightarrow> zlib_lib \<Rightarrow> int \<Rightarrow> CodecMessage option \<Rightarrow> bytes result" where
  "Compressed_Encode pb z level msg =
     bind_r (Codec_Encode pb msg) (\<lambda>data.
       if length data < 256 then Inr data
       else bind_r (z_zip z level data) (\<lambda>c. Inr (0x01 # c)))"

definition Compressed_Decode :: "proto_lib \<Rightarrow> zlib_lib \<Rightarrow> bytes \<Rightarrow> CodecMessage result" where
  "Compressed_Decode pb z data =
     bind_r (if 0 < length data \<and> data ! 0 = 0x01 then z_unzip z (drop 1 data) else Inr data) (Codec_Decode pb)"

section \<open>What the encoder writes\<close>

lemma put_at_append: "length pre = i \<Longrightarrow> length mid = length xs \<Longrightarrow> put_at (pre @ mid @ post) i xs = Inr (pre @ xs @ post)"
  by (simp add: put_at_def)

lemma copy_at_append:
  "length pre = i \<Longrightarrow> copy_at (pre @ r) i xs = Inr (pre @ take (length r) xs @ drop (length xs) r)"
  by (simp add: copy_at_def)

definition fixed_header :: "Header \<Rightarrow> nat \<Rightarrow> bytes" where
  "fixed_header h n = put_uint16 ProtocolMagic @ [ProtocolVersion, of_int (hd_Type h)] @ put_uint32 (ucast (hd_Seq h)) @ put_uint32 (of_nat n)"

lemma length_fixed_header [simp]: "length (fixed_header h n) = 12"
  by (simp add: fixed_header_def)

text \<open>The buffer up to the length prefix, for a payload of at least two bytes.\<close>

lemma encode_prefix:
  assumes "2 \<le> n"
  shows "bind_r (put_at (replicate (HeaderSize + n) 0) 0 (put_uint16 ProtocolMagic)) (\<lambda>b1.
    bind_r (put_at b1 2 [ProtocolVersion, of_int (hd_Type h)]) (\<lambda>b2.
    bind_r (put_at b2 4 (put_uint32 (ucast (hd_Seq h)))) (\<lambda>b3.
    bind_r (put_at b3 8 (put_uint32 (of_nat n))) (\<lambda>b4.
    bind_r (copy_at b4 HeaderSize (replicate 2 0)) (\<lambda>b5.
    bind_r (put_at b5 HeaderSize (put_uint16 w)) f))))) =
    f (fixed_header h n @ put_uint16 w @ replicate (n - 2) 0)"
proof -
  let ?z = "replicate (n - 2) 0"
  have r: "replicate (12 + n) 0 = [] @ replicate 2 0 @ replicate 2 0 @ replicate 4 0 @ replicate 4 0 @ replicate 2 (0 :: byte) @ ?z"
    using assms by (intro sym [OF replicate_eqI]) auto
  note p = put_at_append
  have 1: "put_at (replicate (12 + n) 0) 0 (put_uint16 ProtocolMagic) =
      Inr (put_uint16 ProtocolMagic @ replicate 2 0 @ replicate 4 0 @ replicate 4 0 @ replicate 2 0 @ ?z)"
    unfolding r by (subst p) simp_all
  have 2: "put_at (put_uint16 ProtocolMagic @ replicate 2 0 @ replicate 4 0 @ replicate 4 0 @ replicate 2 0 @ ?z) 2
      [ProtocolVersion, of_int (hd_Type h)] =
      Inr (put_uint16 ProtocolMagic @ [ProtocolVersion, of_int (hd_Type h)] @ replicate 4 0 @ replicate 4 0 @ replicate 2 0 @ ?z)"
    by (subst p) simp_all
  let ?a = "put_uint16 ProtocolMagic @ [ProtocolVersion, of_int (hd_Type h)]"
  have 3: "put_at (?a @ replicate 4 0 @ replicate 4 0 @ replicate 2 0 @ ?z) 4 (put_uint32 (ucast (hd_Seq h))) =
      Inr (?a @ put_uint32 (ucast (hd_Seq h)) @ replicate 4 0 @ replicate 2 0 @ ?z)"
    by (subst p) simp_all
  let ?b = "?a @ put_uint32 (ucast (hd_Seq h))"
  have 4: "put_at (?b @ replicate 4 0 @ replicate 2 0 @ ?z) 8 (put_uint32 (of_nat n)) =
      Inr (fixed_header h n @ replicate 2 0 @ ?z)"
    by (subst p) (simp_all add: fixed_header_def)
  have 5: "copy_at (fixed_header h n @ replicate 2 0 @ ?z) HeaderSize (replicate 2 0) = Inr (fixed_header h n @ replicate 2 0 @ ?z)"
    by (subst copy_at_append) (simp_all add: HeaderSize_def numeral_2_eq_2)
  have 6: "put_at (fixed_header h n @ replicate 2 0 @ ?z) HeaderSize (put_uint16 w) = Inr (fixed_header h n @ put_uint16 w @ ?z)"
    by (rule put_at_append) (simp_all add: HeaderSize_def)
  show ?thesis
    using 1 2 3 4 5 6 by (simp only: bind_r.simps append_assoc append_Cons append_Nil HeaderSize_def)
qed

text \<open>
  The buffer has no room for the two bytes of the length prefix: a body of at least two bytes loses
  its last two, and with a shorter one the last \<^verbatim>\<open>copy\<close> starts beyond the end of the buffer.
\<close>

lemma encode_tail:
  assumes "2 \<le> length hb + length bb"
  shows "bind_r (copy_at (fixed_header h n @ put_uint16 w @ replicate (length hb + length bb - 2) 0) (HeaderSize + 2) hb)
      (\<lambda>b7. copy_at b7 (HeaderSize + 2 + length hb) bb) =
    (if 2 \<le> length bb then Inr (fixed_header h n @ put_uint16 w @ hb @ take (length bb - 2) bb)
     else Inl (Panic ''slice bounds out of range''))"
proof -
  let ?p = "fixed_header h n @ put_uint16 w" and ?m = "length hb + length bb - 2"
  have 1: "copy_at (?p @ replicate ?m 0) (HeaderSize + 2) hb =
      Inr (?p @ take ?m hb @ replicate (?m - length hb) 0)"
    by (subst copy_at_append) (simp_all add: HeaderSize_def)
  show ?thesis
  proof (cases "2 \<le> length bb")
    case True
    then have "take ?m hb = hb" "?m - length hb = length bb - 2" by simp_all
    moreover have "copy_at ((?p @ hb) @ replicate (length bb - 2) 0) (HeaderSize + 2 + length hb) bb =
        Inr ((?p @ hb) @ take (length bb - 2) bb)"
      by (subst copy_at_append) (simp_all add: HeaderSize_def)
    ultimately show ?thesis using 1 True by simp
  next
    case False
    then have "copy_at (?p @ take ?m hb @ replicate (?m - length hb) 0) (HeaderSize + 2 + length hb) bb =
        Inl (Panic ''slice bounds out of range'')"
      using assms by (auto simp: copy_at_def HeaderSize_def)
    then show ?thesis using 1 False by simp
  qed
qed

lemma put_at_length: "put_at b i xs = Inr b' \<Longrightarrow> length b' = length b \<and> i + length xs \<le> length b"
  by (auto simp: put_at_def split: if_splits)

lemma copy_at_length: "copy_at b i xs = Inr b' \<Longrightarrow> length b' = length b"
  by (auto simp: copy_at_def split: if_splits)

lemma encode_buffer_shape:
  "encode_buffer h hb bb = Inr data \<longleftrightarrow> 2 \<le> length bb \<and>
     data = fixed_header h (length hb + length bb) @ put_uint16 (of_nat (length hb)) @ hb @ take (length bb - 2) bb"
proof (cases "2 \<le> length hb + length bb")
  case True
  then show ?thesis
    using encode_tail [of hb bb h "length hb + length bb" "of_nat (length hb)"]
    unfolding encode_buffer_def Let_def by (subst encode_prefix) auto
next
  case False
  then have "encode_buffer h hb bb \<noteq> Inr data"
    by (auto simp: encode_buffer_def Let_def bind_r_eq_Inr HeaderSize_def dest!: put_at_length copy_at_length)
  then show ?thesis using False by auto
qed

lemma encode_buffer_short: "2 \<le> length hb \<Longrightarrow> length bb < 2 \<Longrightarrow> panics (encode_buffer h hb bb)"
  using encode_tail [of hb bb h "length hb + length bb" "of_nat (length hb)"]
  unfolding encode_buffer_def Let_def by (subst encode_prefix) auto

definition body_bytes :: "proto_lib \<Rightarrow> Body option \<Rightarrow> bytes result" where
  "body_bytes pb body = (case body of None \<Rightarrow> Inr [] | Some b \<Rightarrow> mar_body pb b)"

lemma Codec_Encode_buffer:
  assumes "mar_header pb h = Inr hb" "body_bytes pb body = Inr bb" "12 + length hb + length bb \<le> MaxMessageSize"
  shows "Codec_Encode pb (Some \<lparr>cm_Header = Some h, cm_Body = body\<rparr>) = encode_buffer h hb bb"
  using assms by (cases body) (auto simp: Codec_Encode_def body_bytes_def wrap_r_def Let_def HeaderSize_def)

lemma Codec_Encode_Inr:
  assumes "Codec_Encode pb msg = Inr data"
  shows "\<exists>h hb bb. data = fixed_header h (length hb + length bb) @ put_uint16 (of_nat (length hb)) @ hb @ take (length bb - 2) bb \<and>
    2 \<le> length bb \<and> 12 + length hb + length bb \<le> MaxMessageSize"
proof -
  obtain h hb bb where "encode_buffer h hb bb = Inr data" "\<not> MaxMessageSize < 12 + length hb + length bb"
    using assms by (auto simp: Codec_Encode_def bind_r_eq_Inr Let_def HeaderSize_def split: option.splits if_splits)
  then show ?thesis unfolding encode_buffer_shape by (metis not_less)
qed

lemma Codec_Encode_packet:
  "Codec_Encode pb msg = Inr data \<Longrightarrow> \<exists>h p n. data = fixed_header h n @ p \<and> length p = n \<and> n \<le> MaxMessageSize"
  by (drule Codec_Encode_Inr) (elim exE conjE, intro exI conjI, assumption, simp_all)

section \<open>Reading it back\<close>

lemma fixed_header_reads:
  "Uint16 (fixed_header h n @ r) = Inr ProtocolMagic" "(fixed_header h n @ r) ! 0 = 0xAB" "(fixed_header h n @ r) ! 2 = ProtocolVersion"
  "(fixed_header h n @ r) ! 3 = of_int (hd_Type h)" "Uint32 (drop 8 (fixed_header h n @ r)) = Inr (of_nat n)"
  "drop 12 (fixed_header h n @ r) = r"
proof -
  let ?t = "[ProtocolVersion, of_int (hd_Type h)] @ put_uint32 (ucast (hd_Seq h)) @ put_uint32 (of_nat n) @ r"
  have e: "fixed_header h n @ r = put_uint16 ProtocolMagic @ ?t" by (simp add: fixed_header_def)
  show "Uint16 (fixed_header h n @ r) = Inr ProtocolMagic" unfolding e by simp
  show "(fixed_header h n @ r) ! 0 = 0xAB" "(fixed_header h n @ r) ! 2 = ProtocolVersion" "(fixed_header h n @ r) ! 3 = of_int (hd_Type h)"
    by (simp_all add: e put_uint16_def ProtocolMagic_def hi16_def nth_append)
  have "drop 8 (fixed_header h n @ r) = put_uint32 (of_nat n) @ r" by (simp add: fixed_header_def)
  then show "Uint32 (drop 8 (fixed_header h n @ r)) = Inr (of_nat n)" by simp
  show "drop 12 (fixed_header h n @ r) = r" by simp
qed

text \<open>Decoding a packet with the right fixed header is decoding its payload.\<close>

lemma Codec_Decode_fixed:
  assumes "length p = n" "n \<le> MaxMessageSize"
  shows "Codec_Decode pb (fixed_header h n @ p) = decode_payload pb (of_int (hd_Type h)) p"
proof -
  define data where "data = fixed_header h n @ p"
  have len: "unat (of_nat n :: uint32) = n"
    using assms(2) by (intro unat_of_nat_uint32) (simp add: MaxMessageSize_def)
  have "Uint16 data = Inr ProtocolMagic" "data ! 2 = ProtocolVersion" "data ! 3 = of_int (hd_Type h)"
    "Uint32 (drop 8 data) = Inr (of_nat n)" "drop 12 data = p" "length data = 12 + n"
    unfolding data_def using assms(1) fixed_header_reads [of h n p] by simp_all
  then show ?thesis
    using len assms
    by (simp add: Codec_Decode_def HeaderSize_def Let_def flip: data_def)
qed

lemma decode_payload_prefixed:
  assumes "un_header pb hb = Inr h" "magic_ok h" "2 \<le> length hb" "length hb \<le> 65535"
  shows "decode_payload pb ty (put_uint16 (of_nat (length hb)) @ hb @ r) =
    Inr \<lparr>cm_Header = Some h, cm_Body = (if r \<noteq> [] then unmarshalBody pb (int (unat ty)) r else None)\<rparr>"
proof -
  let ?p = "put_uint16 (of_nat (length hb)) @ hb @ r"
  have hl: "256 * unat (?p ! 0) + unat (?p ! 1) = length hb"
    using assms(4) unat_hi_lo [of "of_nat (length hb)"] by (simp add: put_uint16_def unat_of_nat_uint16)
  have "split_by_prefix magic_ok pb ?p = Some (hb, r)"
    using hl assms(1-3) by (simp add: split_by_prefix_def header_ok_def Let_def)
  then show ?thesis using assms(1) by (simp add: decode_payload_def wrap_r_def)
qed

text \<open>
  C40: The codec does not carry its own messages.  The encoder allots no room for the length prefix it
  writes: a message whose body is shorter than two bytes, any message without a body included, makes
  it panic, and every other one decodes with its header and a body that lacks its last two bytes.
\<close>

theorem codec_loses_two_bytes:
  assumes "mar_header pb h = Inr hb" "un_header pb hb = Inr h" "magic_ok h" "hd_Type h \<in> {0..7}"
    and "body_bytes pb body = Inr bb" "2 \<le> length hb" "length hb \<le> 65535" "12 + length hb + length bb \<le> MaxMessageSize"
    and "msg = \<lparr>cm_Header = Some h, cm_Body = body\<rparr>"
  shows "(length bb < 2 \<longrightarrow> panics (Codec_Encode pb (Some msg))) \<and>
    (2 \<le> length bb \<longrightarrow> (\<exists>data. Codec_Encode pb (Some msg) = Inr data \<and> Codec_Decode pb data =
      Inr \<lparr>cm_Header = Some h, cm_Body = (let rest = take (length bb - 2) bb in if rest = [] then None else unmarshalBody pb (hd_Type h) rest)\<rparr>))"
proof -
  have enc: "Codec_Encode pb (Some msg) = encode_buffer h hb bb" using Codec_Encode_buffer assms(1,5,8,9) by simp
  let ?r = "take (length bb - 2) bb"
  have ty: "int (unat (of_int (hd_Type h) :: byte)) = hd_Type h"
    using assms(4) by (simp add: uint_word_of_int)
  have "Codec_Decode pb (fixed_header h (length hb + length bb) @ put_uint16 (of_nat (length hb)) @ hb @ ?r) =
      Inr \<lparr>cm_Header = Some h, cm_Body = (if ?r \<noteq> [] then unmarshalBody pb (hd_Type h) ?r else None)\<rparr>" if "2 \<le> length bb"
    using that assms(8) decode_payload_prefixed [OF assms(2,3,6,7), of "of_int (hd_Type h)" ?r] ty
      Codec_Decode_fixed [of "put_uint16 (of_nat (length hb)) @ hb @ ?r" "length hb + length bb" pb h] by simp
  then show ?thesis
    using enc encode_buffer_short [OF assms(6), of bb h] encode_buffer_shape [of h hb bb] by (auto simp: Let_def)
qed

section \<open>A marshalling for the witnesses\<close>

text \<open>The netstring codec of the prelude as a stand-in for protobuf: the metadata of a message is not carried.\<close>

definition net_fields :: "string list \<Rightarrow> bytes" where
  "net_fields fs = to_bytes (concat (map enc_str fs))"

definition show_w :: "'a::len word \<Rightarrow> string" where
  "show_w w = show_int (uint w)"

definition read_w :: "string \<Rightarrow> 'a::len word" where
  "read_w t = (case parse_int t of Some i \<Rightarrow> of_int i | None \<Rightarrow> 0)"

definition read_i :: "string \<Rightarrow> int" where
  "read_i t = (case parse_int t of Some i \<Rightarrow> i | None \<Rightarrow> 0)"

lemma read_show_w [simp]: "read_w (show_w w) = w" "read_i (show_int i) = i"
  by (simp_all add: read_w_def show_w_def read_i_def)

fun net_body :: "Body \<Rightarrow> bytes" where
  "net_body (BAuthRequest r) = net_fields [arq_Token r, arq_DeviceId r, arq_AppVersion r, arq_Os r, arq_OsVersion r]"
| "net_body (BAuthResponse r) = net_fields [show_int (ars_Code r), ars_Message r, ars_SessionId r, show_w (ars_ExpiresAt r)]"
| "net_body (BHeartbeat r) = net_fields [show_w (hb_ClientTime r)]"
| "net_body (BHeartbeatAck r) = net_fields [show_w (hba_ServerTime r)]"
| "net_body (BMessage r) = net_fields [bm_RequestId r, bm_From r, bm_To r, bm_Content r, bm_Type r, show_w (bm_Timestamp r)]"
| "net_body (BMessageAck r) = net_fields [mak_RequestId r, show_int (mak_Code r), mak_Message r, show_w (mak_Timestamp r)]"
| "net_body (BPush r) = net_fields [psh_MessageId r, psh_From r, psh_Content r, show_w (psh_Timestamp r)]"
| "net_body (BError r) = net_fields [show_int (err_Code r), err_Message r]"

definition net_proto :: proto_lib where
  "net_proto = \<lparr>
     mar_header = \<lambda>h. Inr (net_fields [show_w (hd_Magic h), show_w (hd_Version h), show_int (hd_Type h), show_w (hd_Seq h),
       show_w (hd_Timestamp h), hd_TraceId h]),
     un_header = \<lambda>b. (case dec_strs 6 (to_string b) of
         Some [m, v, ty, sq, ts, tr] \<Rightarrow> Inr \<lparr>hd_Magic = read_w m, hd_Version = read_w v, hd_Type = read_i ty, hd_Seq = read_w sq,
           hd_Timestamp = read_w ts, hd_TraceId = tr\<rparr>
       | _ \<Rightarrow> Inl (Error ''proto'')),
     mar_body = \<lambda>b. Inr (net_body b),
     un_body = \<lambda>ty b.
       if ty = AUTH then (case dec_strs 5 (to_string b) of
           Some [t, d, a, os, ov] \<Rightarrow> Inr (BAuthRequest \<lparr>arq_Token = t, arq_DeviceId = d, arq_AppVersion = a, arq_Os = os, arq_OsVersion = ov\<rparr>)
         | _ \<Rightarrow> Inl (Error ''proto''))
       else if ty = MESSAGE then (case dec_strs 6 (to_string b) of
           Some [i, f, t, c, y, ts] \<Rightarrow> Inr (BMessage \<lparr>bm_RequestId = i, bm_From = f, bm_To = t, bm_Content = c, bm_Type = y,
             bm_Metadata = Map.empty, bm_Timestamp = read_w ts\<rparr>)
         | _ \<Rightarrow> Inl (Error ''proto''))
       else Inl (Error ''proto'')\<rparr>"

lemma net_fields_read: "n = length fs \<Longrightarrow> dec_strs n (to_string (net_fields fs)) = Some fs"
  by (simp add: net_fields_def dec_enc_strs_end)

lemma net_fields_Cons: "length (net_fields (f # fs)) \<ge> 2"
proof -
  have "show_nat (length f) \<noteq> []" by simp
  then show ?thesis by (cases "show_nat (length f)") (simp_all add: net_fields_def enc_str_def)
qed

lemma net_proto_header:
  "\<exists>hb. mar_header net_proto h = Inr hb \<and> un_header net_proto hb = Inr h \<and> 2 \<le> length hb"
proof -
  let ?fs = "[show_w (hd_Magic h), show_w (hd_Version h), show_int (hd_Type h), show_w (hd_Seq h), show_w (hd_Timestamp h), hd_TraceId h]"
  have "dec_strs 6 (to_string (net_fields ?fs)) = Some ?fs" by (rule net_fields_read) simp
  then have "un_header net_proto (net_fields ?fs) = Inr h"
    unfolding net_proto_def by (simp del: dec_strs.simps)
  then show ?thesis using net_fields_Cons by (auto simp: net_proto_def)
qed

definition small_header :: Header where
  "small_header = \<lparr>hd_Magic = 0xABCD, hd_Version = 1, hd_Type = 3, hd_Seq = 7, hd_Timestamp = 9, hd_TraceId = ''t''\<rparr>"

lemma small_header_bytes:
  "\<exists>hb. mar_header net_proto small_header = Inr hb \<and> un_header net_proto hb = Inr small_header \<and> 2 \<le> length hb \<and> length hb \<le> 100"
proof -
  have "length (net_fields [show_w (0xABCD :: uint32), show_w (1 :: uint32), show_int 3, show_w (7 :: uint64), show_w (9 :: uint64), ''t'']) \<le> 100"
    by (simp add: net_fields_def enc_str_def show_w_def show_int_def show_nat.simps)
  then show ?thesis
    using net_proto_header [of small_header] by (auto simp: net_proto_def small_header_def)
qed

theorem codec_loses_two_bytes_witness:
  "panics (Codec_Encode net_proto (Some \<lparr>cm_Header = Some small_header, cm_Body = None\<rparr>))"
proof -
  obtain hb where hb: "mar_header net_proto small_header = Inr hb" "un_header net_proto hb = Inr small_header" "2 \<le> length hb" "length hb \<le> 100"
    using small_header_bytes by blast
  have "magic_ok small_header" "hd_Type small_header \<in> {0..7}" by (simp_all add: magic_ok_def small_header_def)
  from codec_loses_two_bytes [OF hb(1,2) this, of None "[]"] hb show ?thesis
    by (simp add: body_bytes_def MaxMessageSize_def)
qed

section \<open>Framings around the codec\<close>

lemma DecodeFromReader_encoded:
  assumes "Codec_Encode pb m = Inr data"
  shows "DecodeFromReader pb (data @ rest) = bind_r (Codec_Decode pb data) (\<lambda>x. Inr (x, rest))"
proof -
  obtain h p n where data: "data = fixed_header h n @ p" and n: "length p = n" "n \<le> MaxMessageSize"
    using Codec_Encode_packet [OF assms] by blast
  have len: "unat (of_nat n :: uint32) = n"
    using n(2) by (intro unat_of_nat_uint32) (simp add: MaxMessageSize_def)
  have "ReadFull (fixed_header h n @ p @ rest) HeaderSize = Inr (fixed_header h n, p @ rest)"
    "ReadFull (p @ rest) n = Inr (p, rest)"
    using n(1) by (simp_all add: ReadFull_append HeaderSize_def)
  moreover have "Uint16 (fixed_header h n) = Inr ProtocolMagic" "Uint32 (drop 8 (fixed_header h n)) = Inr (of_nat n)"
    using fixed_header_reads(1,5) [of h n "[]"] by simp_all
  ultimately show ?thesis
    using len n(2) by (simp add: DecodeFromReader_def data)
qed

lemma Compressed_roundtrip:
  assumes "Codec_Encode pb m = Inr data" "Compressed_Encode pb z level m = Inr c"
    and "\<And>d c. z_zip z level d = Inr c \<Longrightarrow> z_unzip z c = Inr d"
  shows "Compressed_Decode pb z c = Codec_Decode pb data"
proof -
  obtain h p n where data: "data = fixed_header h n @ p" using Codec_Encode_packet [OF assms(1)] by blast
  have "data ! 0 = 0xAB" using fixed_header_reads(2) [of h n p] data by simp
  then show ?thesis
    using assms(1,2) by (auto simp: Compressed_Encode_def Compressed_Decode_def bind_r_eq_Inr dest: assms(3) split: if_splits)
qed

text \<open>What a batch should decode to: every message on its own.\<close>

fun decode_each :: "proto_lib \<Rightarrow> CodecMessage list \<Rightarrow> CodecMessage list result" where
  "decode_each pb [] = Inr []"
| "decode_each pb (m # ms) =
     bind_r (bind_r (Codec_Encode pb (Some m)) (Codec_Decode pb)) (\<lambda>x. bind_r (decode_each pb ms) (\<lambda>xs. Inr (x # xs)))"

lemma decode_messages_encoded:
  "encode_messages pb ms = Inr b \<Longrightarrow> decode_messages pb (length ms) b = decode_each pb ms"
proof (induction ms arbitrary: b)
  case (Cons m ms)
  obtain data rest where d: "Codec_Encode pb (Some m) = Inr data" "encode_messages pb ms = Inr rest"
      "b = put_uint32 (of_nat (length data)) @ data @ rest"
    using Cons.prems by (auto simp: bind_r_eq_Inr)
  have "length data \<le> 12 + MaxMessageSize" using Codec_Encode_packet [OF d(1)] by auto
  then have len: "unat (of_nat (length data) :: uint32) = length data"
    by (intro unat_of_nat_uint32) (simp add: MaxMessageSize_def)
  have "ReadFull b 4 = Inr (put_uint32 (of_nat (length data)), data @ rest)" "ReadFull (data @ rest) (length data) = Inr (data, rest)"
    "Uint32 (put_uint32 (of_nat (length data))) = Inr (of_nat (length data))"
    using Uint32_put [of "of_nat (length data)" "[]"] by (simp_all add: d(3) ReadFull_append)
  then show ?case using Cons.IH [OF d(2)] d(1) len by simp
qed simp

text \<open>
  The framings around the codec are transparent: reading an encoded message from a stream,
  compressing it and decompressing it, and sending it in a batch give exactly what decoding it alone
  gives, and a stream read leaves the rest of the stream, for any zlib that inverts itself.
\<close>

theorem codec_framings_transparent:
  assumes "Codec_Encode pb (Some m) = Inr data"
    and "\<And>d c. z_zip z level d = Inr c \<Longrightarrow> z_unzip z c = Inr d"
  shows "DecodeFromReader pb (data @ rest) = bind_r (Codec_Decode pb data) (\<lambda>x. Inr (x, rest)) \<and>
    (\<forall>c. Compressed_Encode pb z level (Some m) = Inr c \<longrightarrow> Compressed_Decode pb z c = Codec_Decode pb data) \<and>
    (\<forall>ms b. EncodeBatch pb ms = Inr b \<longrightarrow> length ms < 4294967296 \<longrightarrow> DecodeBatch pb b = decode_each pb ms)"
proof (intro conjI allI impI)
  show "DecodeFromReader pb (data @ rest) = bind_r (Codec_Decode pb data) (\<lambda>x. Inr (x, rest))"
    by (rule DecodeFromReader_encoded [OF assms(1)])
  show "Compressed_Decode pb z c = Codec_Decode pb data" if "Compressed_Encode pb z level (Some m) = Inr c" for c
    using Compressed_roundtrip [OF assms(1) that assms(2)] .
  fix ms b assume b: "EncodeBatch pb ms = Inr b" "length ms < 4294967296"
  then obtain b' where b': "encode_messages pb ms = Inr b'" "b = put_uint32 (of_nat (length ms)) @ b'"
    by (auto simp: EncodeBatch_def bind_r_eq_Inr)
  have "ReadFull b 4 = Inr (put_uint32 (of_nat (length ms)), b')" "Uint32 (put_uint32 (of_nat (length ms))) = Inr (of_nat (length ms))"
    using Uint32_put [of "of_nat (length ms)" "[]"] by (simp_all add: b'(2) ReadFull_append)
  then show "DecodeBatch pb b = decode_each pb ms"
    using decode_messages_encoded [OF b'(1)] unat_of_nat_uint32 [OF b(2)] by (simp add: DecodeBatch_def)
qed

definition stored_zlib :: zlib_lib where
  "stored_zlib = \<lparr>z_zip = \<lambda>level d. Inr d, z_unzip = Inr\<rparr>"

definition small_message :: CodecMessage where
  "small_message = \<lparr>cm_Header = Some small_header, cm_Body = Some (BHeartbeatAck \<lparr>hba_ServerTime = 9\<rparr>)\<rparr>"

lemma small_message_encodes: "\<exists>data. Codec_Encode net_proto (Some small_message) = Inr data"
proof -
  obtain hb where hb: "mar_header net_proto small_header = Inr hb" "length hb \<le> 100"
    using small_header_bytes by blast
  have bb: "2 \<le> length (net_fields [show_w (9 :: uint64)])" "length (net_fields [show_w (9 :: uint64)]) \<le> 100"
    by (simp_all add: net_fields_def enc_str_def show_w_def show_int_def show_nat.simps)
  have "body_bytes net_proto (Some (BHeartbeatAck \<lparr>hba_ServerTime = 9\<rparr>)) = Inr (net_fields [show_w (9 :: uint64)])"
    by (simp add: body_bytes_def net_proto_def)
  then have "Codec_Encode net_proto (Some small_message) = encode_buffer small_header hb (net_fields [show_w (9 :: uint64)])"
    unfolding small_message_def using hb bb by (intro Codec_Encode_buffer) (simp_all add: MaxMessageSize_def)
  moreover obtain data where "encode_buffer small_header hb (net_fields [show_w (9 :: uint64)]) = Inr data"
    using bb(1) encode_buffer_shape [of small_header hb "net_fields [show_w (9 :: uint64)]"] by simp
  ultimately show ?thesis by simp
qed

theorem codec_framings_transparent_witness:
  "\<exists>data. Codec_Encode net_proto (Some small_message) = Inr data \<and>
     DecodeFromReader net_proto (data @ [1, 2]) = bind_r (Codec_Decode net_proto data) (\<lambda>x. Inr (x, [1, 2])) \<and>
     (\<forall>b. EncodeBatch net_proto [small_message, small_message] = Inr b \<longrightarrow>
        DecodeBatch net_proto b = decode_each net_proto [small_message, small_message])"
proof -
  obtain data where data: "Codec_Encode net_proto (Some small_message) = Inr data" using small_message_encodes by blast
  have z: "\<And>d c. z_zip stored_zlib 6 d = Inr c \<Longrightarrow> z_unzip stored_zlib c = Inr d" by (auto simp: stored_zlib_def)
  have n: "length [small_message, small_message] < 4294967296" by simp
  show ?thesis
    using codec_framings_transparent [OF data z, where rest = "[1, 2]"] data n by blast
qed

end
