(* ===== verification/Cend.thy ===== *)
theory Cend
  imports CendCodec Shadow CommandQueue RateLimit Auth Kafka
begin

text \<open>
  The C-end gateway: \<^verbatim>\<open>internal/gateway/cend/connection.go\<close>, \<^verbatim>\<open>handler.go\<close> and \<^verbatim>\<open>server.go\<close>.  Connections
  are objects that outlive their entry in the table, so they live in a heap and the table maps an
  identifier to a reference.  One record holds the server, its handler and the state of the Redis
  and Kafka packages.  The environment of a call carries the libraries, the clock (one reading in
  nanoseconds per call), the identifiers the generators return and the choices the scheduler makes.
  A handler is one step; a panic in it, which nothing recovers, is the result \<open>Inl (Panic m)\<close>.  Log
  output is left out.
\<close>

section \<open>Connections (connection.go)\<close>

datatype ConnectionStatus = StatusConnecting | StatusAuthed | StatusClosed

datatype ws_frame = BinaryFrame bytes | PingFrame

text \<open>
  \<open>cn_CloseChan\<close> says that the channel is closed, \<open>cn_once\<close> that \<^verbatim>\<open>closeOnce\<close> has run and \<open>cn_ConnClosed\<close>
  that the socket is closed; \<open>cn_frames\<close> is what was written to the socket.
\<close>

record Connection =
  cn_ID :: string
  cn_UserID :: string
  cn_DeviceID :: string
  cn_Status :: ConnectionStatus
  cn_LastActive :: int
  cn_SendChan :: "bytes list"
  cn_CloseChan :: bool
  cn_once :: bool
  cn_ConnClosed :: bool
  cn_frames :: "ws_frame list"
  cn_GatewayID :: string

definition NewConnection :: "string \<Rightarrow> string \<Rightarrow> int \<Rightarrow> Connection" where
  "NewConnection connID gatewayID now =
     \<lparr>cn_ID = connID, cn_UserID = [], cn_DeviceID = [], cn_Status = StatusConnecting, cn_LastActive = now,
      cn_SendChan = [], cn_CloseChan = False, cn_once = False, cn_ConnClosed = False, cn_frames = [],
      cn_GatewayID = gatewayID\<rparr>"

section \<open>Server and handler state\<close>

record HandlerMetrics =
  AuthRequests :: int
  AuthSuccess :: int
  AuthFailures :: int
  MessagesReceived :: int
  MessagesSent :: int
  MessagesFailed :: int
  Heartbeats :: int
  ProcessingTime :: int
  ActiveWorkers :: int
  ShadowQueries :: int
  ChargeCommands :: int
  ChargeRejected :: int
  Subscriptions :: int
  PushesSent :: int

text \<open>
  \<open>cs_subscribers\<close> maps a device to the users subscribed to it, each once; \<open>cs_sends\<close> counts the calls
  of \<open>SendMessage\<close>, so that the generated identifiers can differ from call to call.
\<close>

record ('r, 'priv, 'pub) CendServer =
  cs_ID :: string
  cs_Config :: CendConfig
  cs_Connections :: "string \<rightharpoonup> nat"
  cs_heap :: "Connection list"
  cs_ConnCount :: int
  cs_JWTManager :: "('priv option, 'pub option) JWTManager"
  cs_Metrics :: HandlerMetrics
  cs_Shadow :: Manager
  cs_CmdQueue :: Queue
  cs_AcceptLimiter :: AcceptLimiter
  cs_subscribers :: "string \<rightharpoonup> string list"
  cs_redis :: "'r RedisState"
  cs_mq :: "BizMessage MQ"
  cs_sends :: nat

text \<open>
  What the handler does with JSON.  \<open>cj_params\<close> unmarshals the content of a command into a Go map: it
  fails, or gives a map, or sets the map to nil (\<open>None\<close>) as the text \<^verbatim>\<open>null\<close> does; \<open>cj_marshal\<close> marshals
  the parameters; the others are the texts sent to clients.
\<close>

datatype jval = JStr string | JInt int | JText string

record cend_json =
  cj_params :: "string \<Rightarrow> (string \<rightharpoonup> jval) option result"
  cj_marshal :: "(string \<rightharpoonup> jval) \<Rightarrow> string"
  cj_shadow :: "Shadow \<Rightarrow> string"
  cj_ack :: "string \<Rightarrow> string \<Rightarrow> string"
  cj_event :: "ShadowEvent \<Rightarrow> bytes"
  cj_result :: "string \<Rightarrow> CmdResult \<Rightarrow> bytes"

text \<open>
  \<open>ce_closed_first\<close> is the choice of \<^verbatim>\<open>select\<close> when a send and the closed channel are both ready,
  \<open>ce_busy\<close> the number of worker slots other calls hold, \<open>ce_order\<close> the iteration order of a Go map
  with the given keys, \<open>ce_elapsed\<close> the processing time measured.
\<close>

record ('r, 'priv, 'pub) CEnv =
  ce_ops :: "'r redis_ops"
  ce_js :: json_ops
  ce_cj :: cmd_json
  ce_json :: cend_json
  ce_pb :: proto_lib
  ce_jwt :: "('priv option, 'pub option) jwt_lib"
  ce_now :: int
  ce_trace :: "nat \<Rightarrow> string"
  ce_mid :: "nat \<Rightarrow> string"
  ce_sid :: string
  ce_rid :: string
  ce_cid :: string
  ce_kafka :: "unit result"
  ce_closed_first :: "nat \<Rightarrow> bool"
  ce_busy :: nat
  ce_order :: "string list \<Rightarrow> string list"
  ce_elapsed :: int

abbreviation ce_unix :: "('r, 'priv, 'pub) CEnv \<Rightarrow> int" where "ce_unix e \<equiv> ce_now e div second"
abbreviation ce_millis :: "('r, 'priv, 'pub) CEnv \<Rightarrow> int" where "ce_millis e \<equiv> ce_now e div 1000000"

definition upd_conn :: "nat \<Rightarrow> (Connection \<Rightarrow> Connection) \<Rightarrow> ('r, 'priv, 'pub) CendServer \<Rightarrow> ('r, 'priv, 'pub) CendServer" where
  "upd_conn c f s = s\<lparr>cs_heap := (cs_heap s)[c := f (cs_heap s ! c)]\<rparr>"

definition cmetric :: "(HandlerMetrics \<Rightarrow> HandlerMetrics) \<Rightarrow> ('r, 'priv, 'pub) CendServer \<Rightarrow> ('r, 'priv, 'pub) CendServer" where
  "cmetric f s = s\<lparr>cs_Metrics := f (cs_Metrics s)\<rparr>"

definition on_redis :: "('r RedisState \<Rightarrow> 'v \<times> 'r RedisState) \<Rightarrow> ('r, 'priv, 'pub) CendServer \<Rightarrow> 'v \<times> ('r, 'priv, 'pub) CendServer" where
  "on_redis f s = (let (v, g) = f (cs_redis s) in (v, s\<lparr>cs_redis := g\<rparr>))"

definition on_shadow :: "(Manager \<times> 'r RedisState \<Rightarrow> 'v \<times> Manager \<times> 'r RedisState) \<Rightarrow>
    ('r, 'priv, 'pub) CendServer \<Rightarrow> 'v \<times> ('r, 'priv, 'pub) CendServer" where
  "on_shadow f s = (let (v, m, g) = f (cs_Shadow s, cs_redis s) in (v, s\<lparr>cs_Shadow := m, cs_redis := g\<rparr>))"

definition on_queue :: "(Queue \<times> 'r RedisState \<Rightarrow> 'v \<times> Queue \<times> 'r RedisState) \<Rightarrow>
    ('r, 'priv, 'pub) CendServer \<Rightarrow> 'v \<times> ('r, 'priv, 'pub) CendServer" where
  "on_queue f s = (let (v, q, g) = f (cs_CmdQueue s, cs_redis s) in (v, s\<lparr>cs_CmdQueue := q, cs_redis := g\<rparr>))"

text \<open>
  \<open>SendMessage\<close> queues \<^verbatim>\<open>[2B headerLen][header][body]\<close>.  With no room in the channel and the connection
  open it waits: the runs in which the writer or a close comes in time are those where that step is
  before this one, so here it times out.
\<close>

definition SendMessage :: "('r, 'priv, 'pub) CEnv \<Rightarrow> nat \<Rightarrow> int \<Rightarrow> uint64 \<Rightarrow> Body \<Rightarrow> ('r, 'priv, 'pub) CendServer \<Rightarrow>
    unit result \<times> ('r, 'priv, 'pub) CendServer" where
  "SendMessage e c msgType seq msg s0 =
     (let n = cs_sends s0; s = s0\<lparr>cs_sends := n + 1\<rparr>; conn = cs_heap s ! c;
          header = \<lparr>hd_Magic = 0xABCD, hd_Version = 1, hd_Type = msgType, hd_Seq = seq,
                    hd_Timestamp = of_int (ce_millis e), hd_TraceId = ce_trace e n\<rparr>
      in case mar_body (ce_pb e) msg of
           Inl er \<Rightarrow> (Inl er, s)
         | Inr body \<Rightarrow>
             (case mar_header (ce_pb e) header of
                Inl er \<Rightarrow> (Inl er, s)
              | Inr headerBytes \<Rightarrow>
                  (let data = put_uint16 (of_nat (length headerBytes)) @ headerBytes @ body;
                       room = length (cn_SendChan conn) < 256
                   in if room \<and> \<not> (cn_CloseChan conn \<and> ce_closed_first e n)
                      then (Inr (), upd_conn c (\<lambda>cn. cn\<lparr>cn_SendChan := cn_SendChan cn @ [data]\<rparr>) s)
                      else if cn_CloseChan conn then (Inl (Error ''connection closed''), s)
                      else (Inl (Error ''send timeout''), s))))"

definition Close :: "('r, 'priv, 'pub) CEnv \<Rightarrow> nat \<Rightarrow> ('r, 'priv, 'pub) CendServer \<Rightarrow> ('r, 'priv, 'pub) CendServer" where
  "Close e c s =
     (let conn = cs_heap s ! c in
      if cn_once conn then s
      else if cn_Status conn = StatusClosed then upd_conn c (\<lambda>cn. cn\<lparr>cn_once := True\<rparr>) s
      else (let s1 = upd_conn c (\<lambda>cn. cn\<lparr>cn_once := True, cn_Status := StatusClosed, cn_CloseChan := True,
                                          cn_ConnClosed := True\<rparr>) s
            in if cn_UserID conn \<noteq> [] then snd (on_redis (RemoveOnlineUser (ce_ops e) (cn_UserID conn)) s1) else s1))"

section \<open>Replies (handler.go)\<close>

text \<open>The three senders only log a failure.\<close>

definition sendAuthResponse :: "('r, 'priv, 'pub) CEnv \<Rightarrow> nat \<Rightarrow> uint64 \<Rightarrow> int \<Rightarrow> string \<Rightarrow> string \<Rightarrow> uint64 \<Rightarrow>
    ('r, 'priv, 'pub) CendServer \<Rightarrow> ('r, 'priv, 'pub) CendServer" where
  "sendAuthResponse e c seq code message sessionID expiresAt s =
     snd (SendMessage e c AUTH_ACK seq
       (BAuthResponse \<lparr>ars_Code = code, ars_Message = message, ars_SessionId = sessionID, ars_ExpiresAt = expiresAt\<rparr>) s)"

definition sendMessageAck :: "('r, 'priv, 'pub) CEnv \<Rightarrow> nat \<Rightarrow> uint64 \<Rightarrow> string \<Rightarrow> int \<Rightarrow> string \<Rightarrow>
    ('r, 'priv, 'pub) CendServer \<Rightarrow> ('r, 'priv, 'pub) CendServer" where
  "sendMessageAck e c seq requestID code message s =
     snd (SendMessage e c MESSAGE_ACK seq
       (BMessageAck \<lparr>mak_RequestId = requestID, mak_Code = code, mak_Message = message, mak_Timestamp = of_int (ce_millis e)\<rparr>) s)"

definition sendError :: "('r, 'priv, 'pub) CEnv \<Rightarrow> nat \<Rightarrow> uint64 \<Rightarrow> int \<Rightarrow> string \<Rightarrow>
    ('r, 'priv, 'pub) CendServer \<Rightarrow> ('r, 'priv, 'pub) CendServer" where
  "sendError e c seq code message s =
     snd (SendMessage e c ERROR seq (BError \<lparr>err_Code = code, err_Message = message\<rparr>) s)"

section \<open>Handlers\<close>

definition prefix_ok :: "Header \<Rightarrow> bool" where
  "prefix_ok h \<longleftrightarrow> hd_Magic h = 0xABCD \<and> hd_Version h = 1"

definition scan_ok :: "Header \<Rightarrow> bool" where
  "scan_ok h \<longleftrightarrow> hd_Magic h = 0xABCD \<and> hd_Version h = 1 \<and> hd_Type h \<noteq> 0"

definition splitHeaderAndBody :: "proto_lib \<Rightarrow> bytes \<Rightarrow> (bytes \<times> bytes) result" where
  "splitHeaderAndBody pb data =
     (case (if length data \<ge> 4 then split_by_prefix prefix_ok pb data else None) of
        Some hb \<Rightarrow> Inr hb
      | None \<Rightarrow>
          (let maxScan = (if length data > 128 then 128 else length data) in
           case scan_header (header_ok scan_ok pb) data 1 maxScan of
             Some i \<Rightarrow> Inr (take i data, drop i data)
           | None \<Rightarrow>
               if header_ok magic_ok pb data then Inr (data, [])
               else Inl (Error ''failed to split header and body'')))"

text \<open>Unmarshalling a body of the expected type; an empty one leaves the zero value.\<close>

definition zero_auth :: AuthRequest where
  "zero_auth = \<lparr>arq_Token = [], arq_DeviceId = [], arq_AppVersion = [], arq_Os = [], arq_OsVersion = []\<rparr>"

definition zero_message :: BizMessage where
  "zero_message = \<lparr>bm_RequestId = [], bm_From = [], bm_To = [], bm_Content = [], bm_Type = [],
     bm_Metadata = Map.empty, bm_Timestamp = 0\<rparr>"

definition auth_body :: "proto_lib \<Rightarrow> bytes \<Rightarrow> AuthRequest option" where
  "auth_body pb body =
     (if body = [] then Some zero_auth
      else (case un_body pb AUTH body of Inr (BAuthRequest r) \<Rightarrow> Some r | _ \<Rightarrow> None))"

definition message_body :: "proto_lib \<Rightarrow> bytes \<Rightarrow> BizMessage option" where
  "message_body pb body =
     (if body = [] then Some zero_message
      else (case un_body pb MESSAGE body of Inr (BMessage r) \<Rightarrow> Some r | _ \<Rightarrow> None))"

definition handleAuth :: "('r, 'priv, 'pub) CEnv \<Rightarrow> nat \<Rightarrow> Header \<Rightarrow> bytes \<Rightarrow> ('r, 'priv, 'pub) CendServer \<Rightarrow>
    unit result \<times> ('r, 'priv, 'pub) CendServer" where
  "handleAuth e c header body s0 =
     (let s = cmetric (\<lambda>m. m\<lparr>AuthRequests := AuthRequests m + 1\<rparr>) s0; seq = hd_Seq header;
          fail = cmetric (\<lambda>m. m\<lparr>AuthFailures := AuthFailures m + 1\<rparr>) in
      if cn_Status (cs_heap s ! c) = StatusAuthed
      then (Inr (), sendAuthResponse e c seq 400 ''Already authenticated'' [] 0 s)
      else (case auth_body (ce_pb e) body of
          None \<Rightarrow> (Inr (), sendAuthResponse e c seq 400 ''Invalid auth request'' [] 0 (fail s))
        | Some authReq \<Rightarrow>
            (case ValidateToken (ce_jwt e) (ce_now e) (arq_Token authReq) (cs_JWTManager s) of
               Inl (Panic p) \<Rightarrow> (Inl (Panic p), s)
             | Inl (Error _) \<Rightarrow> (Inr (), sendAuthResponse e c seq 401 ''Invalid token'' [] 0 (fail s))
             | Inr claims \<Rightarrow>
                 (let s1 = upd_conn c (\<lambda>cn. cn\<lparr>cn_UserID := cl_UserID claims, cn_DeviceID := cl_DeviceID claims,
                                                cn_Status := StatusAuthed\<rparr>) s;
                      (r, s2) = on_redis (AddOnlineUser (ce_ops e) (ce_js e) (ce_unix e) (cl_UserID claims)
                                            (cn_ID (cs_heap s ! c)) (cs_ID s)) s1
                  in case r of
                       Inl _ \<Rightarrow> (Inr (), sendAuthResponse e c seq 500 ''Internal server error'' [] 0 (fail s2))
                     | Inr _ \<Rightarrow>
                         (Inr (), sendAuthResponse e c seq 200 ''Authentication successful'' (ce_sid e)
                            (case cl_ExpiresAt claims of Some t \<Rightarrow> of_int t | None \<Rightarrow> 0)
                            (cmetric (\<lambda>m. m\<lparr>AuthSuccess := AuthSuccess m + 1\<rparr>) s2))))))"

definition handleHeartbeat :: "('r, 'priv, 'pub) CEnv \<Rightarrow> nat \<Rightarrow> Header \<Rightarrow> bytes \<Rightarrow> ('r, 'priv, 'pub) CendServer \<Rightarrow>
    ('r, 'priv, 'pub) CendServer" where
  "handleHeartbeat e c header body s =
     (if cn_Status (cs_heap s ! c) \<noteq> StatusAuthed then s
      else snd (SendMessage e c HEARTBEAT_ACK (hd_Seq header) (BHeartbeatAck \<lparr>hba_ServerTime = of_int (ce_unix e)\<rparr>)
             (upd_conn c (\<lambda>cn. cn\<lparr>cn_LastActive := ce_unix e\<rparr>)
               (cmetric (\<lambda>m. m\<lparr>Heartbeats := Heartbeats m + 1\<rparr>) s))))"

definition handleShadowQuery :: "('r, 'priv, 'pub) CEnv \<Rightarrow> nat \<Rightarrow> Header \<Rightarrow> BizMessage \<Rightarrow> ('r, 'priv, 'pub) CendServer \<Rightarrow>
    ('r, 'priv, 'pub) CendServer" where
  "handleShadowQuery e c header message s0 =
     (let s = cmetric (\<lambda>m. m\<lparr>ShadowQueries := ShadowQueries m + 1\<rparr>) s0; deviceID = bm_To message;
          ack = sendMessageAck e c (hd_Seq header) (bm_RequestId message) in
      if deviceID = [] then ack 400 ''missing device id'' s
      else (let (r, s1) = on_shadow (Get (ce_ops e) (ce_unix e) deviceID) s in
            case r of
              Inl _ \<Rightarrow> ack 500 ''shadow unavailable'' s1
            | Inr sh \<Rightarrow> ack 200 (cj_shadow (ce_json e) sh) s1))"

text \<open>The parameters of a command before the user is added; \<open>None\<close> is the nil map.\<close>

definition command_params :: "cend_json \<Rightarrow> BizMessage \<Rightarrow> (string \<rightharpoonup> jval) option" where
  "command_params cj message =
     (if bm_Content message = [] then Some Map.empty
      else (case cj_params cj (bm_Content message) of
              Inl _ \<Rightarrow> Some [''content'' \<mapsto> JStr (bm_Content message)]
            | Inr p \<Rightarrow> p))"

text \<open>Queueing, the trigger and the acknowledgement.\<close>

definition queue_command :: "('r, 'priv, 'pub) CEnv \<Rightarrow> nat \<Rightarrow> Header \<Rightarrow> BizMessage \<Rightarrow> (string \<rightharpoonup> jval) \<Rightarrow>
    ('r, 'priv, 'pub) CendServer \<Rightarrow> ('r, 'priv, 'pub) CendServer" where
  "queue_command e c header message params s =
     (let deviceID = bm_To message;
          ack = sendMessageAck e c (hd_Seq header) (bm_RequestId message);
          ((cmd, er), s1) = on_queue (Enqueue (ce_ops e) (ce_cj e) (ce_unix e) (ce_cid e) deviceID (bm_Type message)
                                        (cj_marshal (ce_json e) params)) s
      in case er of
           Some f \<Rightarrow> ack 500 (''enqueue failed: '' @ show_failure f) s1
         | None \<Rightarrow>
             (case cmd of
                None \<Rightarrow> ack 200 ''{\"accepted\":true,\"queued\":false}'' s1
              | Some k \<Rightarrow>
                  ack 200 (cj_ack (ce_json e) (cmd_CmdID k) (cmd_Type k))
                    (snd (on_redis (redis_PublishMessage (ce_ops e) CmdChannel
                       (TriggerMsg \<lparr>trig_DeviceID = deviceID, trig_CmdID = cmd_CmdID k, trig_CmdType = cmd_Type k\<rparr>)) s1))))"

definition handleDeviceCommand :: "('r, 'priv, 'pub) CEnv \<Rightarrow> nat \<Rightarrow> Header \<Rightarrow> BizMessage \<Rightarrow> ('r, 'priv, 'pub) CendServer \<Rightarrow>
    unit result \<times> ('r, 'priv, 'pub) CendServer" where
  "handleDeviceCommand e c header message s =
     (let deviceID = bm_To message;
          ack = sendMessageAck e c (hd_Seq header) (bm_RequestId message) in
      if deviceID = [] then (Inr (), ack 400 ''missing device id'' s)
      else (case command_params (ce_json e) message of
          None \<Rightarrow> (Inl (Panic ''assignment to entry in nil map''), s)
        | Some p \<Rightarrow>
            (let params = p(''user_id'' \<mapsto> JStr (cn_UserID (cs_heap s ! c))) in
             if bm_Type message = ''charge.start'' then
               (let s1 = cmetric (\<lambda>m. m\<lparr>ChargeCommands := ChargeCommands m + 1\<rparr>) s;
                    ((sh, er), s2) = on_shadow (TryPreoccupy (ce_ops e) (ce_unix e) (ce_millis e) deviceID) s1
                in case er of
                     Some (Panic m) \<Rightarrow> (Inl (Panic m), s2)
                   | Some (Error m) \<Rightarrow>
                       (Inr (), ack 409 (''device unavailable: '' @ m) (cmetric (\<lambda>m. m\<lparr>ChargeRejected := ChargeRejected m + 1\<rparr>) s2))
                   | None \<Rightarrow>
                       (case sh of
                          None \<Rightarrow> (Inl (Panic ''nil pointer dereference''), s2)
                        | Some sd \<Rightarrow>
                            (Inr (), queue_command e c header message (params(''shadow_version'' \<mapsto> JInt (sh_Version sd))) s2)))
             else (Inr (), queue_command e c header message params s))))"

definition handleShadowSubscribe :: "('r, 'priv, 'pub) CEnv \<Rightarrow> nat \<Rightarrow> Header \<Rightarrow> BizMessage \<Rightarrow> ('r, 'priv, 'pub) CendServer \<Rightarrow>
    ('r, 'priv, 'pub) CendServer" where
  "handleShadowSubscribe e c header message s =
     (let deviceID = bm_To message; user = cn_UserID (cs_heap s ! c);
          ack = sendMessageAck e c (hd_Seq header) (bm_RequestId message) in
      if deviceID = [] then ack 400 ''missing device id'' s
      else ack 200 ''{\"subscribed\":true}''
        (if bm_Type message = ''shadow.subscribe'' then
           (let users = (case cs_subscribers s deviceID of Some u \<Rightarrow> u | None \<Rightarrow> []) in
            if user \<notin> set users
            then cmetric (\<lambda>m. m\<lparr>Subscriptions := Subscriptions m + 1\<rparr>)
                   (s\<lparr>cs_subscribers := (cs_subscribers s)(deviceID \<mapsto> users @ [user])\<rparr>)
            else s)
         else (case cs_subscribers s deviceID of
                 None \<Rightarrow> s
               | Some users \<Rightarrow>
                   (let rest = removeAll user users
                    in s\<lparr>cs_subscribers := (cs_subscribers s)(deviceID := (if rest = [] then None else Some rest))\<rparr>))))"

definition forwardToBusinessSystem :: "('r, 'priv, 'pub) CEnv \<Rightarrow> BizMessage \<Rightarrow> ('r, 'priv, 'pub) CendServer \<Rightarrow>
    unit result \<times> ('r, 'priv, 'pub) CendServer" where
  "forwardToBusinessSystem e message s =
     (let (r, m) = PublishCendMessage (ce_kafka e) message (cs_mq s) in (r, s\<lparr>cs_mq := m\<rparr>))"

definition forward_message :: "('r, 'priv, 'pub) CEnv \<Rightarrow> nat \<Rightarrow> Header \<Rightarrow> BizMessage \<Rightarrow> ('r, 'priv, 'pub) CendServer \<Rightarrow>
    ('r, 'priv, 'pub) CendServer" where
  "forward_message e c header message s =
     (case forwardToBusinessSystem e message s of
        (Inl _, s1) \<Rightarrow> sendMessageAck e c (hd_Seq header) (bm_RequestId message) 500 ''Failed to process message''
                        (cmetric (\<lambda>m. m\<lparr>MessagesFailed := MessagesFailed m + 1\<rparr>) s1)
      | (Inr _, s1) \<Rightarrow> sendMessageAck e c (hd_Seq header) (bm_RequestId message) 200 ''Message sent successfully''
                        (cmetric (\<lambda>m. m\<lparr>MessagesSent := MessagesSent m + 1\<rparr>) s1))"

definition handleMessage :: "('r, 'priv, 'pub) CEnv \<Rightarrow> nat \<Rightarrow> Header \<Rightarrow> bytes \<Rightarrow> ('r, 'priv, 'pub) CendServer \<Rightarrow>
    unit result \<times> ('r, 'priv, 'pub) CendServer" where
  "handleMessage e c header body s0 =
     (if cn_Status (cs_heap s0 ! c) \<noteq> StatusAuthed then (Inr (), sendError e c (hd_Seq header) 401 ''Not authenticated'' s0)
      else (let s = cmetric (\<lambda>m. m\<lparr>MessagesReceived := MessagesReceived m + 1\<rparr>) s0 in
        case message_body (ce_pb e) body of
          None \<Rightarrow> (Inr (), sendMessageAck e c (hd_Seq header) [] 400 ''Invalid message format''
                            (cmetric (\<lambda>m. m\<lparr>MessagesFailed := MessagesFailed m + 1\<rparr>) s))
        | Some msg \<Rightarrow>
            (let message = msg\<lparr>bm_From := cn_UserID (cs_heap s ! c), bm_Timestamp := of_int (ce_millis e),
                   bm_RequestId := (if bm_RequestId msg = [] then ce_rid e else bm_RequestId msg)\<rparr>;
                 ty = bm_Type message
             in if ty = ''shadow.query'' then (Inr (), handleShadowQuery e c header message s)
                else if ty = ''charge.start'' \<or> ty = ''charge.stop'' \<or> ty = ''set.param'' \<or> ty = ''query''
                then handleDeviceCommand e c header message s
                else if ty = ''shadow.subscribe'' \<or> ty = ''shadow.unsubscribe''
                then (Inr (), handleShadowSubscribe e c header message s)
                else (Inr (), forward_message e c header message s))))"

text \<open>The work of \<open>HandleMessage\<close> once it holds a worker slot.\<close>

definition dispatch_message :: "('r, 'priv, 'pub) CEnv \<Rightarrow> nat \<Rightarrow> bytes \<Rightarrow> ('r, 'priv, 'pub) CendServer \<Rightarrow>
    unit result \<times> ('r, 'priv, 'pub) CendServer" where
  "dispatch_message e c data s =
     (case splitHeaderAndBody (ce_pb e) data of
        Inl _ \<Rightarrow> (Inr (), s)
      | Inr (headerBytes, bodyBytes) \<Rightarrow>
          (case un_header (ce_pb e) headerBytes of
             Inl _ \<Rightarrow> (Inr (), s)
           | Inr header \<Rightarrow>
               if hd_Magic header \<noteq> 0xABCD then (Inr (), s)
               else if hd_Version header \<noteq> 1
               then (Inr (), sendError e c (hd_Seq header) 400 ''Unsupported protocol version'' s)
               else if hd_Type header = AUTH then handleAuth e c header bodyBytes s
               else if hd_Type header = HEARTBEAT then (Inr (), handleHeartbeat e c header bodyBytes s)
               else if hd_Type header = MESSAGE then handleMessage e c header bodyBytes s
               else (Inr (), sendError e c (hd_Seq header) 400 ''Unknown message type'' s)))"

definition HandleMessage :: "('r, 'priv, 'pub) CEnv \<Rightarrow> nat \<Rightarrow> bytes \<Rightarrow> ('r, 'priv, 'pub) CendServer \<Rightarrow>
    unit result \<times> ('r, 'priv, 'pub) CendServer" where
  "HandleMessage e c data s =
     (if 10000 \<le> ce_busy e then (Inr (), cmetric (\<lambda>m. m\<lparr>MessagesFailed := MessagesFailed m + 1\<rparr>) s)
      else (let (r, s1) = dispatch_message e c data (cmetric (\<lambda>m. m\<lparr>ActiveWorkers := ActiveWorkers m + 1\<rparr>) s)
            in (r, cmetric (\<lambda>m. m\<lparr>ActiveWorkers := ActiveWorkers m - 1, ProcessingTime := ProcessingTime m + ce_elapsed e\<rparr>) s1)))"

section \<open>Pushing to users\<close>

definition forwardToOtherGateway :: "('r, 'priv, 'pub) CEnv \<Rightarrow> string \<Rightarrow> string \<Rightarrow> bytes \<Rightarrow> ('r, 'priv, 'pub) CendServer \<Rightarrow>
    unit result \<times> ('r, 'priv, 'pub) CendServer" where
  "forwardToOtherGateway e gatewayID userID message =
     on_redis (redis_PublishMessage (ce_ops e) ''gateway:forward:channel''
       (ForwardPayload \<lparr>fw_gateway_id = gatewayID, fw_user_id = userID, fw_message = message, fw_timestamp = ce_unix e\<rparr>))"

definition PushToUser :: "('r, 'priv, 'pub) CEnv \<Rightarrow> string \<Rightarrow> bytes \<Rightarrow> ('r, 'priv, 'pub) CendServer \<Rightarrow>
    unit result \<times> ('r, 'priv, 'pub) CendServer" where
  "PushToUser e userID message s =
     (let (r, s1) = on_redis (GetUserConnection (ce_ops e) (ce_js e) userID) s in
      case r of
        Inl er \<Rightarrow> (Inl (wrap_error (''user '' @ userID @ '' not online: '') er), s1)
      | Inr connInfo \<Rightarrow>
          if ci_GatewayID connInfo \<noteq> cs_ID s1 then forwardToOtherGateway e (ci_GatewayID connInfo) userID message s1
          else (case cs_Connections s1 (ci_ConnectionID connInfo) of
                  None \<Rightarrow> (Inl (Error (''connection '' @ ci_ConnectionID connInfo @ '' not found'')), s1)
                | Some c \<Rightarrow>
                    SendMessage e c PUSH 0
                      (BPush \<lparr>psh_MessageId = ce_mid e (cs_sends s1), psh_From = [], psh_Content = to_string message,
                              psh_Metadata = Map.empty, psh_Timestamp = of_int (ce_millis e)\<rparr>) s1))"

fun push_users :: "('r, 'priv, 'pub) CEnv \<Rightarrow> bytes \<Rightarrow> string list \<Rightarrow> ('r, 'priv, 'pub) CendServer \<Rightarrow> ('r, 'priv, 'pub) CendServer" where
  "push_users e eventJSON [] s = s"
| "push_users e eventJSON (uid # users) s =
     (case PushToUser e uid eventJSON s of
        (Inl _, s1) \<Rightarrow> push_users e eventJSON users s1
      | (Inr _, s1) \<Rightarrow> push_users e eventJSON users (cmetric (\<lambda>m. m\<lparr>PushesSent := PushesSent m + 1\<rparr>) s1))"

definition PushShadowEvent :: "('r, 'priv, 'pub) CEnv \<Rightarrow> string \<Rightarrow> bytes \<Rightarrow> ('r, 'priv, 'pub) CendServer \<Rightarrow> ('r, 'priv, 'pub) CendServer" where
  "PushShadowEvent e deviceID eventJSON s =
     push_users e eventJSON (ce_order e (case cs_subscribers s deviceID of Some u \<Rightarrow> u | None \<Rightarrow> [])) s"

text \<open>The two subscriptions of \<^verbatim>\<open>shadowEventLoop\<close>; a payload of another shape is one that does not unmarshal.\<close>

definition shadow_event_step :: "('r, 'priv, 'pub) CEnv \<Rightarrow> payload \<Rightarrow> ('r, 'priv, 'pub) CendServer \<Rightarrow> ('r, 'priv, 'pub) CendServer" where
  "shadow_event_step e p s =
     (case p of EventMsg evt \<Rightarrow> PushShadowEvent e (ev_DeviceID evt) (cj_event (ce_json e) evt) s | _ \<Rightarrow> s)"

fun broadcast :: "('r, 'priv, 'pub) CEnv \<Rightarrow> CmdResult \<Rightarrow> string list \<Rightarrow> ('r, 'priv, 'pub) CendServer \<Rightarrow> ('r, 'priv, 'pub) CendServer" where
  "broadcast e res [] s = s"
| "broadcast e res (dev # devices) s = broadcast e res devices (PushShadowEvent e dev (cj_result (ce_json e) dev res) s)"

text \<open>\<open>devices\<close> are the keys of the subscription table in the order the loop meets them.\<close>

definition cmd_result_step :: "('r, 'priv, 'pub) CEnv \<Rightarrow> string list \<Rightarrow> payload \<Rightarrow> ('r, 'priv, 'pub) CendServer \<Rightarrow> ('r, 'priv, 'pub) CendServer" where
  "cmd_result_step e devices p s = (case p of ResultMsg res \<Rightarrow> broadcast e res devices s | _ \<Rightarrow> s)"

section \<open>Connections of the server (server.go)\<close>

text \<open>
  Opening a connection, in the pieces other goroutines can come between: the accept limiter and the
  first check, the check after the upgrade, and the registration.
\<close>

definition ws_begin :: "('r, 'priv, 'pub) CEnv \<Rightarrow> ('r, 'priv, 'pub) CendServer \<Rightarrow> int option \<times> ('r, 'priv, 'pub) CendServer" where
  "ws_begin e s =
     (let (ok, l) = AcceptLimiter_Allow (ce_now e) (cs_AcceptLimiter s); s1 = s\<lparr>cs_AcceptLimiter := l\<rparr> in
      if \<not> ok then (Some 429, s1)
      else if cs_ConnCount s1 \<ge> cend_MaxConnections (cs_Config s1) then (Some 503, s1)
      else (None, s1))"

definition ws_recheck :: "('r, 'priv, 'pub) CendServer \<Rightarrow> bool" where
  "ws_recheck s \<longleftrightarrow> \<not> cs_ConnCount s \<ge> cend_MaxConnections (cs_Config s)"

definition ws_register :: "('r, 'priv, 'pub) CEnv \<Rightarrow> string \<Rightarrow> ('r, 'priv, 'pub) CendServer \<Rightarrow> ('r, 'priv, 'pub) CendServer" where
  "ws_register e connID s =
     s\<lparr>cs_heap := cs_heap s @ [NewConnection connID (cs_ID s) (ce_unix e)],
       cs_Connections := (cs_Connections s)(connID \<mapsto> length (cs_heap s)),
       cs_ConnCount := cs_ConnCount s + 1\<rparr>"

definition handleWebSocket :: "('r, 'priv, 'pub) CEnv \<Rightarrow> bool \<Rightarrow> string \<Rightarrow> ('r, 'priv, 'pub) CendServer \<Rightarrow>
    int option \<times> ('r, 'priv, 'pub) CendServer" where
  "handleWebSocket e upgraded connID s =
     (let (rejected, s1) = ws_begin e s in
      if rejected \<noteq> None then (rejected, s1)
      else if \<not> upgraded then (None, s1)
      else if \<not> ws_recheck s1 then (Some 1013, s1)
      else (None, ws_register e connID s1))"

text \<open>One turn of the read loop and of the write loop; the result says whether the loop goes on.\<close>

datatype read_event = ReadFailed | PongReceived | ReadFrame bool bytes

definition ReadLoop_step :: "('r, 'priv, 'pub) CEnv \<Rightarrow> read_event \<Rightarrow> nat \<Rightarrow> ('r, 'priv, 'pub) CendServer \<Rightarrow>
    (bool \<times> unit result) \<times> ('r, 'priv, 'pub) CendServer" where
  "ReadLoop_step e ev c s =
     (case ev of
        ReadFailed \<Rightarrow> ((False, Inr ()), Close e c s)
      | PongReceived \<Rightarrow> ((True, Inr ()), upd_conn c (\<lambda>cn. cn\<lparr>cn_LastActive := ce_unix e\<rparr>) s)
      | ReadFrame binary data \<Rightarrow>
          (let s1 = upd_conn c (\<lambda>cn. cn\<lparr>cn_LastActive := ce_unix e\<rparr>) s in
           if \<not> binary then ((True, Inr ()), s1)
           else (let (r, s2) = HandleMessage e c data s1 in ((\<not> panics r, r), s2))))"

datatype write_event = WriteData | WritePing | WriteClosed

definition write_frame :: "('r, 'priv, 'pub) CEnv \<Rightarrow> bool \<Rightarrow> ws_frame \<Rightarrow> nat \<Rightarrow> ('r, 'priv, 'pub) CendServer \<Rightarrow>
    bool \<times> ('r, 'priv, 'pub) CendServer" where
  "write_frame e written fr c s =
     (if written then (True, upd_conn c (\<lambda>cn. cn\<lparr>cn_frames := cn_frames cn @ [fr]\<rparr>) s) else (False, Close e c s))"

definition WriteLoop_step :: "('r, 'priv, 'pub) CEnv \<Rightarrow> write_event \<Rightarrow> bool \<Rightarrow> nat \<Rightarrow> ('r, 'priv, 'pub) CendServer \<Rightarrow>
    bool \<times> ('r, 'priv, 'pub) CendServer" where
  "WriteLoop_step e ev written c s =
     (case ev of
        WriteData \<Rightarrow>
          (case cn_SendChan (cs_heap s ! c) of
             [] \<Rightarrow> (True, s)
           | data # rest \<Rightarrow> write_frame e written (BinaryFrame data) c (upd_conn c (\<lambda>cn. cn\<lparr>cn_SendChan := rest\<rparr>) s))
      | WritePing \<Rightarrow> write_frame e written PingFrame c s
      | WriteClosed \<Rightarrow> (if cn_CloseChan (cs_heap s ! c) then (False, Close e c s) else (True, s)))"

text \<open>The periodic check and the shutdown visit the table in a given order.\<close>

definition check_one :: "('r, 'priv, 'pub) CEnv \<Rightarrow> string \<Rightarrow> ('r, 'priv, 'pub) CendServer \<Rightarrow> ('r, 'priv, 'pub) CendServer" where
  "check_one e key s =
     (case cs_Connections s key of
        None \<Rightarrow> s
      | Some c \<Rightarrow>
          if ce_unix e - cn_LastActive (cs_heap s ! c) > cend_HeartbeatTimeout (cs_Config s)
          then (let s1 = Close e c s
                in s1\<lparr>cs_Connections := (cs_Connections s1)(key := None), cs_ConnCount := cs_ConnCount s1 - 1\<rparr>)
          else s)"

fun heartbeat_tick :: "('r, 'priv, 'pub) CEnv \<Rightarrow> string list \<Rightarrow> ('r, 'priv, 'pub) CendServer \<Rightarrow> ('r, 'priv, 'pub) CendServer" where
  "heartbeat_tick e [] s = s"
| "heartbeat_tick e (key # order) s = heartbeat_tick e order (check_one e key s)"

fun close_all :: "('r, 'priv, 'pub) CEnv \<Rightarrow> string list \<Rightarrow> ('r, 'priv, 'pub) CendServer \<Rightarrow> ('r, 'priv, 'pub) CendServer" where
  "close_all e [] s = s"
| "close_all e (key # order) s =
     (case cs_Connections s key of
        None \<Rightarrow> close_all e order s
      | Some c \<Rightarrow> (let s1 = Close e c s in close_all e order (s1\<lparr>cs_Connections := (cs_Connections s1)(key := None)\<rparr>)))"

definition waitForShutdown :: "('r, 'priv, 'pub) CEnv \<Rightarrow> string list \<Rightarrow> ('r, 'priv, 'pub) CendServer \<Rightarrow> ('r, 'priv, 'pub) CendServer" where
  "waitForShutdown e order s = snd (on_redis (UnregisterGateway (ce_ops e) (cs_ID s)) (close_all e order s))"

text \<open>Starting only registers the gateway; a failure is logged.\<close>

definition cend_Start :: "('r, 'priv, 'pub) CEnv \<Rightarrow> ('r, 'priv, 'pub) CendServer \<Rightarrow> unit result \<times> ('r, 'priv, 'pub) CendServer" where
  "cend_Start e s =
     (let addr = cend_Host (cs_Config s) @ '':'' @ show_int (cend_Port (cs_Config s))
      in (Inr (), snd (on_redis (RegisterGateway (ce_ops e) (ce_js e) (ce_unix e) (cs_ID s) ''cend'' addr) s)))"

text \<open>Without usable keys the handler keeps a manager whose keys are nil.\<close>

definition new_jwt_manager :: "('priv, 'pub) key_lib \<Rightarrow> AuthConfig \<Rightarrow> ('priv option, 'pub option) JWTManager" where
  "new_jwt_manager kl cfg =
     (case NewJWTManager kl (auth_JWTPrivateKey cfg) (auth_JWTPublicKey cfg) (auth_JWTIssuer cfg) (JWTTTL cfg) of
        Inr m \<Rightarrow> \<lparr>jm_privateKey = Some (jm_privateKey m), jm_publicKey = Some (jm_publicKey m), jm_issuer = jm_issuer m, jm_ttl = jm_ttl m\<rparr>
      | Inl _ \<Rightarrow> \<lparr>jm_privateKey = None, jm_publicKey = None, jm_issuer = [], jm_ttl = 0\<rparr>)"

definition zero_metrics :: HandlerMetrics where
  "zero_metrics = \<lparr>AuthRequests = 0, AuthSuccess = 0, AuthFailures = 0, MessagesReceived = 0, MessagesSent = 0,
     MessagesFailed = 0, Heartbeats = 0, ProcessingTime = 0, ActiveWorkers = 0, ShadowQueries = 0, ChargeCommands = 0,
     ChargeRejected = 0, Subscriptions = 0, PushesSent = 0\<rparr>"

text \<open>\<^verbatim>\<open>NewServer\<close> with \<^verbatim>\<open>NewMessageHandler\<close>; the buffer sizes configure the upgrader only.\<close>

definition cend_NewServer :: "('priv, 'pub) key_lib \<Rightarrow> Config \<Rightarrow> string \<Rightarrow> int \<Rightarrow> 'r RedisState \<Rightarrow> BizMessage MQ \<Rightarrow>
    ('r, 'priv, 'pub) CendServer" where
  "cend_NewServer kl cfg serverID now g mq =
     \<lparr>cs_ID = serverID, cs_Config = cfg_Cend cfg, cs_Connections = Map.empty, cs_heap = [], cs_ConnCount = 0,
      cs_JWTManager = new_jwt_manager kl (cfg_Auth cfg), cs_Metrics = zero_metrics,
      cs_Shadow = NewManager (cfg_Shadow cfg), cs_CmdQueue = NewQueue (cfg_Shadow cfg),
      cs_AcceptLimiter = NewAcceptLimiter now (rl_CendAcceptRate (cfg_RateLimit cfg)) (rl_Enabled (cfg_RateLimit cfg)),
      cs_subscribers = Map.empty, cs_redis = g, cs_mq = mq, cs_sends = 0\<rparr>"

end
