(* ===== verification/CendSpec.thy ===== *)
theory CendSpec
  imports Cend ShadowSpec CommandSpec
begin

text \<open>
  What the C-end gateway promises.  \<open>core\<close> projects a server on everything but the metrics and the
  frames waiting to be sent, so a reply leaves it alone; the frame rules are collected in
  \<open>cend_frame\<close>.  The invariant of the connection table is proved over the steps \<open>cend_step\<close>, the
  properties of commands over the contracts of the shadow and the command queue.
\<close>

named_theorems cend_frame \<open>operations that leave the core of a server alone\<close>

section \<open>The core of a server\<close>

definition conn_core :: "Connection \<Rightarrow> Connection" where
  "conn_core cn = cn\<lparr>cn_SendChan := []\<rparr>"

definition core :: "('r, 'priv, 'pub) CendServer \<Rightarrow>
    (string \<times> CendConfig \<times> (string \<rightharpoonup> nat) \<times> Connection list \<times> int \<times> ('priv option, 'pub option) JWTManager) \<times>
    Manager \<times> Queue \<times> AcceptLimiter \<times> (string \<rightharpoonup> string list) \<times> 'r RedisState \<times> BizMessage MQ" where
  "core s = ((cs_ID s, cs_Config s, cs_Connections s, map conn_core (cs_heap s), cs_ConnCount s, cs_JWTManager s),
     cs_Shadow s, cs_CmdQueue s, cs_AcceptLimiter s, cs_subscribers s, cs_redis s, cs_mq s)"

lemma cmetric_fields [simp]:
  "cs_heap (cmetric f s) = cs_heap s" "cs_redis (cmetric f s) = cs_redis s" "cs_Shadow (cmetric f s) = cs_Shadow s"
  "cs_CmdQueue (cmetric f s) = cs_CmdQueue s" "cs_Connections (cmetric f s) = cs_Connections s" "cs_ID (cmetric f s) = cs_ID s"
  "cs_JWTManager (cmetric f s) = cs_JWTManager s" "cs_subscribers (cmetric f s) = cs_subscribers s" "cs_mq (cmetric f s) = cs_mq s"
  by (simp_all add: cmetric_def)

lemma core_cmetric [cend_frame]: "core (cmetric f s) = core s"
  by (simp add: core_def cmetric_def)

lemma map_upd_same: "g (f (xs ! c)) = g (xs ! c) \<Longrightarrow> map g (xs[c := f (xs ! c)]) = map g xs"
  by (cases "c < length xs") (simp_all add: map_update list_update_same_conv list_update_beyond)

lemma core_upd_conn [cend_frame]: "(\<And>cn. conn_core (f cn) = conn_core cn) \<Longrightarrow> core (upd_conn c f s) = core s"
  by (simp add: core_def upd_conn_def map_upd_same)

lemma core_sends: "core (s\<lparr>cs_sends := n\<rparr>) = core s"
  by (simp add: core_def)

lemma core_SendMessage [cend_frame]: "core (snd (SendMessage e c ty seq msg s)) = core s"
  by (auto simp: SendMessage_def Let_def core_upd_conn core_sends conn_core_def split: sum.split)

lemma core_replies [cend_frame]:
  "core (sendAuthResponse e c seq code m sid x s) = core s"
  "core (sendMessageAck e c seq rid code m s) = core s"
  "core (sendError e c seq code m s) = core s"
  by (simp_all add: sendAuthResponse_def sendMessageAck_def sendError_def core_SendMessage)

text \<open>What the core determines.\<close>

lemma core_fields:
  assumes "core s = core s'"
  shows "cs_Shadow s = cs_Shadow s'" "cs_CmdQueue s = cs_CmdQueue s'" "cs_redis s = cs_redis s'" "cs_mq s = cs_mq s'"
    "cs_subscribers s = cs_subscribers s'" "cs_Connections s = cs_Connections s'" "cs_ConnCount s = cs_ConnCount s'"
    "cs_ID s = cs_ID s'" "cs_Config s = cs_Config s'" "map conn_core (cs_heap s) = map conn_core (cs_heap s')"
    "cs_JWTManager s = cs_JWTManager s'"
  using assms by (simp_all add: core_def)

lemma conn_core_fields:
  "conn_core a = conn_core b \<Longrightarrow> cn_ID a = cn_ID b \<and> cn_UserID a = cn_UserID b \<and> cn_Status a = cn_Status b \<and>
     cn_CloseChan a = cn_CloseChan b \<and> cn_once a = cn_once b \<and> cn_LastActive a = cn_LastActive b \<and>
     cn_DeviceID a = cn_DeviceID b \<and> cn_ConnClosed a = cn_ConnClosed b \<and> cn_frames a = cn_frames b"
  by (cases a; cases b) (simp add: conn_core_def)

lemma core_conn:
  assumes "core s = core s'"
  shows "length (cs_heap s) = length (cs_heap s')"
    and "c < length (cs_heap s) \<Longrightarrow> conn_core (cs_heap s ! c) = conn_core (cs_heap s' ! c)"
proof -
  note h = core_fields(10) [OF assms]
  show "length (cs_heap s) = length (cs_heap s')" using arg_cong [OF h, of length] by simp
  then show "conn_core (cs_heap s ! c) = conn_core (cs_heap s' ! c)" if "c < length (cs_heap s)"
    using that arg_cong [OF h, of "\<lambda>l. l ! c"] by simp
qed

section \<open>Only authenticated connections act\<close>

text \<open>What a connection becomes when a token is accepted, and the state with the user online.\<close>

definition signed_in :: "Claims \<Rightarrow> Connection \<Rightarrow> Connection" where
  "signed_in claims cn = cn\<lparr>cn_UserID := cl_UserID claims, cn_DeviceID := cl_DeviceID claims, cn_Status := StatusAuthed\<rparr>"

definition sign_in :: "('r, 'priv, 'pub) CEnv \<Rightarrow> nat \<Rightarrow> Claims \<Rightarrow> ('r, 'priv, 'pub) CendServer \<Rightarrow> ('r, 'priv, 'pub) CendServer" where
  "sign_in e c claims s = snd (on_redis (AddOnlineUser (ce_ops e) (ce_js e) (ce_unix e) (cl_UserID claims)
      (cn_ID (cs_heap s ! c)) (cs_ID s)) (upd_conn c (signed_in claims) s))"

lemma conn_core_signed_in: "conn_core a = conn_core b \<Longrightarrow> conn_core (signed_in cl a) = conn_core (signed_in cl b)"
  by (cases a; cases b) (simp add: conn_core_def signed_in_def)

lemma core_upd_cong:
  assumes "core s = core s'" "\<And>a b. conn_core a = conn_core b \<Longrightarrow> conn_core (f a) = conn_core (f b)"
  shows "core (upd_conn c f s) = core (upd_conn c f s')"
proof -
  have "map conn_core ((cs_heap s)[c := f (cs_heap s ! c)]) = map conn_core ((cs_heap s')[c := f (cs_heap s' ! c)])"
  proof (cases "c < length (cs_heap s)")
    case True
    then have "conn_core (f (cs_heap s ! c)) = conn_core (f (cs_heap s' ! c))"
      using assms(2) core_conn(2) [OF assms(1)] by blast
    then show ?thesis using core_fields(10) [OF assms(1)] by (simp add: map_update)
  next
    case False
    then show ?thesis using core_conn(1) [OF assms(1)] core_fields(10) [OF assms(1)] by (simp add: list_update_beyond)
  qed
  then show ?thesis
    using assms(1) by (simp add: core_def upd_conn_def)
qed

lemma core_on_redis: "core s = core s' \<Longrightarrow> core (snd (on_redis f s)) = core (snd (on_redis f s'))"
  by (simp add: core_def on_redis_def split: prod.split)

lemma core_sign_in:
  assumes "core s = core s'" "c < length (cs_heap s)"
  shows "core (sign_in e c claims s) = core (sign_in e c claims s')"
proof -
  have i: "cn_ID (cs_heap s ! c) = cn_ID (cs_heap s' ! c)"
    using conn_core_fields [OF core_conn(2) [OF assms]] by blast
  show ?thesis
    unfolding sign_in_def core_fields(8) [OF assms(1)] i
    by (rule core_on_redis [OF core_upd_cong [OF assms(1) conn_core_signed_in]])
qed

lemma sign_in_cmetric: "sign_in e c claims (cmetric f s) = cmetric f (sign_in e c claims s)"
  by (simp add: sign_in_def cmetric_def on_redis_def upd_conn_def split: prod.split)

lemma handleAuth_effect:
  assumes "handleAuth e c h body s = (r, s')"
  shows "core s' = core s \<or>
    (\<exists>tok claims. cn_Status (cs_heap s ! c) \<noteq> StatusAuthed \<and>
      ValidateToken (ce_jwt e) (ce_now e) tok (cs_JWTManager s) = Inr claims \<and> core s' = core (sign_in e c claims s))"
proof (cases "cn_Status (cs_heap s ! c) = StatusAuthed")
  case False
  define s1 where "s1 = cmetric (\<lambda>m. m\<lparr>AuthRequests := AuthRequests m + 1\<rparr>) s"
  have cm: "cs_heap s1 = cs_heap s" "cs_JWTManager s1 = cs_JWTManager s" "core s1 = core s" "cs_ID s1 = cs_ID s"
    by (simp_all add: s1_def cmetric_def core_def)
  note def = assms [unfolded handleAuth_def Let_def, folded s1_def, simplified cm False, simplified]
  show ?thesis
  proof (cases "auth_body (ce_pb e) body")
    case (Some rq)
    show ?thesis
    proof (cases "ValidateToken (ce_jwt e) (ce_now e) (arq_Token rq) (cs_JWTManager s)")
      case (Inr claims)
      obtain v s2 where add: "on_redis (AddOnlineUser (ce_ops e) (ce_js e) (ce_unix e) (cl_UserID claims)
          (cn_ID (cs_heap s ! c)) (cs_ID s)) (upd_conn c (signed_in claims) s1) = (v, s2)" by fastforce
      then have "s2 = sign_in e c claims s1" by (simp add: sign_in_def cm)
      then have "core s2 = core (sign_in e c claims s)" by (simp add: s1_def sign_in_cmetric cend_frame)
      then have "core s' = core (sign_in e c claims s)"
        using def Some Inr add by (auto simp: signed_in_def [abs_def] cend_frame split: sum.splits)
      then show ?thesis using False Inr by blast
    next
      case (Inl f)
      then show ?thesis using def Some cm(3) by (cases f) (auto simp: cend_frame)
    qed
  qed (use def cm(3) in \<open>auto simp: cend_frame\<close>)
qed (use assms in \<open>auto simp: handleAuth_def cend_frame\<close>)

lemma unauthed_dispatch:
  assumes "dispatch_message e c data s = (r, s')" and "cn_Status (cs_heap s ! c) \<noteq> StatusAuthed"
  shows "core s' = core s \<or>
    (\<exists>tok claims. ValidateToken (ce_jwt e) (ce_now e) tok (cs_JWTManager s) = Inr claims \<and> core s' = core (sign_in e c claims s))"
  using assms handleAuth_effect [of e c _ _ s r s']
  by (auto simp: dispatch_message_def handleHeartbeat_def handleMessage_def cend_frame split: sum.splits if_splits)


section \<open>The connection table\<close>

definition conns :: "('r, 'priv, 'pub) CendServer \<Rightarrow> (string \<rightharpoonup> nat) \<times> int \<times> Connection list \<times> string \<times> CendConfig" where
  "conns s = (cs_Connections s, cs_ConnCount s, map conn_core (cs_heap s), cs_ID s, cs_Config s)"

named_theorems conns_frame \<open>operations that leave the connections alone\<close>

lemma conns_core: "core s = core s' \<Longrightarrow> conns s = conns s'"
  by (simp add: core_def conns_def)

lemmas conns_of_core [conns_frame] = cend_frame [THEN conns_core]

lemma conns_update [conns_frame]:
  "conns (snd (on_redis f s)) = conns s" "conns (snd (on_shadow g s)) = conns s" "conns (snd (on_queue h s)) = conns s"
  "conns (s\<lparr>cs_subscribers := x\<rparr>) = conns s" "conns (s\<lparr>cs_mq := y\<rparr>) = conns s" "conns (s\<lparr>cs_AcceptLimiter := z\<rparr>) = conns s"
  by (simp_all add: conns_def on_redis_def on_shadow_def on_queue_def split: prod.split)

lemma conns_pair:
  "on_redis f s = (v, s') \<Longrightarrow> conns s' = conns s" "on_shadow g s = (w, s') \<Longrightarrow> conns s' = conns s"
  "on_queue h s = (x, s') \<Longrightarrow> conns s' = conns s"
  using conns_update(1) [of f s] conns_update(2) [of g s] conns_update(3) [of h s] by simp_all

lemma conns_queue_command [conns_frame]: "conns (queue_command e c h msg p s) = conns s"
  by (auto simp: queue_command_def Let_def conns_frame dest!: conns_pair split: prod.split option.split)

lemma conns_handleShadowQuery [conns_frame]: "conns (handleShadowQuery e c h msg s) = conns s"
  by (auto simp: handleShadowQuery_def Let_def conns_frame dest!: conns_pair split: prod.split sum.split)

lemma conns_handleShadowSubscribe [conns_frame]: "conns (handleShadowSubscribe e c h msg s) = conns s"
  by (auto simp: handleShadowSubscribe_def Let_def conns_frame split: option.split)

lemma conns_forward_message [conns_frame]: "conns (forward_message e c h msg s) = conns s"
  by (auto simp: forward_message_def forwardToBusinessSystem_def conns_frame split: prod.splits sum.splits)

lemma conns_handleDeviceCommand [conns_frame]: "conns (snd (handleDeviceCommand e c h msg s)) = conns s"
  by (auto simp: handleDeviceCommand_def Let_def conns_frame dest!: conns_pair
      split: prod.split option.split failure.split)

lemma conns_handleMessage [conns_frame]: "conns (snd (handleMessage e c h body s)) = conns s"
  by (auto simp: handleMessage_def Let_def conns_frame split: option.split)

text \<open>
  The invariant.  The table is counted, its entries are connections of that identifier, every
  connection that has not been closed is in it, and the flags of closing agree.
\<close>

definition conn_ok :: "Connection \<Rightarrow> bool" where
  "conn_ok cn \<longleftrightarrow> cn_CloseChan cn = cn_once cn \<and> cn_ConnClosed cn = cn_once cn \<and> (cn_Status cn = StatusClosed \<longrightarrow> cn_once cn)"

definition conn_table_ok :: "(string \<rightharpoonup> nat) \<times> int \<times> Connection list \<times> string \<times> CendConfig \<Rightarrow> bool" where
  "conn_table_ok = (\<lambda>(C, n, heap, _, _). finite (dom C) \<and> n = int (card (dom C)) \<and>
     (\<forall>k c. C k = Some c \<longrightarrow> c < length heap \<and> cn_ID (heap ! c) = k) \<and>
     (\<forall>c < length heap. \<not> cn_once (heap ! c) \<longrightarrow> C (cn_ID (heap ! c)) = Some c) \<and>
     (\<forall>c < length heap. conn_ok (heap ! c)))"

lemma conn_core_ok [simp]:
  "conn_ok (conn_core cn) = conn_ok cn" "cn_ID (conn_core cn) = cn_ID cn" "cn_once (conn_core cn) = cn_once cn"
  "cn_UserID (conn_core cn) = cn_UserID cn" "cn_Status (conn_core cn) = cn_Status cn" "cn_LastActive (conn_core cn) = cn_LastActive cn"
  by (simp_all add: conn_core_def conn_ok_def)

lemma conn_table_iff:
  "conn_table_ok (conns s) \<longleftrightarrow> finite (dom (cs_Connections s)) \<and> cs_ConnCount s = int (card (dom (cs_Connections s))) \<and>
     (\<forall>k c. cs_Connections s k = Some c \<longrightarrow> c < length (cs_heap s) \<and> cn_ID (cs_heap s ! c) = k) \<and>
     (\<forall>c < length (cs_heap s). \<not> cn_once (cs_heap s ! c) \<longrightarrow> cs_Connections s (cn_ID (cs_heap s ! c)) = Some c) \<and>
     (\<forall>c < length (cs_heap s). conn_ok (cs_heap s ! c))"
  unfolding conn_table_ok_def conns_def by (simp add: nth_map cong: conj_cong)

text \<open>Changing one connection keeps the table when its identifier stays and it is not reopened.\<close>

lemma conn_table_upd:
  assumes "conn_table_ok (conns s)"
    and "conn_ok (cs_heap s ! c) \<Longrightarrow> conn_ok (f (cs_heap s ! c))" "cn_ID (f (cs_heap s ! c)) = cn_ID (cs_heap s ! c)"
      "cn_once (cs_heap s ! c) \<Longrightarrow> cn_once (f (cs_heap s ! c))"
  shows "conn_table_ok (conns (upd_conn c f s))"
proof -
  define h where "h = (cs_heap s)[c := f (cs_heap s ! c)]"
  have h: "length h = length (cs_heap s)"
    "i < length h \<Longrightarrow> h ! i = (if i = c then f (cs_heap s ! c) else cs_heap s ! i)" for i
    by (simp_all add: h_def nth_list_update)
  then have "cn_ID (h ! i) = cn_ID (cs_heap s ! i)" "cn_once (cs_heap s ! i) \<Longrightarrow> cn_once (h ! i)"
    "conn_ok (cs_heap s ! i) \<Longrightarrow> conn_ok (h ! i)" if "i < length h" for i
    using that assms(2-4) by auto
  then show ?thesis
    using assms(1) h(1) unfolding conn_table_iff upd_conn_def
    by (fastforce simp flip: h_def)
qed

lemma conn_table_Close: "conn_table_ok (conns s) \<Longrightarrow> conn_table_ok (conns (Close e c s))"
  unfolding Close_def Let_def
  by (auto simp: conns_frame conn_ok_def intro!: conn_table_upd)

lemma Close_once: "c < length (cs_heap s) \<Longrightarrow> cn_once (cs_heap (Close e c s) ! c)"
  by (auto simp: Close_def Let_def upd_conn_def on_redis_def split: prod.split)

lemma conn_table_handleAuth: "conn_table_ok (conns s) \<Longrightarrow> conn_table_ok (conns (snd (handleAuth e c h body s)))"
proof -
  assume ok: "conn_table_ok (conns s)"
  obtain r s' where h: "handleAuth e c h body s = (r, s')" by fastforce
  have "conn_table_ok (conns (sign_in e c claims s))" for claims
    unfolding sign_in_def conns_frame by (rule conn_table_upd [OF ok]) (auto simp: signed_in_def conn_ok_def)
  then show ?thesis using handleAuth_effect [OF h] ok h by (auto dest: conns_core)
qed

lemma conn_table_HandleMessage: "conn_table_ok (conns s) \<Longrightarrow> conn_table_ok (conns (snd (HandleMessage e c data s)))"
proof -
  assume ok: "conn_table_ok (conns s)"
  let ?s = "cmetric (\<lambda>m. m\<lparr>ActiveWorkers := ActiveWorkers m + 1\<rparr>) s"
  have ok1: "conn_table_ok (conns ?s)" using ok by (simp add: conns_frame)
  have "conn_table_ok (conns (upd_conn c (\<lambda>cn. cn\<lparr>cn_LastActive := t\<rparr>) (cmetric f ?s)))" for t f
    by (rule conn_table_upd) (use ok in \<open>auto simp: conns_frame conn_ok_def\<close>)
  then have "conn_table_ok (conns (snd (dispatch_message e c data ?s)))"
    using ok1 conn_table_handleAuth [OF ok1]
    by (auto simp: dispatch_message_def handleHeartbeat_def conns_frame split: sum.split)
  then show ?thesis using ok by (auto simp: HandleMessage_def conns_frame split: prod.splits)
qed

lemma conns_PushToUser [conns_frame]: "conns (snd (PushToUser e u msg s)) = conns s"
  by (auto simp: PushToUser_def forwardToOtherGateway_def conns_frame dest!: conns_pair split: prod.split sum.split option.split)

lemma conns_push_users [conns_frame]: "conns (push_users e msg us s) = conns s"
proof (induction us arbitrary: s)
  case (Cons u us)
  have "PushToUser e u msg s = (r, s1) \<Longrightarrow> conns s1 = conns s" for r s1 using conns_PushToUser [of e u msg s] by simp
  then show ?case using Cons.IH by (auto simp: conns_frame split: prod.split sum.split)
qed simp

lemma conns_PushShadowEvent [conns_frame]: "conns (PushShadowEvent e d msg s) = conns s"
  by (simp add: PushShadowEvent_def conns_frame)

lemma conns_broadcast [conns_frame]: "conns (broadcast e res ds s) = conns s"
  by (induction ds arbitrary: s) (simp_all add: conns_frame)

lemma conns_events [conns_frame]:
  "conns (shadow_event_step e p s) = conns s" "conns (cmd_result_step e ds p s) = conns s"
  by (simp_all add: shadow_event_step_def cmd_result_step_def conns_frame split: payload.split)

lemma conn_table_ReadLoop: "conn_table_ok (conns s) \<Longrightarrow> conn_table_ok (conns (snd (ReadLoop_step e ev c s)))"
proof -
  assume ok: "conn_table_ok (conns s)"
  have "conn_table_ok (conns (upd_conn c (\<lambda>cn. cn\<lparr>cn_LastActive := t\<rparr>) s))" for t
    by (rule conn_table_upd [OF ok]) (auto simp: conn_ok_def)
  then have "conn_table_ok (conns (snd (HandleMessage e c data (upd_conn c (\<lambda>cn. cn\<lparr>cn_LastActive := t\<rparr>) s))))"
    "conn_table_ok (conns (upd_conn c (\<lambda>cn. cn\<lparr>cn_LastActive := t\<rparr>) s))" for t data
    by (auto intro: conn_table_HandleMessage)
  then show ?thesis
    using conn_table_Close [OF ok] by (simp add: ReadLoop_step_def Let_def case_prod_beta split: read_event.split)
qed

lemma conn_table_WriteLoop: "conn_table_ok (conns s) \<Longrightarrow> conn_table_ok (conns (snd (WriteLoop_step e ev ok c s)))"
proof -
  assume t: "conn_table_ok (conns s)"
  have w: "conn_table_ok (conns (snd (write_frame e ok fr c s')))" if "conn_table_ok (conns s')" for fr s'
    using that conn_table_Close [OF that] by (auto simp: write_frame_def conn_ok_def intro!: conn_table_upd)
  have "conn_table_ok (conns (upd_conn c (\<lambda>cn. cn\<lparr>cn_SendChan := rest\<rparr>) s))" for rest
    by (rule conn_table_upd [OF t]) (auto simp: conn_ok_def)
  then show ?thesis
    using t w conn_table_Close [OF t] by (auto simp: WriteLoop_step_def split: write_event.split list.split)
qed

lemma conn_table_delete:
  assumes "conn_table_ok (conns s)" "cs_Connections s k = Some c" "cn_once (cs_heap s ! c)"
  shows "conn_table_ok (conns (s\<lparr>cs_Connections := (cs_Connections s)(k := None), cs_ConnCount := cs_ConnCount s - 1\<rparr>))"
proof -
  have t: "finite (dom (cs_Connections s))" "cs_ConnCount s = int (card (dom (cs_Connections s)))"
    using assms(1) by (simp_all add: conn_table_iff)
  have "k \<in> dom (cs_Connections s)" using assms(2) by blast
  then have "int (card (dom (cs_Connections s) - {k})) = cs_ConnCount s - 1"
    unfolding t(2) using card.remove [OF t(1), of k] by simp
  moreover have "cn_ID (cs_heap s ! i) \<noteq> k" if "i < length (cs_heap s)" "\<not> cn_once (cs_heap s ! i)" for i
    using that assms by (auto simp: conn_table_iff)
  ultimately show ?thesis
    using assms(1) by (auto simp: conn_table_iff)
qed

lemma Connections_Close [simp]: "cs_Connections (Close e c s) = cs_Connections s" "length (cs_heap (Close e c s)) = length (cs_heap s)"
  by (simp_all add: Close_def Let_def upd_conn_def on_redis_def split: prod.split)

lemma conn_table_check_one: "conn_table_ok (conns s) \<Longrightarrow> conn_table_ok (conns (check_one e k s))"
proof (cases "cs_Connections s k")
  case (Some c)
  assume ok: "conn_table_ok (conns s)"
  then have "c < length (cs_heap s)" using Some by (auto simp: conn_table_iff)
  then have "conn_table_ok (conns (Close e c s\<lparr>cs_Connections := (cs_Connections (Close e c s))(k := None),
      cs_ConnCount := cs_ConnCount (Close e c s) - 1\<rparr>))"
    using conn_table_delete [OF conn_table_Close [OF ok] _ Close_once] Some by simp
  then show ?thesis using ok Some by (simp add: check_one_def Let_def)
qed (simp add: check_one_def)

lemma conn_table_tick: "conn_table_ok (conns s) \<Longrightarrow> conn_table_ok (conns (heartbeat_tick e order s))"
  by (induction order arbitrary: s) (simp_all add: conn_table_check_one)

lemma conn_table_register:
  assumes "conn_table_ok (conns s)" "\<forall>cn \<in> set (cs_heap s). cn_ID cn \<noteq> i"
  shows "conn_table_ok (conns (ws_register e i s))"
proof -
  have "cs_Connections s i = None"
    using assms nth_mem by (cases "cs_Connections s i") (fastforce simp: conn_table_iff)+
  then have "i \<notin> dom (cs_Connections s)" by auto
  then show ?thesis
    using assms unfolding conn_table_iff ws_register_def
    by (auto simp: nth_append NewConnection_def conn_ok_def less_Suc_eq card_insert_disjoint)
qed

text \<open>
  The steps of a running server: a registration under an identifier no connection has had, with the
  pieces before it, a turn of a connection's loops, the periodic check and the two subscriptions.
\<close>

inductive cend_step :: "('r, 'priv, 'pub) CendServer \<Rightarrow> ('r, 'priv, 'pub) CendServer \<Rightarrow> bool" where
  begin_ws: "cend_step s (snd (ws_begin e s))"
| register: "\<forall>cn \<in> set (cs_heap s). cn_ID cn \<noteq> i \<Longrightarrow> cend_step s (ws_register e i s)"
| read_turn: "c < length (cs_heap s) \<Longrightarrow> cend_step s (snd (ReadLoop_step e re c s))"
| write_turn: "c < length (cs_heap s) \<Longrightarrow> cend_step s (snd (WriteLoop_step e wev ok c s))"
| tick: "key_order (cs_Connections s) order \<Longrightarrow> cend_step s (heartbeat_tick e order s)"
| event: "cend_step s (shadow_event_step e p s)"
| result: "cend_step s (cmd_result_step e devices p s)"
| start: "cend_step s (snd (cend_Start e s))"

lemma conns_ws_begin [conns_frame]: "conns (snd (ws_begin e s)) = conns s"
  by (simp add: ws_begin_def Let_def conns_frame split: prod.split)

lemma conn_table_step: "cend_step s s' \<Longrightarrow> conn_table_ok (conns s) \<Longrightarrow> conn_table_ok (conns s')"
  by (induction rule: cend_step.induct)
    (simp_all add: conns_frame cend_Start_def conn_table_register conn_table_ReadLoop conn_table_WriteLoop conn_table_tick)

lemma conn_table_reachable: "cend_step\<^sup>*\<^sup>* s s' \<Longrightarrow> conn_table_ok (conns s) \<Longrightarrow> conn_table_ok (conns s')"
  by (induction rule: rtranclp_induct) (auto intro: conn_table_step)

lemma conn_table_new: "conn_table_ok (conns (cend_NewServer kl cfg sid now g mq))"
  by (simp add: conn_table_iff cend_NewServer_def)


section \<open>A server for the witnesses\<close>

text \<open>A token is \<^verbatim>\<open>tok-\<close> and the user; the text \<^verbatim>\<open>null\<close> sets a map to nil, any other text does not parse.\<close>

definition user_claims :: "string \<Rightarrow> Claims" where
  "user_claims u = \<lparr>cl_UserID = u, cl_DeviceID = [], cl_Issuer = ''dual-gateway'', cl_Subject = u, cl_Audience = [],
     cl_IssuedAt = None, cl_ExpiresAt = None, cl_NotBefore = None, cl_ID = []\<rparr>"

definition user_jwt :: "(unit option, unit option) jwt_lib" where
  "user_jwt = \<lparr>SignedString = \<lambda>_ c. Inr (''tok-'' @ cl_UserID c),
     ParseWithClaims = \<lambda>kf now t. bind_r (kf ''RS256'' True) (\<lambda>_.
       if take 4 t = ''tok-'' then Inr (user_claims (drop 4 t), True) else Inl (Error ''malformed''))\<rparr>"

definition small_cjson :: cend_json where
  "small_cjson = \<lparr>cj_params = \<lambda>t. if t = ''null'' then Inr None else Inl (Error ''json''),
     cj_marshal = \<lambda>p. (case p ''user_id'' of Some (JStr u) \<Rightarrow> u | _ \<Rightarrow> []), cj_shadow = sh_State,
     cj_ack = \<lambda>i t. i, cj_event = \<lambda>ev. to_bytes (ev_State ev), cj_result = \<lambda>d r. to_bytes d\<rparr>"

definition small_cenv :: "string \<Rightarrow> int \<Rightarrow> (map_store, unit, unit) CEnv" where
  "small_cenv cid now = \<lparr>ce_ops = map_redis, ce_js = net_records, ce_cj = net_json, ce_json = small_cjson, ce_pb = net_proto,
     ce_jwt = user_jwt, ce_now = now, ce_trace = \<lambda>n. ''t'', ce_mid = \<lambda>n. ''m'', ce_sid = ''sid'', ce_rid = ''rid'', ce_cid = cid,
     ce_kafka = Inr (), ce_closed_first = \<lambda>n. True, ce_busy = 0, ce_order = \<lambda>ks. ks, ce_elapsed = 0\<rparr>"

definition small_conn :: "string \<Rightarrow> string \<Rightarrow> Connection" where
  "small_conn i u = (NewConnection i ''gw-1'' 0)\<lparr>cn_UserID := u, cn_Status := (if u = [] then StatusConnecting else StatusAuthed)\<rparr>"

definition small_cend :: "Connection list \<Rightarrow> map_store RedisState \<Rightarrow> (map_store, unit, unit) CendServer" where
  "small_cend cs g = \<lparr>cs_ID = ''gw-1'', cs_Config = cfg_Cend DefaultConfig,
     cs_Connections = map_of (zip (map cn_ID cs) [0..<length cs]), cs_heap = cs, cs_ConnCount = int (length cs),
     cs_JWTManager = \<lparr>jm_privateKey = Some (), jm_publicKey = Some (), jm_issuer = ''dual-gateway'', jm_ttl = 7200 * second\<rparr>,
     cs_Metrics = zero_metrics, cs_Shadow = NewManager (cfg_Shadow DefaultConfig), cs_CmdQueue = NewQueue (cfg_Shadow DefaultConfig),
     cs_AcceptLimiter = NewAcceptLimiter 0 100 False, cs_subscribers = Map.empty, cs_redis = g,
     cs_mq = \<lparr>mq_available = False, mq_droppedCend = 0, mq_droppedIoT = 0, mq_written = []\<rparr>, cs_sends = 0\<rparr>"

lemmas small_cend_defs = small_cend_def small_conn_def small_cenv_def NewConnection_def


definition no_keys :: "(unit, unit) key_lib" where
  "no_keys = \<lparr>pem_Decode = \<lambda>_. None, ParsePKCS1PrivateKey = \<lambda>_. Inl (Error ''der''), ParsePKCS8PrivateKey = \<lambda>_. Inl (Error ''der''),
     ParsePKIXPublicKey = \<lambda>_. Inl (Error ''der''), ParsePKCS1PublicKey = \<lambda>_. Inl (Error ''der''), GenerateKeyPEM = \<lambda>_. Inl (Error ''rsa'')\<rparr>"

definition fresh_cend :: "(map_store, unit, unit) CendServer" where
  "fresh_cend = cend_NewServer no_keys DefaultConfig ''gw-1'' 0 (empty_redis False)
     \<lparr>mq_available = False, mq_droppedCend = 0, mq_droppedIoT = 0, mq_written = []\<rparr>"


end
