(* ===== verification/CendIO.thy ===== *)
theory CendIO
  imports CendSpec
begin

text \<open>
  What the C-end gateway sends: the frames of \<open>SendMessage\<close> and how they are taken apart, pushes to
  the subscribers of a device, the answers to commands, and what happens to a user's entry in the
  online table when connections close.
\<close>

section \<open>Frames\<close>

definition frame_of :: "bytes \<Rightarrow> bytes \<Rightarrow> bytes" where
  "frame_of hb body = put_uint16 (of_nat (length hb)) @ hb @ body"

text \<open>Marshalling gives a header that unmarshals to itself and fits the length prefix.\<close>

definition header_law :: "proto_lib \<Rightarrow> Header \<Rightarrow> bool" where
  "header_law pb h \<longleftrightarrow> (\<exists>hb. mar_header pb h = Inr hb \<and> un_header pb hb = Inr h \<and> 2 \<le> length hb \<and> length hb \<le> 65535)"

lemma split_frame:
  assumes "un_header pb hb = Inr h" "prefix_ok h" "2 \<le> length hb" "length hb \<le> 65535"
  shows "splitHeaderAndBody pb (frame_of hb body) = Inr (hb, body)"
proof -
  let ?p = "frame_of hb body"
  have hl: "256 * unat (?p ! 0) + unat (?p ! 1) = length hb"
    using assms(4) unat_hi_lo [of "of_nat (length hb)"] by (simp add: frame_of_def put_uint16_def unat_of_nat_uint16)
  have "length ?p = 2 + length hb + length body" "take (length hb) (drop 2 ?p) = hb" "drop (2 + length hb) ?p = body"
    by (simp_all add: frame_of_def)
  then have "split_by_prefix prefix_ok pb ?p = Some (hb, body)" "4 \<le> length ?p"
    using hl assms(1-3) by (simp_all add: split_by_prefix_def header_ok_def Let_def)
  then show ?thesis by (simp add: splitHeaderAndBody_def)
qed

definition sent_header :: "('r, 'priv, 'pub) CEnv \<Rightarrow> nat \<Rightarrow> int \<Rightarrow> uint64 \<Rightarrow> Header" where
  "sent_header e n ty seq = \<lparr>hd_Magic = 0xABCD, hd_Version = 1, hd_Type = ty, hd_Seq = seq,
     hd_Timestamp = of_int (ce_millis e), hd_TraceId = ce_trace e n\<rparr>"

lemma prefix_ok_sent [simp]: "prefix_ok (sent_header e n ty seq)"
  by (simp add: prefix_ok_def sent_header_def)

text \<open>\<open>delivers e c ty seq msg s s'\<close>: one frame that carries the message is the last in the channel of \<open>c\<close>; nothing else changes.\<close>

definition carries :: "proto_lib \<Rightarrow> int \<Rightarrow> uint64 \<Rightarrow> Body \<Rightarrow> bytes \<Rightarrow> bool" where
  "carries pb ty seq msg frame \<longleftrightarrow> (\<exists>hb body h. splitHeaderAndBody pb frame = Inr (hb, body) \<and> un_header pb hb = Inr h \<and>
     hd_Type h = ty \<and> hd_Seq h = seq \<and> mar_body pb msg = Inr body)"

definition open_conn :: "Connection \<Rightarrow> bool" where
  "open_conn cn \<longleftrightarrow> \<not> cn_CloseChan cn \<and> length (cn_SendChan cn) < 256"

lemma SendMessage_open:
  assumes "header_law (ce_pb e) (sent_header e (cs_sends s) ty seq)" "mar_body (ce_pb e) msg = Inr body"
    and "open_conn (cs_heap s ! c)" "c < length (cs_heap s)"
  shows "\<exists>frame. SendMessage e c ty seq msg s =
      (Inr (), upd_conn c (\<lambda>cn. cn\<lparr>cn_SendChan := cn_SendChan cn @ [frame]\<rparr>) (s\<lparr>cs_sends := cs_sends s + 1\<rparr>)) \<and>
    carries (ce_pb e) ty seq msg frame"
proof -
  obtain hb where hb: "mar_header (ce_pb e) (sent_header e (cs_sends s) ty seq) = Inr hb"
      "un_header (ce_pb e) hb = Inr (sent_header e (cs_sends s) ty seq)" "2 \<le> length hb" "length hb \<le> 65535"
    using assms(1) by (auto simp: header_law_def)
  have "SendMessage e c ty seq msg s =
      (Inr (), upd_conn c (\<lambda>cn. cn\<lparr>cn_SendChan := cn_SendChan cn @ [frame_of hb body]\<rparr>) (s\<lparr>cs_sends := cs_sends s + 1\<rparr>))"
    using assms(2,3) hb(1) by (simp add: SendMessage_def sent_header_def open_conn_def Let_def frame_of_def)
  moreover have "carries (ce_pb e) ty seq msg (frame_of hb body)"
    using split_frame [OF hb(2) prefix_ok_sent hb(3,4), of body] hb(2) assms(2)
    by (auto simp: carries_def sent_header_def)
  ultimately show ?thesis by blast
qed

text \<open>
  C20: A message that \<open>SendMessage\<close> accepts is queued as one frame on its connection, in order and within
  the channel's 256 places, and the gateway's own splitter takes the frame apart into exactly the
  header and the body that were marshalled; the other connections get nothing.
\<close>

theorem sent_frames_split:
  assumes "SendMessage e c ty seq msg s = (Inr (), s')" "c < length (cs_heap s)"
    and "header_law (ce_pb e) (sent_header e (cs_sends s) ty seq)"
  shows "\<exists>frame. cn_SendChan (cs_heap s' ! c) = cn_SendChan (cs_heap s ! c) @ [frame] \<and>
    carries (ce_pb e) ty seq msg frame \<and> length (cn_SendChan (cs_heap s' ! c)) \<le> 256 \<and>
    (\<forall>c'. c' \<noteq> c \<longrightarrow> cs_heap s' ! c' = cs_heap s ! c')"
proof -
  obtain hb where hb: "mar_header (ce_pb e) (sent_header e (cs_sends s) ty seq) = Inr hb"
      "un_header (ce_pb e) hb = Inr (sent_header e (cs_sends s) ty seq)" "2 \<le> length hb" "length hb \<le> 65535"
    using assms(3) by (auto simp: header_law_def)
  obtain body where body: "mar_body (ce_pb e) msg = Inr body" and room: "length (cn_SendChan (cs_heap s ! c)) < 256"
    and s': "s' = upd_conn c (\<lambda>cn. cn\<lparr>cn_SendChan := cn_SendChan cn @ [frame_of hb body]\<rparr>) (s\<lparr>cs_sends := cs_sends s + 1\<rparr>)"
    using assms(1) hb(1) by (auto simp: SendMessage_def sent_header_def frame_of_def Let_def split: sum.splits if_splits)
  have "carries (ce_pb e) ty seq msg (frame_of hb body)"
    using split_frame [OF hb(2) prefix_ok_sent hb(3,4), of body] hb(2) body by (auto simp: carries_def sent_header_def)
  then show ?thesis using room assms(2) by (auto simp: s' upd_conn_def nth_list_update)
qed

section \<open>Pushing a device's event to its subscribers\<close>

text \<open>The connection a user is reached on from this gateway.\<close>

definition reach :: "('r, 'priv, 'pub) CEnv \<Rightarrow> ('r, 'priv, 'pub) CendServer \<Rightarrow> string \<Rightarrow> nat option" where
  "reach e s u = (case fst (GetUserConnection (ce_ops e) (ce_js e) u (cs_redis s)) of
      Inl _ \<Rightarrow> None
    | Inr i \<Rightarrow> if ci_GatewayID i = cs_ID s then cs_Connections s (ci_ConnectionID i) else None)"

lemma GetUserConnection_quiet: "quiet ops \<Longrightarrow> snd (GetUserConnection ops js u g) = g"
  by (simp add: GetUserConnection_def hget_call_def)

lemma on_redis_lookup: "quiet (ce_ops e) \<Longrightarrow> on_redis (GetUserConnection (ce_ops e) (ce_js e) u) s =
    (fst (GetUserConnection (ce_ops e) (ce_js e) u (cs_redis s)), s)"
  using GetUserConnection_quiet [of "ce_ops e" "ce_js e" u "cs_redis s"] by (simp add: on_redis_def case_prod_beta)

definition is_push :: "proto_lib \<Rightarrow> bytes \<Rightarrow> bytes \<Rightarrow> bool" where
  "is_push pb content frame \<longleftrightarrow> (\<exists>p. psh_Content p = to_string content \<and> carries pb PUSH 0 (BPush p) frame)"

definition push_law :: "('r, 'priv, 'pub) CEnv \<Rightarrow> bool" where
  "push_law e \<longleftrightarrow> quiet (ce_ops e) \<and> (\<forall>n. header_law (ce_pb e) (sent_header e n PUSH 0)) \<and> (\<forall>p. \<exists>b. mar_body (ce_pb e) (BPush p) = Inr b)"

lemma PushToUser_reached:
  assumes "push_law e" "reach e s u = Some c" "open_conn (cs_heap s ! c)" "c < length (cs_heap s)"
  shows "\<exists>frame. PushToUser e u msg s =
      (Inr (), upd_conn c (\<lambda>cn. cn\<lparr>cn_SendChan := cn_SendChan cn @ [frame]\<rparr>) (s\<lparr>cs_sends := cs_sends s + 1\<rparr>)) \<and>
    is_push (ce_pb e) msg frame"
proof -
  have q: "quiet (ce_ops e)" using assms(1) by (simp add: push_law_def)
  obtain i where i: "fst (GetUserConnection (ce_ops e) (ce_js e) u (cs_redis s)) = Inr i" "ci_GatewayID i = cs_ID s"
      "cs_Connections s (ci_ConnectionID i) = Some c"
    using assms(2) by (auto simp: reach_def split: sum.splits if_splits)
  let ?p = "\<lparr>psh_MessageId = ce_mid e (cs_sends s), psh_From = [], psh_Content = to_string msg,
      psh_Metadata = Map.empty, psh_Timestamp = of_int (ce_millis e)\<rparr>"
  obtain b where "header_law (ce_pb e) (sent_header e (cs_sends s) PUSH 0)" "mar_body (ce_pb e) (BPush ?p) = Inr b"
    using assms(1) unfolding push_law_def by blast
  from SendMessage_open [OF this assms(3,4)]
  obtain frame where "SendMessage e c PUSH 0 (BPush ?p) s =
      (Inr (), upd_conn c (\<lambda>cn. cn\<lparr>cn_SendChan := cn_SendChan cn @ [frame]\<rparr>) (s\<lparr>cs_sends := cs_sends s + 1\<rparr>))"
      "carries (ce_pb e) PUSH 0 (BPush ?p) frame" by blast
  then show ?thesis
    using i q by (auto simp: PushToUser_def on_redis_lookup is_push_def intro!: exI [of _ ?p])
qed

text \<open>Looking users up depends on the online table only.\<close>

definition online :: "('r, 'priv, 'pub) CendServer \<Rightarrow> 'r \<times> bool \<times> (string \<rightharpoonup> string) \<times> (string \<rightharpoonup> nat) \<times> string" where
  "online s = (store (cs_redis s), localMode (cs_redis s), localOnline (cs_redis s), cs_Connections s, cs_ID s)"

lemma reach_online:
  assumes "quiet (ce_ops e)" "online s = online s'"
  shows "reach e s = reach e s'"
proof -
  have "fst (GetUserConnection (ce_ops e) (ce_js e) u (cs_redis s)) = fst (GetUserConnection (ce_ops e) (ce_js e) u (cs_redis s'))" for u
    using assms by (simp add: online_def GetUserConnection_def hget_call_def)
  then show ?thesis using assms(2) by (intro ext) (simp add: reach_def online_def split: sum.split)
qed

lemma online_upd_conn [simp]: "online (upd_conn c f s) = online s" "online (s\<lparr>cs_sends := n\<rparr>) = online s" "online (cmetric m s) = online s"
  by (simp_all add: online_def upd_conn_def)

lemma PushToUser_unreached:
  assumes "quiet (ce_ops e)" "reach e s u = None"
  shows "cs_heap (snd (PushToUser e u msg s)) = cs_heap s \<and> online (snd (PushToUser e u msg s)) = online s"
proof -
  have p: "quiet ops \<Longrightarrow> store (snd (redis_PublishMessage ops ch m g)) = store g \<and>
      localOnline (snd (redis_PublishMessage ops ch m g)) = localOnline g" for ops ch m g
    by (simp add: redis_PublishMessage_def quiet_def)
  show ?thesis
    using assms p by (auto simp: PushToUser_def on_redis_lookup reach_def forwardToOtherGateway_def on_redis_def online_def case_prod_beta
        GetUserConnection_quiet split: sum.splits if_splits option.splits)
qed

lemma push_users_frames:
  assumes "push_law e" "distinct us" "inj_on (reach e s) {u \<in> set us. reach e s u \<noteq> None}"
    and "\<forall>u \<in> set us. \<forall>c. reach e s u = Some c \<longrightarrow> c < length (cs_heap s) \<and> open_conn (cs_heap s ! c)"
    and "c < length (cs_heap s)"
  shows "if \<exists>u \<in> set us. reach e s u = Some c
    then \<exists>frame. is_push (ce_pb e) msg frame \<and> cs_heap (push_users e msg us s) ! c =
        (cs_heap s ! c)\<lparr>cn_SendChan := cn_SendChan (cs_heap s ! c) @ [frame]\<rparr>
    else cs_heap (push_users e msg us s) ! c = cs_heap s ! c"
  using assms
proof (induction us arbitrary: s)
  case (Cons u us)
  have q: "quiet (ce_ops e)" using Cons.prems(1) by (simp add: push_law_def)
  obtain r s1 where p: "PushToUser e u msg s = (r, s1)" by fastforce
  define s2 where "s2 = (case r of Inl _ \<Rightarrow> s1 | Inr _ \<Rightarrow> cmetric (\<lambda>m. m\<lparr>PushesSent := PushesSent m + 1\<rparr>) s1)"
  have step: "push_users e msg (u # us) s = push_users e msg us s2" "cs_heap s2 = cs_heap s1" "online s2 = online s1"
    by (simp_all add: p s2_def split: sum.split)
  show ?case
  proof (cases "reach e s u")
    case None
    then have h: "cs_heap s2 = cs_heap s" "reach e s2 = reach e s"
      using PushToUser_unreached [OF q None, of msg] p step(2,3) reach_online [OF q, of s2 s] by simp_all
    have "inj_on (reach e s) {v \<in> set us. reach e s v \<noteq> None}"
      by (rule inj_on_subset [OF Cons.prems(3)]) auto
    then show ?thesis
      using Cons.IH [of s2] Cons.prems None unfolding step(1) h by simp
  next
    case (Some d)
    then have d: "d < length (cs_heap s)" "open_conn (cs_heap s ! d)" using Cons.prems(4) by auto
    obtain frame where f1: "is_push (ce_pb e) msg frame"
      "s1 = upd_conn d (\<lambda>cn. cn\<lparr>cn_SendChan := cn_SendChan cn @ [frame]\<rparr>) (s\<lparr>cs_sends := cs_sends s + 1\<rparr>)"
      using PushToUser_reached [OF Cons.prems(1) Some d(2,1), of msg] p by auto
    have f: "is_push (ce_pb e) msg frame"
      "cs_heap s2 = (cs_heap s)[d := (cs_heap s ! d)\<lparr>cn_SendChan := cn_SendChan (cs_heap s ! d) @ [frame]\<rparr>]"
      "online s2 = online s"
      using f1 step(2,3) by (simp_all add: upd_conn_def online_def)
    have rs: "reach e s2 = reach e s" by (rule reach_online [OF q f(3)])
    have others: "reach e s v \<noteq> Some d" if "v \<in> set us" for v
    proof
      assume "reach e s v = Some d"
      then have "v = u" using that Some by (intro inj_onD [OF Cons.prems(3)]) auto
      then show False using that Cons.prems(2) by simp
    qed
    have IH: "if \<exists>v \<in> set us. reach e s v = Some c
      then \<exists>frame. is_push (ce_pb e) msg frame \<and> cs_heap (push_users e msg us s2) ! c =
          (cs_heap s2 ! c)\<lparr>cn_SendChan := cn_SendChan (cs_heap s2 ! c) @ [frame]\<rparr>
      else cs_heap (push_users e msg us s2) ! c = cs_heap s2 ! c"
    proof -
      have "inj_on (reach e s) {v \<in> set us. reach e s v \<noteq> None}"
        by (rule inj_on_subset [OF Cons.prems(3)]) auto
      moreover have "\<forall>v \<in> set us. \<forall>c. reach e s v = Some c \<longrightarrow> c < length (cs_heap s2) \<and> open_conn (cs_heap s2 ! c)"
      proof (intro ballI allI impI)
        fix v c assume v: "v \<in> set us" "reach e s v = Some c"
        then have "c \<noteq> d" using others by blast
        then show "c < length (cs_heap s2) \<and> open_conn (cs_heap s2 ! c)" using Cons.prems(4) v by (simp add: f(2))
      qed
      moreover have "c < length (cs_heap s2)" using Cons.prems(5) by (simp add: f(2))
      ultimately show ?thesis using Cons.IH [of s2] Cons.prems(1,2) rs by simp
    qed
    show ?thesis
    proof (cases "c = d")
      case True
      then show ?thesis using IH others f(1,2) d(1) Some step(1) by (auto simp: nth_list_update)
    next
      case False
      then have e1: "cs_heap s2 ! c = cs_heap s ! c" by (simp add: f(2))
      have e2: "(\<exists>v \<in> set (u # us). reach e s v = Some c) \<longleftrightarrow> (\<exists>v \<in> set us. reach e s v = Some c)"
        using Some False by auto
      show ?thesis using IH unfolding step(1) e1 e2 .
    qed
  qed
qed simp

text \<open>
  C19: An event of a device is pushed to exactly its subscribers: every connection over which this
  gateway reaches a subscriber gets one PUSH frame with the event's text, whatever order the
  subscribers are visited in and whether or not the others are online, and every other connection
  is left as it is.  (Redis answers, each user has a connection of its own, and the connections
  reached are open with room to send.)
\<close>

theorem push_reaches_exactly_subscribers:
  assumes "push_law e" "cs_subscribers s dev = Some users" "distinct (ce_order e users)" "set (ce_order e users) = set users"
    and "inj_on (reach e s) {u \<in> set users. reach e s u \<noteq> None}"
    and "\<forall>u \<in> set users. \<forall>c. reach e s u = Some c \<longrightarrow> c < length (cs_heap s) \<and> open_conn (cs_heap s ! c)"
    and "c < length (cs_heap s)"
  shows "if \<exists>u \<in> set users. reach e s u = Some c
    then \<exists>frame. is_push (ce_pb e) msg frame \<and> cs_heap (PushShadowEvent e dev msg s) ! c =
        (cs_heap s ! c)\<lparr>cn_SendChan := cn_SendChan (cs_heap s ! c) @ [frame]\<rparr>
    else cs_heap (PushShadowEvent e dev msg s) ! c = cs_heap s ! c"
proof -
  have "PushShadowEvent e dev msg s = push_users e msg (ce_order e users) s"
    using assms(2) by (simp add: PushShadowEvent_def)
  then show ?thesis
    using push_users_frames [OF assms(1,3), of s c msg] assms(4-7) by simp
qed

section \<open>The online table\<close>

definition conn_info :: "string \<Rightarrow> string \<Rightarrow> string \<Rightarrow> int \<Rightarrow> ConnectionInfo" where
  "conn_info u i gw t = \<lparr>ci_UserID = u, ci_ConnectionID = i, ci_GatewayID = gw, ci_GatewayType = ''cend'', ci_Timestamp = t\<rparr>"

text \<open>What Redis and the marshalling of an entry are relied on for.\<close>

definition online_law :: "'r redis_ops \<Rightarrow> json_ops \<Rightarrow> bool" where
  "online_law ops js \<longleftrightarrow> quiet ops \<and> redis_hash_laws ops \<and> (\<forall>i. json_conn_ok js i)"

lemma AddOnlineUser_lookup:
  assumes "online_law ops js"
  shows "fst (AddOnlineUser ops js t u i gw g) = Inr ()"
    and "fst (GetUserConnection ops js v (snd (AddOnlineUser ops js t u i gw g))) =
      (if v = u then Inr (conn_info u i gw t) else fst (GetUserConnection ops js v g))"
proof -
  have "json_conn_ok js (conn_info u i gw t)" using assms by (simp add: online_law_def)
  then show "fst (AddOnlineUser ops js t u i gw g) = Inr ()"
    and "fst (GetUserConnection ops js v (snd (AddOnlineUser ops js t u i gw g))) =
      (if v = u then Inr (conn_info u i gw t) else fst (GetUserConnection ops js v g))"
    using assms by (auto simp: online_law_def AddOnlineUser_def GetUserConnection_def hget_call_def Let_def hash_laws
        json_conn_ok_def conn_info_def local_get_def unmarshal_def split: option.split)
qed

lemma RemoveOnlineUser_lookup:
  assumes "online_law ops js"
  shows "\<exists>er. fst (GetUserConnection ops js u (snd (RemoveOnlineUser ops u g))) = Inl er"
  using assms by (auto simp: online_law_def RemoveOnlineUser_def GetUserConnection_def hget_call_def hash_laws local_get_def)

lemma Close_heap: "c' \<noteq> c \<Longrightarrow> cs_heap (Close e c s) ! c' = cs_heap s ! c'" "cs_ID (Close e c s) = cs_ID s"
  by (simp_all add: Close_def Let_def upd_conn_def on_redis_def split: prod.split)

lemma Close_redis:
  "\<not> cn_once (cs_heap s ! c) \<Longrightarrow> cn_Status (cs_heap s ! c) \<noteq> StatusClosed \<Longrightarrow> cn_UserID (cs_heap s ! c) \<noteq> [] \<Longrightarrow>
     cs_redis (Close e c s) = snd (RemoveOnlineUser (ce_ops e) (cn_UserID (cs_heap s ! c)) (cs_redis s))"
  by (simp add: Close_def Let_def upd_conn_def on_redis_def split: prod.split)

text \<open>
  A user with two connections loses the newer one's registration when the older one closes: the
  online entry that named the newer connection is gone and every push to the user fails, although
  that connection is untouched, authenticated and in the table.
\<close>

theorem old_close_hides_new_connection:
  assumes "online_law (ce_ops e) (ce_js e)" "old \<noteq> new" "cn_UserID (cs_heap s ! old) = u" "u \<noteq> []"
    and "\<not> cn_once (cs_heap s ! old)" "cn_Status (cs_heap s ! old) \<noteq> StatusClosed"
    and "reach e s u = Some new"
  shows "let s' = Close e old s in cs_heap s' ! new = cs_heap s ! new \<and> cs_Connections s' = cs_Connections s \<and>
    reach e s' u = None \<and> (\<exists>er. fst (PushToUser e u msg s') = Inl er)"
proof -
  define s' where "s' = Close e old s"
  have "cs_redis s' = snd (RemoveOnlineUser (ce_ops e) u (cs_redis s))"
    using Close_redis [of s old e] assms(3-6) by (simp add: s'_def)
  then obtain er where er: "fst (GetUserConnection (ce_ops e) (ce_js e) u (cs_redis s')) = Inl er"
    using RemoveOnlineUser_lookup [OF assms(1)] by metis
  have q: "quiet (ce_ops e)" using assms(1) by (simp add: online_law_def)
  have "\<exists>er. fst (PushToUser e u msg s') = Inl er" using er by (simp add: PushToUser_def on_redis_lookup [OF q])
  then show ?thesis using er assms(2) by (simp add: Let_def reach_def Close_heap flip: s'_def) (simp add: s'_def Close_heap)
qed

lemma handleAuth_accepted:
  assumes "cn_Status (cs_heap s ! c) \<noteq> StatusAuthed" "auth_body (ce_pb e) body = Some rq"
    and "ValidateToken (ce_jwt e) (ce_now e) (arq_Token rq) (cs_JWTManager s) = Inr claims"
  shows "core (snd (handleAuth e c h body s)) = core (sign_in e c claims s)"
proof -
  define s1 where "s1 = cmetric (\<lambda>m. m\<lparr>AuthRequests := AuthRequests m + 1\<rparr>) s"
  obtain v s2 where add: "on_redis (AddOnlineUser (ce_ops e) (ce_js e) (ce_unix e) (cl_UserID claims)
      (cn_ID (cs_heap s ! c)) (cs_ID s)) (upd_conn c (signed_in claims) s1) = (v, s2)" by fastforce
  then have "s2 = sign_in e c claims s1" by (simp add: sign_in_def s1_def)
  then have "core s2 = core (sign_in e c claims s)" by (simp add: s1_def sign_in_cmetric cend_frame)
  then show ?thesis
    using assms add unfolding handleAuth_def Let_def s1_def
    by (auto simp: signed_in_def [abs_def] cend_frame split: sum.splits)
qed

text \<open>
  An AUTH that is handled after its connection was closed brings the user online for good: the
  status goes back from closed to authenticated, the online table names the dead connection, and no
  later close removes the entry, since closing runs once.
\<close>

theorem late_auth_leaves_user_online:
  assumes "online_law (ce_ops e) (ce_js e)" "c < length (cs_heap s)"
    and "cn_once (cs_heap s ! c)" "cn_Status (cs_heap s ! c) = StatusClosed"
    and "auth_body (ce_pb e) body = Some rq" "ValidateToken (ce_jwt e) (ce_now e) (arq_Token rq) (cs_JWTManager s) = Inr claims"
    and "s' = snd (handleAuth e c h body s)"
  shows "cn_Status (cs_heap s' ! c) = StatusAuthed \<and> cn_ConnClosed (cs_heap s' ! c) = cn_ConnClosed (cs_heap s ! c) \<and>
    fst (GetUserConnection (ce_ops e) (ce_js e) (cl_UserID claims) (cs_redis s')) =
      Inr (conn_info (cl_UserID claims) (cn_ID (cs_heap s ! c)) (cs_ID s) (ce_unix e)) \<and>
    (\<forall>e'. Close e' c s' = s')"
proof -
  have k: "core s' = core (sign_in e c claims s)"
    using handleAuth_accepted [OF _ assms(5,6)] assms(4,7) by simp
  have i: "cs_heap (sign_in e c claims s) = (cs_heap s)[c := signed_in claims (cs_heap s ! c)]"
    "cs_redis (sign_in e c claims s) = snd (AddOnlineUser (ce_ops e) (ce_js e) (ce_unix e) (cl_UserID claims) (cn_ID (cs_heap s ! c)) (cs_ID s) (cs_redis s))"
    by (simp_all add: sign_in_def on_redis_def upd_conn_def split: prod.split)
  have l: "c < length (cs_heap s')" using core_conn(1) [OF k] assms(2) by (simp add: i(1))
  have "conn_core (cs_heap s' ! c) = conn_core (signed_in claims (cs_heap s ! c))"
    using core_conn(2) [OF k l] assms(2) by (simp add: i(1))
  from conn_core_fields [OF this] have f: "cn_Status (cs_heap s' ! c) = StatusAuthed" "cn_once (cs_heap s' ! c)"
    "cn_ConnClosed (cs_heap s' ! c) = cn_ConnClosed (cs_heap s ! c)"
    using assms(3) by (simp_all add: signed_in_def)
  have "fst (GetUserConnection (ce_ops e) (ce_js e) (cl_UserID claims) (cs_redis s')) =
      Inr (conn_info (cl_UserID claims) (cn_ID (cs_heap s ! c)) (cs_ID s) (ce_unix e))"
    unfolding core_fields(3) [OF k] i(2) using AddOnlineUser_lookup(2) [OF assms(1)] by simp
  then show ?thesis using f by (simp add: Close_def)
qed

section \<open>Witnesses\<close>

lemma small_header_law: "ty \<in> {MESSAGE_ACK, PUSH} \<Longrightarrow> seq \<in> {0, 7} \<Longrightarrow> header_law net_proto (sent_header (small_cenv cid 0) n ty seq)"
proof -
  assume ty: "ty \<in> {MESSAGE_ACK, PUSH}" "seq \<in> {0, 7}"
  obtain hb where hb: "mar_header net_proto (sent_header (small_cenv cid 0) n ty seq) = Inr hb"
      "un_header net_proto hb = Inr (sent_header (small_cenv cid 0) n ty seq)" "2 \<le> length hb"
    using net_proto_header by blast
  have "length (net_fields [show_w (0xABCD :: uint32), show_w (1 :: uint32), show_int ty, show_w seq, show_w (0 :: uint64), ''t'']) \<le> 65535"
    using ty by (elim insertE emptyE)
      (simp_all add: MESSAGE_ACK_def PUSH_def net_fields_def enc_str_def show_w_def show_int_def show_nat.simps)
  then have "length hb \<le> 65535" using hb(1) by (auto simp: net_proto_def sent_header_def small_cenv_def)
  then show ?thesis using hb by (auto simp: header_law_def)
qed

lemma small_push_law: "push_law (small_cenv cid 0)"
  using small_header_law [of PUSH 0] by (simp add: push_law_def small_cenv_def net_proto_def)

lemma small_online_law: "online_law map_redis net_records"
  by (simp add: online_law_def map_redis_hash_laws net_records_ok)

text \<open>Users with their connections; the last connection of a user is the one the online table names.\<close>

definition online_redis :: "string \<Rightarrow> string \<Rightarrow> map_store RedisState" where
  "online_redis u i = snd (AddOnlineUser map_redis net_records 0 u i ''gw-1'' (empty_redis False))"

lemma reach_small: "reach (small_cenv cid 0) (small_cend cs (online_redis u i)) u = map_of (zip (map cn_ID cs) [0..<length cs]) i"
proof -
  have "fst (GetUserConnection map_redis net_records u (online_redis u i)) = Inr (conn_info u i ''gw-1'' 0)"
    unfolding online_redis_def AddOnlineUser_lookup(2) [OF small_online_law] by simp
  then show ?thesis by (simp add: reach_def small_cend_def small_cenv_def conn_info_def)
qed

lemma reach_subscribers: "reach e (s\<lparr>cs_subscribers := x\<rparr>) = reach e s"
  by (intro ext) (simp add: reach_def split: sum.split)

theorem sent_frames_split_witness:
  "\<exists>s'. SendMessage (small_cenv ''c'' 0) 0 MESSAGE_ACK 7 (BError \<lparr>err_Code = 1, err_Message = ''x''\<rparr>)
       (small_cend [small_conn ''a'' ''u''] (empty_redis False)) = (Inr (), s') \<and>
     length (cn_SendChan (cs_heap s' ! 0)) \<le> 256"
proof -
  let ?s = "small_cend [small_conn ''a'' ''u''] (empty_redis False)" and ?e = "small_cenv ''c'' 0"
  have n: "c < length (cs_heap ?s) \<Longrightarrow> c = 0" "0 < length (cs_heap ?s)" for c by (simp_all add: small_cend_def)
  have l: "header_law (ce_pb ?e) (sent_header ?e (cs_sends ?s) MESSAGE_ACK 7)" using small_header_law by (simp add: small_cenv_def)
  have b: "\<exists>b. mar_body (ce_pb ?e) (BError \<lparr>err_Code = 1, err_Message = ''x''\<rparr>) = Inr b" by (simp add: small_cenv_def net_proto_def)
  have o: "open_conn (cs_heap ?s ! 0)" by (simp add: open_conn_def small_cend_defs)
  obtain s' where s': "SendMessage ?e 0 MESSAGE_ACK 7 (BError \<lparr>err_Code = 1, err_Message = ''x''\<rparr>) ?s = (Inr (), s')"
    using b SendMessage_open [OF l _ o n(2)] by blast
  from sent_frames_split [OF s' n(2) l] s' show ?thesis by blast
qed

theorem push_reaches_exactly_subscribers_witness:
  "let s = (small_cend [small_conn ''a'' ''u'', small_conn ''b'' ''v''] (online_redis ''u'' ''b''))\<lparr>cs_subscribers := [''dev'' \<mapsto> [''u'']]\<rparr>
   in \<exists>frame. is_push net_proto [5] frame \<and> cs_heap (PushShadowEvent (small_cenv ''c'' 0) ''dev'' [5] s) ! 1 =
        (cs_heap s ! 1)\<lparr>cn_SendChan := cn_SendChan (cs_heap s ! 1) @ [frame]\<rparr>"
proof -
  let ?base = "small_cend [small_conn ''a'' ''u'', small_conn ''b'' ''v''] (online_redis ''u'' ''b'')"
  let ?s = "?base\<lparr>cs_subscribers := [''dev'' \<mapsto> [''u'']]\<rparr>" and ?e = "small_cenv ''c'' 0"
  have "reach ?e ?base ''u'' = Some 1" unfolding reach_small by (simp add: small_conn_def NewConnection_def)
  then have r: "reach ?e ?s ''u'' = Some 1" by (simp add: reach_subscribers)
  have o: "cs_subscribers ?s ''dev'' = Some [''u'']" "ce_order ?e [''u''] = [''u'']" "1 < length (cs_heap ?s)" "open_conn (cs_heap ?s ! 1)"
    by (simp_all add: small_cend_defs open_conn_def)
  have pb: "ce_pb ?e = net_proto" by (simp add: small_cenv_def)
  have "inj_on (reach ?e ?s) {u \<in> set [''u'']. reach ?e ?s u \<noteq> None}" by (auto simp: inj_on_def)
  then show ?thesis
    using push_reaches_exactly_subscribers [OF small_push_law o(1), of "''c''" 1 "[5]"] r o pb by (simp add: Let_def)
qed

theorem old_close_hides_new_connection_witness:
  "reach (small_cenv ''c'' 0) (Close (small_cenv ''c'' 0) 0
     (small_cend [small_conn ''a'' ''u'', small_conn ''b'' ''u''] (online_redis ''u'' ''b''))) ''u'' = None"
proof -
  let ?s = "small_cend [small_conn ''a'' ''u'', small_conn ''b'' ''u''] (online_redis ''u'' ''b'')" and ?e = "small_cenv ''c'' 0"
  have "reach ?e ?s ''u'' = Some 1" unfolding reach_small by (simp add: small_conn_def NewConnection_def)
  moreover have "online_law (ce_ops ?e) (ce_js ?e)" using small_online_law by (simp add: small_cenv_def)
  moreover have "cn_UserID (cs_heap ?s ! 0) = ''u''" "\<not> cn_once (cs_heap ?s ! 0)" "cn_Status (cs_heap ?s ! 0) \<noteq> StatusClosed"
    by (simp_all add: small_cend_defs)
  ultimately show ?thesis
    using old_close_hides_new_connection [of ?e 0 1 ?s "''u''"] by (simp add: Let_def)
qed

theorem late_auth_leaves_user_online_witness:
  "let e = small_cenv ''c'' 0; s = Close e 0 (small_cend [small_conn ''a'' []] (empty_redis False));
       s' = snd (handleAuth e 0 small_header (net_body (BAuthRequest (zero_auth\<lparr>arq_Token := ''tok-u''\<rparr>))) s)
   in cn_Status (cs_heap s ! 0) = StatusClosed \<and> cn_Status (cs_heap s' ! 0) = StatusAuthed"
proof -
  let ?e = "small_cenv ''c'' 0" and ?b = "net_body (BAuthRequest (zero_auth\<lparr>arq_Token := ''tok-u''\<rparr>))"
  define s where "s = Close ?e 0 (small_cend [small_conn ''a'' []] (empty_redis False))"
  have s: "0 < length (cs_heap s)" "cn_once (cs_heap s ! 0)" "cn_Status (cs_heap s ! 0) = StatusClosed"
    "cs_JWTManager s = cs_JWTManager (small_cend [] (empty_redis False))"
    by (simp_all add: s_def Close_def small_cend_defs upd_conn_def)
  have "dec_strs 5 (to_string ?b) = Some [''tok-u'', [], [], [], []]"
    unfolding net_body.simps by (rule trans [OF net_fields_read]) (simp_all add: zero_auth_def)
  moreover have "?b \<noteq> []" using net_fields_Cons [of "''tok-u''" "[[], [], [], []]"] by (auto simp: zero_auth_def)
  ultimately have b: "auth_body (ce_pb ?e) ?b = Some (zero_auth\<lparr>arq_Token := ''tok-u''\<rparr>)"
    by (simp add: auth_body_def small_cenv_def net_proto_def zero_auth_def del: net_body.simps dec_strs.simps)
  have v: "ValidateToken (ce_jwt ?e) (ce_now ?e) ''tok-u'' (cs_JWTManager s) = Inr (user_claims ''u'')"
    unfolding s(4) by (simp add: ValidateToken_def small_cend_def small_cenv_def user_jwt_def key_func_def user_claims_def)
  have o: "online_law (ce_ops ?e) (ce_js ?e)" using small_online_law by (simp add: small_cenv_def)
  show ?thesis
    using late_auth_leaves_user_online [OF o s(1,2,3) b _ refl, of "user_claims ''u''" small_header] v s(3)
    by (simp add: Let_def flip: s_def)
qed

end
