(* ===== verification/CendCommands.thy ===== *)
theory CendCommands
  imports CendIO
begin

text \<open>
  Commands of users: what \<^verbatim>\<open>handleDeviceCommand\<close> does to the shadow, the command queue and the
  connection, over the contracts of \<open>ShadowSpec\<close> and \<open>CommandSpec\<close>.  The shadow and the queue share one
  Redis server, so their abstractions have to survive each other's writes; the laws for that are
  \<open>redis_cross_laws\<close>.
\<close>

section \<open>Shadow and queue in one store\<close>

text \<open>Writing one key leaves the others alone, whatever their kind.\<close>

definition redis_cross_laws :: "'r redis_ops \<Rightarrow> bool" where
  "redis_cross_laws ops \<longleftrightarrow>
     (\<forall>r k x k' f. k' \<noteq> k \<longrightarrow> HGET ops (RPUSH ops r k x) k' f = HGET ops r k' f) \<and>
     (\<forall>r k x k' f. k' \<noteq> k \<longrightarrow> HGET ops (LREM1 ops r k x) k' f = HGET ops r k' f) \<and>
     (\<forall>r k fs k'. k' \<noteq> k \<longrightarrow> LRANGE ops (HMSET ops r k fs) k' = LRANGE ops r k') \<and>
     (\<forall>r k fs k'. k' \<noteq> k \<longrightarrow> EXISTS ops (HMSET ops r k fs) k' = EXISTS ops r k')"

lemma map_redis_cross_laws: "redis_cross_laws map_redis"
  by (simp add: redis_cross_laws_def map_redis_def)

lemma command_keys_apart [simp]:
  "shadowKey d \<noteq> cmdKey d'" "shadowKey d \<noteq> dedupKey i" "cmdKey d' \<noteq> shadowKey d" "dedupKey i \<noteq> shadowKey d"
  by (simp_all add: shadowKey_def shadowKeyPrefix_def cmdKey_def dedupKey_def)

text \<open>Both abstractions read the mode and the store only.\<close>

lemma shadow_sys_store:
  assumes "localMode g = localMode g'" "store g = store g'"
  shows "shadow_valid (ops, m, g) = shadow_valid (ops, m, g')" "shadow_look (ops, m, g) = shadow_look (ops, m, g')"
  using assms by (simp_all add: shadow_valid_def shadow_look_def local_valid_def redis_valid_def local_look_def redis_look_def)

lemma cmd_sys_store:
  assumes "localMode g = localMode g'" "store g = store g'"
  shows "queue_ok (ops, js, q, g) = queue_ok (ops, js, q, g')" "pending (ops, js, q, g) = pending (ops, js, q, g')"
proof -
  have m: "local_queue (ops, js, q, g) = local_queue (ops, js, q, g')" "redis_queue (ops, js, q, g) = redis_queue (ops, js, q, g')"
    "redis_cmds (ops, js, q, g) = redis_cmds (ops, js, q, g')" "local_cmds (ops, js, q, g) = local_cmds (ops, js, q, g')"
    using assms by (simp_all add: local_queue_def redis_queue_def local_cmds_def redis_cmds_def)
  show "queue_ok (ops, js, q, g) = queue_ok (ops, js, q, g')" "pending (ops, js, q, g) = pending (ops, js, q, g')"
    unfolding queue_ok_def pending_def m by (rule refl)+
qed

lemma TryPreoccupy_store:
  assumes "shadow_valid (ops, m, g)" "TryPreoccupy ops now ms d (m, g) = (r, m', g')"
  shows "localMode g' = localMode g \<and> (localMode g \<longrightarrow> g' = g) \<and>
    (store g' = store g \<or> (\<exists>fs. store g' = HMSET ops (store g) (shadowKey d) fs))"
proof (cases "localMode g")
  case True
  then show ?thesis using assms Pre_local [of m g ops now ms d r m' g'] by (auto simp: shadow_valid_def local_valid_def redis_valid_def)
next
  case False
  then have v: "m_Enabled m" "quiet ops" "rvalid ops (store g)"
    using assms(1) by (auto simp: shadow_valid_def local_valid_def redis_valid_def)
  obtain res r' where l: "luaPreoccupy ops (shadowKey d) (show_int now) (store g) = (res, r')" by fastforce
  then have "r' = store g \<or> (\<exists>fs. r' = HMSET ops (store g) (shadowKey d) fs)"
    by (auto simp: luaPreoccupy_def lua_bump_def Let_def split: if_splits option.splits)
  moreover have "localMode g' = localMode g" "store g' = r'"
    using assms(2) v False l luaPreoccupy_valid [OF v(3) l] by (auto simp: TryPreoccupy_def tryPreoccupy_def IsLocalMode_def publishEvent_def split: if_splits)
  ultimately show ?thesis using False by simp
qed

definition cmd_seen :: "'r cmd_sys \<Rightarrow> string \<Rightarrow> bool" where
  "cmd_seen s = (if local_queue s then local_seen s else redis_seen s)"

lemma enq_accepts: "queue_ok s \<Longrightarrow> fst (enq_op now d i ty p s) \<longleftrightarrow> \<not> cmd_seen s i"
  using enq_local [of s now d i ty p "fst (enq_op now d i ty p s)" "snd (enq_op now d i ty p s)"]
    enq_redis [of s now d i ty p "fst (enq_op now d i ty p s)" "snd (enq_op now d i ty p s)"] queue_modes [of s]
  by (auto simp: queue_ok_def cmd_seen_def)

lemma TryPreoccupy_keeps_queue:
  assumes "shadow_valid (ops, m, g)" "redis_cross_laws ops" "TryPreoccupy ops now ms d (m, g) = (r, m', g')" "queue_ok (ops, js, q, g)"
  shows "queue_ok (ops, js, q, g') \<and> pending (ops, js, q, g') = pending (ops, js, q, g) \<and> cmd_seen (ops, js, q, g') = cmd_seen (ops, js, q, g)"
proof -
  have s: "localMode g' = localMode g" "localMode g \<Longrightarrow> g' = g"
    "store g' = store g \<or> (\<exists>fs. store g' = HMSET ops (store g) (shadowKey d) fs)"
    using TryPreoccupy_store [OF assms(1,3)] by blast+
  then have "LRANGE ops (store g') (cmdKey x) = LRANGE ops (store g) (cmdKey x)"
    "EXISTS ops (store g') (dedupKey i) = EXISTS ops (store g) (dedupKey i)" for x i
    using assms(2) by (auto simp: redis_cross_laws_def)
  then show ?thesis
    using s(1,2) assms(4) by (cases "localMode g")
      (simp_all add: queue_ok_def pending_def cmd_seen_def local_queue_def redis_queue_def redis_cmds_def redis_seen_def entries_ok_def)
qed

lemma enqueue_store:
  assumes "queue_ok (ops, js, q, g)" "EnqueueWithID ops js now d i ty p (q, g) = (r, q', g')"
  shows "localMode g' = localMode g \<and> (localMode g \<longrightarrow> g' = g) \<and> (store g' = store g \<or>
    (\<exists>v t x n. store g' = EXPIRE ops (RPUSH ops (SETEX ops (store g) (dedupKey i) v t) (cmdKey d) x) (cmdKey d) n))"
  using assms
  by (auto simp: EnqueueWithID_def enqueue_cmd_def new_cmd_def Let_def queue_ok_def local_queue_def redis_queue_def IsLocalMode_def
      SETNX_def split: if_splits) blast

lemma enqueue_keeps_shadow:
  assumes "queue_ok (ops, js, q, g)" "redis_cross_laws ops" "EnqueueWithID ops js now d i ty p (q, g) = (r, q', g')" "shadow_valid (ops, m, g)"
  shows "shadow_valid (ops, m, g') \<and> shadow_look (ops, m, g') = shadow_look (ops, m, g)"
proof (cases "localMode g")
  case True
  then show ?thesis using enqueue_store [OF assms(1,3)] assms(4) by simp
next
  case False
  then have h: "redis_hash_laws ops" using assms(4) by (auto simp: shadow_valid_def local_valid_def redis_valid_def rvalid_def)
  have "HGET ops (store g') (shadowKey x) f = HGET ops (store g) (shadowKey x) f" for x f
    using enqueue_store [OF assms(1,3)] assms(2) by (auto simp: redis_cross_laws_def hash_laws [OF h])
  then have "rnum ops (store g') = rnum ops (store g)" "rlook ops (store g') = rlook ops (store g)"
    by (simp_all add: rnum_def rlook_def hget_or_def fun_eq_iff)
  then show ?thesis
    using False assms(4) enqueue_store [OF assms(1,3)]
    by (simp add: shadow_valid_def shadow_look_def local_valid_def redis_valid_def redis_look_def rvalid_def)
qed

lemma Enqueue_ID:
  "q_enabled q \<Longrightarrow> Enqueue ops js now i d ty p (q, g) =
     (let (r, st) = EnqueueWithID ops js now d i ty p (q, g)
      in ((case r of Inl e \<Rightarrow> (None, Some e) | Inr _ \<Rightarrow> (Some (new_cmd q now d i ty p), None)), st))"
  by (simp add: Enqueue_def EnqueueWithID_def Let_def)

section \<open>A command\<close>

abbreviation shadow_of :: "('r, 'priv, 'pub) CEnv \<Rightarrow> ('r, 'priv, 'pub) CendServer \<Rightarrow> 'r shadow_sys" where
  "shadow_of e s \<equiv> (ce_ops e, cs_Shadow s, cs_redis s)"

abbreviation queue_of :: "('r, 'priv, 'pub) CEnv \<Rightarrow> ('r, 'priv, 'pub) CendServer \<Rightarrow> 'r cmd_sys" where
  "queue_of e s \<equiv> (ce_ops e, ce_cj e, cs_CmdQueue s, cs_redis s)"

text \<open>Shadow and queue are in order, and their keys in one store are apart.\<close>

definition stores_ok :: "('r, 'priv, 'pub) CEnv \<Rightarrow> ('r, 'priv, 'pub) CendServer \<Rightarrow> bool" where
  "stores_ok e s \<longleftrightarrow> shadow_valid (shadow_of e s) \<and> queue_ok (queue_of e s) \<and> redis_cross_laws (ce_ops e)"

lemma ack_stores [simp]:
  "cs_Shadow (sendMessageAck e c seq rid code m s) = cs_Shadow s" "cs_CmdQueue (sendMessageAck e c seq rid code m s) = cs_CmdQueue s"
  "cs_redis (sendMessageAck e c seq rid code m s) = cs_redis s"
  by (rule core_fields(1-3) [OF core_replies(2)])+

text \<open>Queueing the command: the queue grows by it unless its identifier was used, and the shadow stays.\<close>

lemma queue_enabled: "queue_ok (ops, js, q, g) \<Longrightarrow> q_enabled q"
  by (auto simp: queue_ok_def local_queue_def redis_queue_def)

lemma queue_command_stores:
  assumes "stores_ok e s" "s' = queue_command e c h msg ps s"
  shows "stores_ok e s' \<and> shadow_look (shadow_of e s') = shadow_look (shadow_of e s) \<and>
    pending (queue_of e s') = (if fst (enq_op (ce_unix e) (bm_To msg) (ce_cid e) (bm_Type msg) (cj_marshal (ce_json e) ps) (queue_of e s))
      then (pending (queue_of e s))(bm_To msg := pending (queue_of e s) (bm_To msg) @
        [new_cmd (cs_CmdQueue s) (ce_unix e) (bm_To msg) (ce_cid e) (bm_Type msg) (cj_marshal (ce_json e) ps)])
      else pending (queue_of e s))"
proof -
  let ?p = "cj_marshal (ce_json e) ps" and ?d = "bm_To msg"
  have ok: "queue_ok (queue_of e s)" "shadow_valid (shadow_of e s)" "redis_cross_laws (ce_ops e)"
    using assms(1) by (simp_all add: stores_ok_def)
  obtain r q1 g1 where enq: "EnqueueWithID (ce_ops e) (ce_cj e) (ce_unix e) ?d (ce_cid e) (bm_Type msg) ?p (cs_CmdQueue s, cs_redis s) = (r, q1, g1)"
    by (metis prod_cases3)
  have op: "enq_op (ce_unix e) ?d (ce_cid e) (bm_Type msg) ?p (queue_of e s) = (r = Inr (), ce_ops e, ce_cj e, q1, g1)"
    by (simp add: enq_op_def enq)
  note enq_ok [OF ok(1) op] enqueue_keeps_shadow [OF ok(1,3) enq ok(2)]
  moreover have "cs_Shadow s' = cs_Shadow s" "cs_CmdQueue s' = q1" "localMode (cs_redis s') = localMode g1"
    and st: "quiet (ce_ops e) \<or> localMode g1 \<Longrightarrow> store (cs_redis s') = store g1"
    using assms(2) enq queue_enabled [OF ok(1)]
    by (auto simp: queue_command_def on_queue_def on_redis_def Enqueue_ID case_prod_beta Let_def split: sum.splits prod.splits)
  moreover have "quiet (ce_ops e) \<or> localMode g1"
    using ok(1) enqueue_store [OF ok(1) enq] by (auto simp: queue_ok_def local_queue_def redis_queue_def)
  ultimately show ?thesis
    using ok(3) shadow_sys_store [of "cs_redis s'" g1 "ce_ops e" "cs_Shadow s"] cmd_sys_store [of "cs_redis s'" g1 "ce_ops e" "ce_cj e" q1] op
    by (simp add: stores_ok_def cmd_for_def)
qed

text \<open>Taking a device: what is returned and what becomes of the shadow.\<close>

definition takes :: "('r, 'priv, 'pub) CEnv \<Rightarrow> ('r, 'priv, 'pub) CendServer \<Rightarrow> string \<Rightarrow> bool" where
  "takes e s d \<longleftrightarrow> fst (step ((ce_unix e, ce_millis e), OpPre d) (shadow_of e s))"

lemma TryPreoccupy_returns:
  assumes "shadow_valid (ops, m, g)" "TryPreoccupy ops now ms d (m, g) = ((sh, er), m', g')"
  shows "(er = None \<longrightarrow> (\<exists>sd. sh = Some sd \<and> sh_Version sd = snd (shadow_look (ops, m, g) d) + 1)) \<and> (\<forall>p. er \<noteq> Some (Panic p))"
proof (cases "localMode g")
  case True
  then have "m_Enabled m" using assms(1) by (auto simp: shadow_valid_def local_valid_def redis_valid_def)
  then show ?thesis
    using True assms(2) by (cases "m_local m d")
      (auto simp: TryPreoccupy_def tryPreoccupy_def IsLocalMode_def Let_def shadow_look_def local_valid_def local_look_def mlook_def
       split: if_splits option.splits)
next
  case False
  then have v: "m_Enabled m" "quiet ops" "rvalid ops (store g)"
    using assms(1) by (auto simp: shadow_valid_def local_valid_def redis_valid_def)
  obtain res r' where l: "luaPreoccupy ops (shadowKey d) (show_int now) (store g) = (res, r')" by fastforce
  show ?thesis
    using False v assms(2) luaPreoccupy_valid [OF v(3) l] l
    by (auto simp: TryPreoccupy_def tryPreoccupy_def IsLocalMode_def shadow_look_def local_valid_def redis_look_def split: if_splits)
qed

lemma TryPreoccupy_look:
  assumes "shadow_valid (ops, m, g)" "TryPreoccupy ops now ms d (m, g) = (r, m', g')"
  shows "shadow_valid (ops, m', g') \<and> (if ret_ok r
    then fst (shadow_look (ops, m, g) d) \<in> {''idle'', ''offline''} \<and>
      shadow_look (ops, m', g') = (shadow_look (ops, m, g))(d := (''preoccupy'', snd (shadow_look (ops, m, g) d) + 1))
    else shadow_look (ops, m', g') = shadow_look (ops, m, g))"
proof (cases "localMode g")
  case True
  then have "m_Enabled m" using assms(1) by (auto simp: shadow_valid_def local_valid_def redis_valid_def)
  then show ?thesis
    using True Pre_local [OF _ True assms(2)] by (auto simp: shadow_valid_def shadow_look_def local_valid_def local_look_def)
next
  case False
  then have v: "m_Enabled m" "quiet ops" "rvalid ops (store g)" "redis_scan_law ops"
    using assms(1) by (auto simp: shadow_valid_def local_valid_def redis_valid_def)
  show ?thesis
    using False v Pre_redis [OF v(1) False v(2,3) assms(2)]
    by (auto simp: shadow_valid_def shadow_look_def local_valid_def redis_valid_def redis_look_def)
qed

text \<open>A charge request after its checks: taking, then queueing.\<close>

lemma charge_command:
  assumes "stores_ok e s" "bm_Type msg = ''charge.start''" "bm_To msg \<noteq> []" "command_params (ce_json e) msg = Some p"
    and "handleDeviceCommand e c h msg s = (r, s')"
  defines "v \<equiv> snd (shadow_look (shadow_of e s) (bm_To msg)) + 1"
  defines "ps \<equiv> p(''user_id'' \<mapsto> JStr (cn_UserID (cs_heap s ! c)), ''shadow_version'' \<mapsto> JInt v)"
  shows "r = Inr () \<and> (\<exists>s2. stores_ok e s2 \<and> cs_heap s2 = cs_heap s \<and> localMode (cs_redis s2) = localMode (cs_redis s) \<and> pending (queue_of e s2) = pending (queue_of e s) \<and> cmd_seen (queue_of e s2) = cmd_seen (queue_of e s) \<and>
    (if takes e s (bm_To msg)
     then fst (shadow_look (shadow_of e s) (bm_To msg)) \<in> {''idle'', ''offline''} \<and> s' = queue_command e c h msg ps s2 \<and>
       shadow_look (shadow_of e s2) = (shadow_look (shadow_of e s))(bm_To msg := (''preoccupy'', v))
     else shadow_look (shadow_of e s2) = shadow_look (shadow_of e s) \<and>
       (\<exists>m. s' = sendMessageAck e c (hd_Seq h) (bm_RequestId msg) 409 m s2)))"
proof -
  let ?d = "bm_To msg"
  define s1 where "s1 = cmetric (\<lambda>m. m\<lparr>ChargeCommands := ChargeCommands m + 1\<rparr>) s"
  obtain sh er m' g' where t: "TryPreoccupy (ce_ops e) (ce_unix e) (ce_millis e) ?d (cs_Shadow s, cs_redis s) = ((sh, er), m', g')"
    by (metis prod.exhaust)
  have ok: "queue_ok (queue_of e s)" "shadow_valid (shadow_of e s)" "redis_cross_laws (ce_ops e)"
    using assms(1) by (simp_all add: stores_ok_def)
  define s2 where "s2 = s1\<lparr>cs_Shadow := m', cs_redis := g'\<rparr>"
  have f: "cs_heap s2 = cs_heap s" "cs_CmdQueue s2 = cs_CmdQueue s" "cs_Shadow s2 = m'" "cs_redis s2 = g'"
    by (simp_all add: s2_def s1_def)
  have on: "on_shadow (TryPreoccupy (ce_ops e) (ce_unix e) (ce_millis e) ?d) s1 = ((sh, er), s2)"
    by (simp add: on_shadow_def s1_def s2_def t)
  note look = TryPreoccupy_look [OF ok(2) t] and ret = TryPreoccupy_returns [OF ok(2) t]
  note q = TryPreoccupy_keeps_queue [OF ok(2,3) t ok(1)]
  have ok2: "stores_ok e s2" using look q ok(3) by (simp add: stores_ok_def f)
  have lm: "localMode (cs_redis s2) = localMode (cs_redis s)" using TryPreoccupy_store [OF ok(2) t] by (simp add: f)
  have tk: "takes e s ?d \<longleftrightarrow> er = None" using ret by (auto simp: takes_def t ret_ok_def)
  note def = assms(5) [unfolded handleDeviceCommand_def Let_def, folded s1_def, simplified assms(2-4) on, simplified]
  show ?thesis
  proof (cases er)
    case None
    then obtain sd where sd: "sh = Some sd" "sh_Version sd = v" using ret by (auto simp: v_def)
    have "r = Inr ()" "s' = queue_command e c h msg ps s2" using def None sd by (simp_all add: ps_def)
    then show ?thesis
      using ok2 lm f q look tk None sd by (intro conjI exI [of _ s2]) (simp_all add: ret_ok_def v_def)
  next
    case (Some failure)
    then obtain m where m: "failure = Error m" using ret by (cases failure) auto
    define s3 where "s3 = cmetric (\<lambda>m. m\<lparr>ChargeRejected := ChargeRejected m + 1\<rparr>) s2"
    have "r = Inr ()" "s' = sendMessageAck e c (hd_Seq h) (bm_RequestId msg) 409 (''device unavailable: '' @ m) s3"
      using def Some m by (simp_all add: s3_def)
    then show ?thesis
      using ok2 lm f q look tk Some by (intro conjI exI [of _ s3]) (auto simp: ret_ok_def s3_def stores_ok_def)
  qed
qed

section \<open>Properties\<close>

definition ack_law :: "('r, 'priv, 'pub) CEnv \<Rightarrow> uint64 \<Rightarrow> bool" where
  "ack_law e seq \<longleftrightarrow> (\<forall>n. header_law (ce_pb e) (sent_header e n MESSAGE_ACK seq)) \<and> (\<forall>a. \<exists>b. mar_body (ce_pb e) (BMessageAck a) = Inr b)"

text \<open>The connection got one more frame, an acknowledgement with this code.\<close>

definition acked :: "proto_lib \<Rightarrow> uint64 \<Rightarrow> int \<Rightarrow> Connection \<Rightarrow> Connection \<Rightarrow> bool" where
  "acked pb seq code cn cn' \<longleftrightarrow> (\<exists>frame a. cn' = cn\<lparr>cn_SendChan := cn_SendChan cn @ [frame]\<rparr> \<and>
     carries pb MESSAGE_ACK seq (BMessageAck a) frame \<and> mak_Code a = code)"

lemma sendMessageAck_acked:
  assumes "ack_law e seq" "open_conn (cs_heap s ! c)" "c < length (cs_heap s)"
  shows "acked (ce_pb e) seq code (cs_heap s ! c) (cs_heap (sendMessageAck e c seq rid code m s) ! c)"
proof -
  let ?a = "\<lparr>mak_RequestId = rid, mak_Code = code, mak_Message = m, mak_Timestamp = of_int (ce_millis e)\<rparr>"
  obtain b where "header_law (ce_pb e) (sent_header e (cs_sends s) MESSAGE_ACK seq)" "mar_body (ce_pb e) (BMessageAck ?a) = Inr b"
    using assms(1) unfolding ack_law_def by blast
  from SendMessage_open [OF this assms(2,3)] obtain frame where
    "SendMessage e c MESSAGE_ACK seq (BMessageAck ?a) s =
      (Inr (), upd_conn c (\<lambda>cn. cn\<lparr>cn_SendChan := cn_SendChan cn @ [frame]\<rparr>) (s\<lparr>cs_sends := cs_sends s + 1\<rparr>))"
    "carries (ce_pb e) MESSAGE_ACK seq (BMessageAck ?a) frame" by blast
  then show ?thesis
    using assms(3) unfolding acked_def by (intro exI [of _ frame] exI [of _ ?a]) (simp add: sendMessageAck_def upd_conn_def)
qed

lemma heap_update [simp]: "cs_heap (snd (on_redis f s)) = cs_heap s"
  by (simp add: on_redis_def split: prod.split)

lemma queue_command_acked:
  assumes "stores_ok e s" "ack_law e (hd_Seq h)" "open_conn (cs_heap s ! c)" "c < length (cs_heap s)"
  shows "acked (ce_pb e) (hd_Seq h) (if fst (enq_op (ce_unix e) (bm_To msg) (ce_cid e) (bm_Type msg) (cj_marshal (ce_json e) ps) (queue_of e s)) then 200 else 500)
    (cs_heap s ! c) (cs_heap (queue_command e c h msg ps s) ! c)"
proof -
  obtain r q1 g1 where enq: "EnqueueWithID (ce_ops e) (ce_cj e) (ce_unix e) (bm_To msg) (ce_cid e) (bm_Type msg) (cj_marshal (ce_json e) ps)
      (cs_CmdQueue s, cs_redis s) = (r, q1, g1)" by (metis prod_cases3)
  have "q_enabled (cs_CmdQueue s)" using assms(1) queue_enabled by (auto simp: stores_ok_def)
  moreover have "acked (ce_pb e) (hd_Seq h) code (cs_heap s ! c) (cs_heap (sendMessageAck e c (hd_Seq h) rid code m s2) ! c)"
    if "cs_heap s2 = cs_heap s" for code rid m s2
    using sendMessageAck_acked [OF assms(2), of s2 c] assms(3,4) that by simp
  ultimately show ?thesis
    using enq by (auto simp: queue_command_def on_queue_def Enqueue_ID enq_op_def Let_def split: sum.split)
qed

text \<open>An accepted command is announced to the IoT gateways.\<close>

lemma queue_command_trigger:
  assumes "stores_ok e s" "\<not> localMode (cs_redis s)"
    and "fst (enq_op (ce_unix e) (bm_To msg) (ce_cid e) (bm_Type msg) (cj_marshal (ce_json e) ps) (queue_of e s))"
  shows "\<not> localMode (cs_redis (queue_command e c h msg ps s)) \<and> (\<exists>xs. published (cs_redis (queue_command e c h msg ps s)) =
    xs @ [(CmdChannel, TriggerMsg \<lparr>trig_DeviceID = bm_To msg, trig_CmdID = ce_cid e, trig_CmdType = bm_Type msg\<rparr>)])"
proof -
  obtain r q1 g1 where enq: "EnqueueWithID (ce_ops e) (ce_cj e) (ce_unix e) (bm_To msg) (ce_cid e) (bm_Type msg) (cj_marshal (ce_json e) ps)
      (cs_CmdQueue s, cs_redis s) = (r, q1, g1)" by (metis prod_cases3)
  have ok: "queue_ok (queue_of e s)" using assms(1) by (simp add: stores_ok_def)
  have "\<not> localMode g1" "quiet (ce_ops e)" "r = Inr ()"
    using enqueue_store [OF ok enq] ok assms(2,3) enq by (auto simp: queue_ok_def local_queue_def redis_queue_def enq_op_def)
  then show ?thesis
    using enq queue_enabled [OF ok]
    by (auto simp: queue_command_def on_queue_def on_redis_def Enqueue_ID redis_PublishMessage_quiet new_cmd_def Let_def)
qed

text \<open>An accepted charge request: what it leaves in the shadow, in the queue and on the channel.\<close>

lemma charge_accepted:
  assumes "stores_ok e s" "bm_Type msg = ''charge.start''" "bm_To msg \<noteq> []" "command_params (ce_json e) msg = Some p"
    and "\<not> cmd_seen (queue_of e s) (ce_cid e)" "takes e s (bm_To msg)" "handleDeviceCommand e c h msg s = (r, s')"
  defines "v \<equiv> snd (shadow_look (shadow_of e s) (bm_To msg)) + 1"
  defines "ps \<equiv> p(''user_id'' \<mapsto> JStr (cn_UserID (cs_heap s ! c)), ''shadow_version'' \<mapsto> JInt v)"
  shows "r = Inr () \<and> stores_ok e s' \<and> shadow_look (shadow_of e s') (bm_To msg) = (''preoccupy'', v) \<and>
    (ack_law e (hd_Seq h) \<longrightarrow> open_conn (cs_heap s ! c) \<longrightarrow> c < length (cs_heap s) \<longrightarrow>
      acked (ce_pb e) (hd_Seq h) 200 (cs_heap s ! c) (cs_heap s' ! c)) \<and>
    (\<not> localMode (cs_redis s) \<longrightarrow> \<not> localMode (cs_redis s') \<and> (\<exists>xs. published (cs_redis s') =
      xs @ [(CmdChannel, TriggerMsg \<lparr>trig_DeviceID = bm_To msg, trig_CmdID = ce_cid e, trig_CmdType = ''charge.start''\<rparr>)])) \<and>
    (\<exists>k. pending (queue_of e s') = (pending (queue_of e s))(bm_To msg := pending (queue_of e s) (bm_To msg) @ [k]) \<and>
       cmd_CmdID k = ce_cid e \<and> cmd_Type k = ''charge.start'' \<and> cmd_Params k = cj_marshal (ce_json e) ps)"
proof -
  let ?d = "bm_To msg"
  obtain s2 where r: "r = Inr ()" and s2: "stores_ok e s2" "cs_heap s2 = cs_heap s" "pending (queue_of e s2) = pending (queue_of e s)"
      "cmd_seen (queue_of e s2) = cmd_seen (queue_of e s)" "localMode (cs_redis s2) = localMode (cs_redis s)"
    and s': "s' = queue_command e c h msg ps s2" and look: "shadow_look (shadow_of e s2) = (shadow_look (shadow_of e s))(?d := (''preoccupy'', v))"
    using charge_command [OF assms(1-4,7)] assms(6) unfolding ps_def v_def by auto
  have enq: "fst (enq_op (ce_unix e) ?d (ce_cid e) (bm_Type msg) (cj_marshal (ce_json e) ps) (queue_of e s2))"
    using s2(1,4) assms(5) by (simp add: stores_ok_def enq_accepts)
  note q = queue_command_stores [OF s2(1) s'] and a = queue_command_acked [OF s2(1), of h c msg ps]
    and t = queue_command_trigger [OF s2(1) _ enq, of c h]
  define k where "k = new_cmd (cs_CmdQueue s2) (ce_unix e) ?d (ce_cid e) (bm_Type msg) (cj_marshal (ce_json e) ps)"
  have k: "cmd_CmdID k = ce_cid e" "cmd_Type k = ''charge.start''" "cmd_Params k = cj_marshal (ce_json e) ps"
    using assms(2) by (simp_all add: k_def new_cmd_def)
  have p: "pending (queue_of e s') = (pending (queue_of e s))(?d := pending (queue_of e s) ?d @ [k])"
    using q enq s2(3) by (simp add: k_def)
  moreover have "acked (ce_pb e) (hd_Seq h) 200 (cs_heap s ! c) (cs_heap s' ! c)"
    if "ack_law e (hd_Seq h)" "open_conn (cs_heap s ! c)" "c < length (cs_heap s)"
    using a that enq s2(2) s' by simp
  moreover have "shadow_look (shadow_of e s') ?d = (''preoccupy'', v)" "stores_ok e s'" using q look by simp_all
  ultimately show ?thesis using r k t s2(5) s' assms(2) by auto
qed

text \<open>
  C3: What a \<^verbatim>\<open>charge.start\<close> does.  If the device can be taken, it is now preoccupied with the next
  version, exactly one command is added, at the end of that device's queue, which carries the
  authenticated user and that version, and the user is told 200.  Otherwise shadow and queue are as
  before and the user is told 409.  Both hold with Redis and in local mode.
\<close>

theorem charge_start_outcome:
  assumes "stores_ok e s" "ack_law e (hd_Seq h)" "open_conn (cs_heap s ! c)" "c < length (cs_heap s)"
    and "bm_Type msg = ''charge.start''" "bm_To msg \<noteq> []" "command_params (ce_json e) msg = Some p"
    and "\<not> cmd_seen (queue_of e s) (ce_cid e)"
    and "handleDeviceCommand e c h msg s = (r, s')"
  shows "r = Inr () \<and> stores_ok e s' \<and>
    (let d = bm_To msg; v = snd (shadow_look (shadow_of e s) d) + 1 in
     if takes e s d
     then shadow_look (shadow_of e s') d = (''preoccupy'', v) \<and> acked (ce_pb e) (hd_Seq h) 200 (cs_heap s ! c) (cs_heap s' ! c) \<and>
       (\<exists>k. pending (queue_of e s') = (pending (queue_of e s))(d := pending (queue_of e s) d @ [k]) \<and>
         cmd_CmdID k = ce_cid e \<and> cmd_Type k = ''charge.start'' \<and>
         cmd_Params k = cj_marshal (ce_json e) (p(''user_id'' \<mapsto> JStr (cn_UserID (cs_heap s ! c)), ''shadow_version'' \<mapsto> JInt v)))
     else shadow_look (shadow_of e s') = shadow_look (shadow_of e s) \<and> pending (queue_of e s') = pending (queue_of e s) \<and>
       acked (ce_pb e) (hd_Seq h) 409 (cs_heap s ! c) (cs_heap s' ! c))"
proof -
  let ?d = "bm_To msg" and ?v = "snd (shadow_look (shadow_of e s) (bm_To msg)) + 1"
  let ?ps = "p(''user_id'' \<mapsto> JStr (cn_UserID (cs_heap s ! c)), ''shadow_version'' \<mapsto> JInt ?v)"
  obtain s2 where r: "r = Inr ()" and s2: "stores_ok e s2" "cs_heap s2 = cs_heap s" "pending (queue_of e s2) = pending (queue_of e s)"
      "cmd_seen (queue_of e s2) = cmd_seen (queue_of e s)"
    and o: "if takes e s ?d
     then fst (shadow_look (shadow_of e s) ?d) \<in> {''idle'', ''offline''} \<and> s' = queue_command e c h msg ?ps s2 \<and>
       shadow_look (shadow_of e s2) = (shadow_look (shadow_of e s))(?d := (''preoccupy'', ?v))
     else shadow_look (shadow_of e s2) = shadow_look (shadow_of e s) \<and>
       (\<exists>m. s' = sendMessageAck e c (hd_Seq h) (bm_RequestId msg) 409 m s2)"
    using charge_command [OF assms(1,5-7,9)] by blast
  show ?thesis
  proof (cases "takes e s ?d")
    case True
    from charge_accepted [OF assms(1,5-8) this assms(9)] show ?thesis unfolding Let_def using True assms(2-4) by auto
  next
    case False
    then show ?thesis
      using r o s2 sendMessageAck_acked [OF assms(2), of s2 c] assms(3,4) by (auto simp: Let_def stores_ok_def)
  qed
qed

text \<open>Any number of charge requests for one device, from any connections, one after the other.\<close>

type_synonym ('r, 'priv, 'pub) attempt = "('r, 'priv, 'pub) CEnv \<times> nat \<times> Header \<times> BizMessage"

definition charge_attempt :: "'r redis_ops \<Rightarrow> cmd_json \<Rightarrow> string \<Rightarrow> ('r, 'priv, 'pub) attempt \<Rightarrow> bool" where
  "charge_attempt ops cj d = (\<lambda>(e, c, h, msg). ce_ops e = ops \<and> ce_cj e = cj \<and> bm_Type msg = ''charge.start'' \<and> bm_To msg = d)"

definition attempt :: "('r, 'priv, 'pub) attempt \<Rightarrow> ('r, 'priv, 'pub) CendServer \<Rightarrow> ('r, 'priv, 'pub) CendServer" where
  "attempt = (\<lambda>(e, c, h, msg) s. snd (handleDeviceCommand e c h msg s))"

lemma attempt_step:
  assumes "stores_ok e s" "charge_attempt (ce_ops e) (ce_cj e) d x" "d \<noteq> []"
  shows "stores_ok e (attempt x s) \<and>
    (shadow_look (shadow_of e (attempt x s)) = shadow_look (shadow_of e s) \<and> pending (queue_of e (attempt x s)) = pending (queue_of e s) \<or>
     fst (shadow_look (shadow_of e s) d) \<in> {''idle'', ''offline''} \<and> fst (shadow_look (shadow_of e (attempt x s)) d) = ''preoccupy'' \<and>
     (\<exists>ks. length ks \<le> 1 \<and> pending (queue_of e (attempt x s)) = (pending (queue_of e s))(d := pending (queue_of e s) d @ ks)))"
proof -
  obtain e' c h msg where x: "x = (e', c, h, msg)" by (metis prod_cases4)
  have e': "ce_ops e' = ce_ops e" "ce_cj e' = ce_cj e" and m: "bm_Type msg = ''charge.start''" "bm_To msg = d"
    using assms(2) by (auto simp: charge_attempt_def x)
  have ok: "stores_ok e' s" using assms(1) by (simp add: stores_ok_def e')
  obtain r s' where h: "handleDeviceCommand e' c h msg s = (r, s')" by fastforce
  show ?thesis
  proof (cases "command_params (ce_json e') msg")
    case None
    then show ?thesis using assms(1) by (simp add: x attempt_def handleDeviceCommand_def m(2) assms(3))
  next
    case (Some p)
    obtain s2 v ps where s2: "stores_ok e' s2" "pending (queue_of e' s2) = pending (queue_of e' s)"
      and o: "if takes e' s (bm_To msg)
       then fst (shadow_look (shadow_of e' s) (bm_To msg)) \<in> {''idle'', ''offline''} \<and> s' = queue_command e' c h msg ps s2 \<and>
         shadow_look (shadow_of e' s2) = (shadow_look (shadow_of e' s))(bm_To msg := (''preoccupy'', v))
       else shadow_look (shadow_of e' s2) = shadow_look (shadow_of e' s) \<and>
         (\<exists>m. s' = sendMessageAck e' c (hd_Seq h) (bm_RequestId msg) 409 m s2)"
      using charge_command [OF ok m(1) _ Some h] assms(3) m(2) by blast
    have a: "attempt x s = s'" by (simp add: x attempt_def h)
    show ?thesis
    proof (cases "takes e' s (bm_To msg)")
      case True
      then have s': "s' = queue_command e' c h msg ps s2" using o by simp
      let ?k = "new_cmd (cs_CmdQueue s2) (ce_unix e') d (ce_cid e') (bm_Type msg) (cj_marshal (ce_json e') ps)"
      note q = queue_command_stores [OF s2(1) s', unfolded e' m(2)]
      define ks where "ks = (if fst (enq_op (ce_unix e') d (ce_cid e') (bm_Type msg) (cj_marshal (ce_json e') ps) (queue_of e s2))
        then [?k] else [])"
      have "length ks \<le> 1" "pending (queue_of e s') = (pending (queue_of e s))(d := pending (queue_of e s) d @ ks)"
        using q s2(2) by (simp_all add: ks_def e')
      moreover have "stores_ok e s'" "fst (shadow_look (shadow_of e s) d) \<in> {''idle'', ''offline''}"
        "fst (shadow_look (shadow_of e s') d) = ''preoccupy''"
        using q o True by (simp_all add: stores_ok_def e' m(2))
      ultimately show ?thesis unfolding a by blast
    next
      case False
      then show ?thesis using o s2 unfolding a by (auto simp: stores_ok_def e')
    qed
  qed
qed

lemma attempts_taken:
  assumes "stores_ok e s" "list_all (charge_attempt (ce_ops e) (ce_cj e) d) xs" "d \<noteq> []"
    and "fst (shadow_look (shadow_of e s) d) \<notin> {''idle'', ''offline''}"
  shows "pending (queue_of e (fold attempt xs s)) = pending (queue_of e s)"
  using assms
proof (induction xs arbitrary: s)
  case (Cons x xs)
  then show ?case using attempt_step [of e s d x] by auto
qed simp

text \<open>
  C1: However many users ask to start charging at a device, over whatever connections and in whatever
  order, at most one of them gets a command queued, and no other device's queue changes.
\<close>

theorem one_charge_per_device:
  assumes "stores_ok e s" "list_all (charge_attempt (ce_ops e) (ce_cj e) d) xs" "d \<noteq> []"
  shows "\<exists>ks. length ks \<le> 1 \<and>
    pending (queue_of e (fold attempt xs s)) = (pending (queue_of e s))(d := pending (queue_of e s) d @ ks)"
  using assms
proof (induction xs arbitrary: s)
  case (Cons x xs)
  let ?s1 = "attempt x s"
  have x: "charge_attempt (ce_ops e) (ce_cj e) d x" and xs: "list_all (charge_attempt (ce_ops e) (ce_cj e) d) xs"
    using Cons.prems(2) by simp_all
  note step = attempt_step [OF Cons.prems(1) x Cons.prems(3)]
  show ?case
  proof (cases "pending (queue_of e ?s1) = pending (queue_of e s)")
    case True
    then show ?thesis using Cons.IH [of ?s1] step xs Cons.prems(3) by simp
  next
    case False
    then obtain ks where ks: "length ks \<le> 1" "pending (queue_of e ?s1) = (pending (queue_of e s))(d := pending (queue_of e s) d @ ks)"
      and taken: "fst (shadow_look (shadow_of e ?s1) d) \<notin> {''idle'', ''offline''}" using step by auto
    then show ?thesis using attempts_taken [OF _ xs Cons.prems(3), of ?s1] step by (intro exI [of _ ks]) simp
  qed
qed (auto intro: exI [of _ "[]"])

text \<open>Taking a device never panics, and returns a shadow unless the shadow is disabled.\<close>

lemma luaPreoccupy_replies:
  "luaPreoccupy ops key now r = (res, r') \<Longrightarrow>
     (\<exists>v. res = Inr [LInt 1, LInt v]) \<or> (\<exists>st. res = Inr [LInt 0, LStr st]) \<or> (\<exists>m. res = Inl (Error m))"
  by (auto simp: luaPreoccupy_def lua_bump_def Let_def split: if_splits option.splits)

lemma store_call_replies:
  assumes "\<And>r res r'. f r = (res, r') \<Longrightarrow> P res" "\<And>m. P (Inl (Error m))" "store_call ops g f = (v, g')"
  shows "P v"
  using assms by (auto simp: store_call_def rt_call_def split: prod.splits option.splits)

lemma TryPreoccupy_never_panics:
  assumes "TryPreoccupy ops now ms d (m, g) = ((sh, er), m', g')"
  shows "(\<forall>p. er \<noteq> Some (Panic p)) \<and> (er = None \<longrightarrow> (sh = None \<longleftrightarrow> \<not> m_Enabled m)) \<and> (er \<noteq> None \<longrightarrow> m_Enabled m)"
proof (cases "m_Enabled m \<and> \<not> localMode g")
  case True
  obtain v g1 where sc: "store_call ops g (luaPreoccupy ops (shadowKey d) (show_int now)) = (v, g1)" by fastforce
  have "(\<exists>n. v = Inr [LInt 1, LInt n]) \<or> (\<exists>st. v = Inr [LInt 0, LStr st]) \<or> (\<exists>m. v = Inl (Error m))"
    by (rule store_call_replies [OF _ _ sc]) (auto dest: luaPreoccupy_replies)
  then show ?thesis
    using True assms sc by (auto simp: TryPreoccupy_def tryPreoccupy_def IsLocalMode_def split: if_splits option.splits)
next
  case False
  then show ?thesis
    using assms by (auto simp: TryPreoccupy_def tryPreoccupy_def IsLocalMode_def Let_def split: if_splits option.splits)
qed

text \<open>
  C37: A device command takes the whole gateway down in exactly two cases: its content is JSON that
  sets the parameter map to nil, or it asks to start charging while the shadow is disabled.  Every
  other command returns.
\<close>

theorem command_panics_exactly:
  "panics (fst (handleDeviceCommand e c h msg s)) \<longleftrightarrow> bm_To msg \<noteq> [] \<and>
    (command_params (ce_json e) msg = None \<or> bm_Type msg = ''charge.start'' \<and> \<not> m_Enabled (cs_Shadow s))"
proof (cases "bm_To msg = [] \<or> command_params (ce_json e) msg = None \<or> bm_Type msg \<noteq> ''charge.start''")
  case False
  then obtain p where p: "bm_To msg \<noteq> []" "command_params (ce_json e) msg = Some p" "bm_Type msg = ''charge.start''" by auto
  let ?s = "cmetric (\<lambda>m. m\<lparr>ChargeCommands := ChargeCommands m + 1\<rparr>) s"
  obtain sh er m g where t: "TryPreoccupy (ce_ops e) (ce_unix e) (ce_millis e) (bm_To msg) (cs_Shadow s, cs_redis s) = ((sh, er), m, g)"
    by (metis prod.exhaust)
  have on: "on_shadow (TryPreoccupy (ce_ops e) (ce_unix e) (ce_millis e) (bm_To msg)) ?s = ((sh, er), ?s\<lparr>cs_Shadow := m, cs_redis := g\<rparr>)"
    by (simp add: on_shadow_def t)
  show ?thesis
    using TryPreoccupy_never_panics [OF t] p on
    by (cases er) (auto simp: handleDeviceCommand_def Let_def split: option.splits failure.splits)
qed (auto simp: handleDeviceCommand_def Let_def split: option.splits)

section \<open>Witnesses\<close>

definition charge_message :: BizMessage where
  "charge_message = zero_message\<lparr>bm_To := ''dev'', bm_Type := ''charge.start''\<rparr>"

lemma charge_message_fields: "bm_Type charge_message = ''charge.start''" "bm_To charge_message = ''dev''"
    "command_params (ce_json e) charge_message = Some Map.empty"
  by (simp_all add: charge_message_def zero_message_def command_params_def)

lemma small_stores_ok: "stores_ok (small_cenv cid t) (small_cend cs (empty_redis False))"
  using small_valid [of False] small_cmds_ok [of False]
  by (simp add: stores_ok_def small_cend_def small_cenv_def small_sys_def small_cmds_def map_redis_cross_laws)

lemma small_takes: "takes (small_cenv cid t) (small_cend cs (empty_redis False)) ''dev''"
proof -
  let ?m = "NewManager (cfg_Shadow DefaultConfig)" and ?g = "empty_redis False"
  obtain r st where t: "TryPreoccupy map_redis (t div second) (t div 1000000) ''dev'' (?m, ?g) = (r, st)" by (metis prod.exhaust)
  have v: "m_Enabled ?m" "\<not> localMode ?g" "rvalid map_redis (store ?g)"
    using small_valid [of False] by (auto simp: shadow_valid_def local_valid_def redis_valid_def small_sys_def empty_redis_def)
  have "fst (rlook map_redis (store ?g) ''dev'') = ''offline''"
    by (simp add: rlook_def hget_or_def map_redis_sel empty_redis_def ms_empty_def)
  then have "ret_ok r" using Pre_redis [OF v(1,2) map_redis_quiet v(3) t] by simp
  then show ?thesis using t by (simp add: takes_def small_cenv_def small_cend_def)
qed

theorem charge_start_outcome_witness:
  "let e = small_cenv ''cmd-1'' 0; s = small_cend [small_conn ''a'' ''u''] (empty_redis False);
       s' = snd (handleDeviceCommand e 0 small_header charge_message s)
   in fst (shadow_look (shadow_of e s') ''dev'') = ''preoccupy'' \<and> acked net_proto 7 200 (cs_heap s ! 0) (cs_heap s' ! 0)"
proof -
  let ?e = "small_cenv ''cmd-1'' 0" and ?s = "small_cend [small_conn ''a'' ''u''] (empty_redis False)"
  have seq: "hd_Seq small_header = 7" by (simp add: small_header_def)
  have a: "ack_law ?e 7" using small_header_law [of MESSAGE_ACK 7] by (simp add: ack_law_def small_cenv_def net_proto_def)
  have c: "open_conn (cs_heap ?s ! 0)" "0 < length (cs_heap ?s)" by (simp_all add: open_conn_def small_cend_defs)
  have n: "\<not> cmd_seen (queue_of ?e ?s) (ce_cid ?e)"
    by (simp add: cmd_seen_def local_queue_def redis_seen_def small_cend_def small_cenv_def empty_redis_def map_redis_sel ms_empty_def)
  obtain r s' where h: "handleDeviceCommand ?e 0 small_header charge_message ?s = (r, s')" by fastforce
  show ?thesis
    using charge_start_outcome [OF small_stores_ok _ c charge_message_fields(1) _ charge_message_fields(3) n h] a seq
      small_takes [of "''cmd-1''" 0] h
    by (simp add: charge_message_fields(2) Let_def) (simp add: small_cenv_def)
qed

theorem one_charge_per_device_witness:
  "let e = small_cenv ''cmd-1'' 0; s = small_cend [small_conn ''a'' ''u'', small_conn ''b'' ''v''] (empty_redis False)
   in \<exists>ks. length ks \<le> 1 \<and> pending (queue_of e (fold attempt
        [(e, 0, small_header, charge_message), (small_cenv ''cmd-2'' 5, 1, small_header, charge_message)] s)) =
      (pending (queue_of e s))(''dev'' := pending (queue_of e s) ''dev'' @ ks)"
  using one_charge_per_device [OF small_stores_ok [of "''cmd-1''" 0 "[small_conn ''a'' ''u'', small_conn ''b'' ''v'']"], of "''dev''"
      "[(small_cenv ''cmd-1'' 0, 0, small_header, charge_message), (small_cenv ''cmd-2'' 5, 1, small_header, charge_message)]"]
  by (simp add: charge_attempt_def charge_message_fields small_cenv_def)

end
