(* ===== verification/IotAck.thy ===== *)
theory IotAck
  imports IotIO CendCommands
begin

text \<open>
  A device's answer to a command: what \<^verbatim>\<open>handleCmdAck\<close> does to the command queue, the shadow and the
  result channel, over the contracts of \<open>CommandSpec\<close> and \<open>ShadowSpec\<close>, with Redis and in local mode.
\<close>

section \<open>A report and a confirmation in one store\<close>

abbreviation shadow_state :: "'r Env \<Rightarrow> 'r Server \<Rightarrow> 'r shadow_sys" where
  "shadow_state e s \<equiv> (e_ops e, s_Shadow s, s_redis s)"

definition iot_stores_ok :: "'r Env \<Rightarrow> 'r Server \<Rightarrow> bool" where
  "iot_stores_ok e s \<longleftrightarrow> shadow_valid (shadow_state e s) \<and> queue_ok (cmd_state e s) \<and> redis_cross_laws (e_ops e)"

text \<open>A reported state is taken over when the report is legal, and nothing else changes.\<close>

lemma Report_look:
  assumes "shadow_valid (ops, m, g)" "ReportHeartbeatWithGateway ops now ms d st gw (m, g) = (r, m', g')" "st \<noteq> []"
  shows "shadow_valid (ops, m', g') \<and> localMode g' = localMode g \<and>
    (\<forall>x. fst (shadow_look (ops, m', g') x) = (if x = d \<and> legalReport (fst (shadow_look (ops, m, g) d)) st then st else fst (shadow_look (ops, m, g) x)))"
proof (cases "localMode g")
  case True
  then have "m_Enabled m" using assms(1) by (auto simp: shadow_valid_def local_valid_def redis_valid_def)
  then show ?thesis
    using True assms(3) Report_local [OF _ True assms(2)] by (auto simp: shadow_valid_def shadow_look_def local_valid_def local_look_def)
next
  case False
  then have v: "m_Enabled m" "quiet ops" "rvalid ops (store g)" "redis_scan_law ops"
    using assms(1) by (auto simp: shadow_valid_def local_valid_def redis_valid_def)
  show ?thesis
    using False v assms(3) Report_redis [OF v(1) False v(2,3) assms(2)]
    by (auto simp: shadow_valid_def shadow_look_def local_valid_def redis_valid_def redis_look_def)
qed

lemma online_keys_apart [simp]: "onlineKey d \<noteq> cmdKey x" "onlineKey d \<noteq> dedupKey i" "cmdKey x \<noteq> onlineKey d" "dedupKey i \<noteq> onlineKey d"
  by (simp_all add: onlineKey_def cmdKey_def dedupKey_def)

lemma luaHeartbeat_lists:
  assumes "redis_list_laws ops" "redis_cross_laws ops" "luaHeartbeat ops (shadowKey d) (onlineKey d) now ttl st gw r = (res, r')"
  shows "LRANGE ops r' (cmdKey x) = LRANGE ops r (cmdKey x)" "EXISTS ops r' (dedupKey i) = EXISTS ops r (dedupKey i)"
  using assms by (auto simp: luaHeartbeat_def lua_bump_def Let_def redis_list_laws_def redis_cross_laws_def split: if_splits option.splits)

lemma Report_keeps_queue:
  assumes "shadow_valid (ops, m, g)" "redis_cross_laws ops" "queue_ok (ops, js, q, g)"
    and "ReportHeartbeatWithGateway ops now ms d st gw (m, g) = (r, m', g')" "st \<noteq> []"
  shows "queue_ok (ops, js, q, g') \<and> pending (ops, js, q, g') = pending (ops, js, q, g)"
proof (cases "localMode g")
  case True
  then have "m_Enabled m" using assms(1) by (auto simp: shadow_valid_def local_valid_def redis_valid_def)
  then have "g' = g" using True Report_local [OF _ True assms(4)] by simp
  then show ?thesis using assms(3) by simp
next
  case False
  then have v: "m_Enabled m" "quiet ops" "redis_list_laws ops" "rvalid ops (store g)"
    using assms(1,3) by (auto simp: shadow_valid_def local_valid_def redis_valid_def queue_ok_def local_queue_def redis_queue_def)
  obtain res r' where l: "luaHeartbeat ops (shadowKey d) (onlineKey d) (show_int now) (show_int (m_offlineTTL m div second)) st gw (store g) = (res, r')"
    by fastforce
  have st: "store g' = r'"
    using assms(4) False v l luaHeartbeat_valid [OF v(4) l] by (auto simp: ReportHeartbeatWithGateway_def IsLocalMode_def publishEvent_def split: if_splits)
  have "localMode g' = localMode g" using Report_look [OF assms(1,4,5)] by simp
  then show ?thesis
    using assms(3) False luaHeartbeat_lists [OF v(3) assms(2) l] st
    by (auto simp: queue_ok_def pending_def local_queue_def redis_queue_def redis_cmds_def entries_ok_def)
qed

lemma MarkDone_keeps_shadow:
  assumes "queue_ok (ops, js, q, g)" "redis_cross_laws ops" "MarkDone ops js d i (q, g) = (r, q', g')" "shadow_valid (ops, m, g)"
  shows "localMode g' = localMode g \<and> shadow_valid (ops, m, g') \<and> shadow_look (ops, m, g') = shadow_look (ops, m, g)"
proof -
  have s: "localMode g' = localMode g" "localMode g \<Longrightarrow> g' = g" "store g' = store g \<or> (\<exists>x. store g' = LREM1 ops (store g) (cmdKey d) x)"
    using assms(1,3) by (auto simp: MarkDone_def queue_ok_def local_queue_def redis_queue_def IsLocalMode_def split: if_splits option.splits)
  show ?thesis
  proof (cases "localMode g")
    case False
    have "HGET ops (store g') (shadowKey x) f = HGET ops (store g) (shadowKey x) f" for x f
      using s(3) assms(2) by (auto simp: redis_cross_laws_def)
    then have "rnum ops (store g') = rnum ops (store g)" "rlook ops (store g') = rlook ops (store g)"
      by (simp_all add: rnum_def rlook_def hget_or_def fun_eq_iff)
    then show ?thesis
      using False assms(4) s(1) by (simp add: shadow_valid_def shadow_look_def local_valid_def redis_valid_def redis_look_def rvalid_def)
  qed (use s(2) assms(4) in simp)
qed

lemma done_pending: "queue_ok s \<Longrightarrow> queue_ok (done_op d i s) \<and> pending (done_op d i s) = (pending s)(d := without i (pending s d))"
  using lq.finish_law [of s d i] rq.finish_law [of s d i] queue_modes [of s] queue_modes [of "done_op d i s"]
  by (auto simp: queue_ok_def pending_def)

section \<open>Property\<close>

text \<open>The state an acknowledgement reports: none for an unknown byte and for offline.\<close>

definition acked_state :: "byte \<Rightarrow> string" where
  "acked_state b = (case ByteToStateStr b of Some t \<Rightarrow> if t = ''offline'' then [] else t | None \<Rightarrow> [])"

lemma mark_done_step:
  assumes "iot_stores_ok e s" "s1 = snd (with_queue (MarkDone (e_ops e) (e_cj e) d i) s)"
  shows "iot_stores_ok e s1 \<and> localMode (s_redis s1) = localMode (s_redis s) \<and>
    pending (cmd_state e s1) = (pending (cmd_state e s))(d := without i (pending (cmd_state e s) d)) \<and>
    shadow_look (shadow_state e s1) = shadow_look (shadow_state e s)"
proof -
  obtain r q g where m: "MarkDone (e_ops e) (e_cj e) d i (s_CmdQueue s, s_redis s) = (r, q, g)" by (metis prod_cases3)
  have ok: "shadow_valid (shadow_state e s)" "queue_ok (e_ops e, e_cj e, s_CmdQueue s, s_redis s)" "redis_cross_laws (e_ops e)"
    using assms(1) by (simp_all add: iot_stores_ok_def cmd_state_def)
  have s1: "cmd_state e s1 = done_op d i (cmd_state e s)" "s_redis s1 = g" "s_Shadow s1 = s_Shadow s"
    using m assms(2) by (simp_all add: with_queue_def cmd_state_def done_op_def)
  show ?thesis
    using done_pending [of "cmd_state e s" d i] MarkDone_keeps_shadow [OF ok(2,3) m ok(1)] ok s1
    by (simp add: iot_stores_ok_def cmd_state_def)
qed

lemma report_step:
  assumes "iot_stores_ok e s" "st \<noteq> []" "s1 = report e d st s"
  shows "iot_stores_ok e s1 \<and> localMode (s_redis s1) = localMode (s_redis s) \<and> pending (cmd_state e s1) = pending (cmd_state e s) \<and>
    (\<forall>x. fst (shadow_look (shadow_state e s1) x) =
      (if x = d \<and> legalReport (fst (shadow_look (shadow_state e s) d)) st then st else fst (shadow_look (shadow_state e s) x)))"
proof -
  obtain r m g where m: "ReportHeartbeatWithGateway (e_ops e) (unix e) (millis e) d st (s_ID s) (s_Shadow s, s_redis s) = (r, m, g)"
    by (metis prod_cases3)
  have ok: "shadow_valid (shadow_state e s)" "queue_ok (e_ops e, e_cj e, s_CmdQueue s, s_redis s)" "redis_cross_laws (e_ops e)"
    using assms(1) by (simp_all add: iot_stores_ok_def cmd_state_def)
  have s1: "s_redis s1 = g" "s_Shadow s1 = m" "s_CmdQueue s1 = s_CmdQueue s"
    using m assms(3) by (simp_all add: report_def with_shadow_def)
  show ?thesis
    using Report_look [OF ok(1) m assms(2)] Report_keeps_queue [OF ok(1,3,2) m assms(2)] ok(3) s1
    by (simp add: iot_stores_ok_def cmd_state_def)
qed

lemma publish_step:
  assumes "iot_stores_ok e s" "s1 = with_redis (redis_PublishMessage (e_ops e) ch msg) s"
  shows "iot_stores_ok e s1 \<and> pending (cmd_state e s1) = pending (cmd_state e s) \<and>
    shadow_look (shadow_state e s1) = shadow_look (shadow_state e s) \<and>
    (\<not> localMode (s_redis s) \<longrightarrow> (\<exists>xs. published (s_redis s1) = xs @ [(ch, msg)]))"
proof -
  have q: "quiet (e_ops e) \<or> localMode (s_redis s)"
    using assms(1) by (auto simp: iot_stores_ok_def cmd_state_def queue_ok_def local_queue_def redis_queue_def)
  then have g: "localMode (s_redis s1) = localMode (s_redis s)" "store (s_redis s1) = store (s_redis s)"
    using assms(2) by (auto simp: with_redis_def)
  have f: "s_Shadow s1 = s_Shadow s" "s_CmdQueue s1 = s_CmdQueue s" using assms(2) by (simp_all add: with_redis_def)
  show ?thesis
    using assms q f shadow_sys_store [OF g, of "e_ops e" "s_Shadow s"] cmd_sys_store [OF g, of "e_ops e" "e_cj e" "s_CmdQueue s"]
    by (auto simp: iot_stores_ok_def cmd_state_def with_redis_def redis_PublishMessage_quiet)
qed

text \<open>
  C4: What a device's answer to a command does, with Redis and in local mode.  The command leaves the
  queue of the device named in the answer and no other command does; the shadow of that device takes the
  reported state exactly when the report is legal; and with Redis the result is the last thing published.
  None of this depends on the result code, so a command that failed is gone too, nor on the peer that
  sent the answer: the handler never checks that it is the device's own.
\<close>

theorem ack_settles_command:
  assumes "iot_stores_ok e s" "DecodeCmdAck data = Inr (d, i, code, b)" "s' = handleCmdAck e data peer s"
  shows "iot_stores_ok e s' \<and>
    pending (cmd_state e s') = (pending (cmd_state e s))(d := without i (pending (cmd_state e s) d)) \<and>
    (\<forall>x. fst (shadow_look (shadow_state e s') x) =
      (if x = d \<and> acked_state b \<noteq> [] \<and> legalReport (fst (shadow_look (shadow_state e s) d)) (acked_state b)
       then acked_state b else fst (shadow_look (shadow_state e s) x))) \<and>
    (\<not> localMode (s_redis s) \<longrightarrow> (\<exists>xs r. published (s_redis s') = xs @ [(CmdResultChan, ResultMsg r)] \<and>
      cr_cmd_id r = i \<and> cr_device_id r = d \<and> cr_code r = code))"
proof -
  let ?t = "case ByteToStateStr b of Some st \<Rightarrow> st | None \<Rightarrow> []"
  define s1 where "s1 = snd (with_queue (MarkDone (e_ops e) (e_cj e) d i) s)"
  define s2 where "s2 = (if ?t \<noteq> [] \<and> ?t \<noteq> ''offline'' then report e d ?t s1 else s1)"
  let ?r = "\<lparr>cr_cmd_id = i, cr_device_id = d, cr_code = code, cr_result_state = ?t, cr_timestamp = millis e\<rparr>"
  have s': "s' = with_redis (redis_PublishMessage (e_ops e) CmdResultChan (ResultMsg ?r)) s2"
    using assms(2,3) by (simp add: handleCmdAck_def Let_def s1_def s2_def)
  have t: "acked_state b = (if ?t \<noteq> [] \<and> ?t \<noteq> ''offline'' then ?t else [])" by (simp add: acked_state_def split: option.split)
  note m = mark_done_step [OF assms(1) s1_def]
  have s2: "iot_stores_ok e s2 \<and> localMode (s_redis s2) = localMode (s_redis s1) \<and> pending (cmd_state e s2) = pending (cmd_state e s1) \<and>
      (\<forall>x. fst (shadow_look (shadow_state e s2) x) = (if x = d \<and> acked_state b \<noteq> [] \<and> legalReport (fst (shadow_look (shadow_state e s1) d)) (acked_state b)
       then acked_state b else fst (shadow_look (shadow_state e s1) x)))"
    unfolding t using m report_step [of e s1 ?t s2 d] by (simp add: s2_def)
  then have "iot_stores_ok e s2" by blast
  note p = publish_step [OF this s']
  have "\<exists>xs r. published (s_redis s') = xs @ [(CmdResultChan, ResultMsg r)] \<and> cr_cmd_id r = i \<and> cr_device_id r = d \<and> cr_code r = code"
    if l: "\<not> localMode (s_redis s)"
  proof -
    obtain xs where "published (s_redis s') = xs @ [(CmdResultChan, ResultMsg ?r)]" using p s2 m l by auto
    then show ?thesis by (intro exI [of _ xs] exI [of _ ?r]) simp
  qed
  then show ?thesis using p m s2 by simp
qed

text \<open>A gateway in local mode with one command queued, and a failing answer to it.\<close>

definition ack_server :: "map_store cmd_sys \<Rightarrow> map_store Server" where
  "ack_server = (\<lambda>(ops, js, q, g). small_server\<lparr>s_Shadow := NewManager (cfg_Shadow DefaultConfig), s_CmdQueue := q, s_redis := empty_redis True\<rparr>)"

theorem ack_settles_command_witness:
  "\<exists>s. map cmd_CmdID (pending (cmd_state (small_env ''S1'' 7) s) ''dev'') = [''c1''] \<and>
     pending (cmd_state (small_env ''S1'' 7) (handleCmdAck (small_env ''S1'' 7) [3, 100, 101, 118, 2, 99, 49, 1, 1] small_peer s)) ''dev'' = []"
proof -
  let ?e = "small_env ''S1'' 7"
  obtain q g where x: "enq_op 5 ''dev'' ''c1'' ''charge.start'' ''{}'' (small_cmds True) = (True, map_redis, net_json, q, g)"
    using small_enq [of 5 "''dev''" "''c1''" "''charge.start''" "''{}''" True]
    by (cases "enq_op 5 ''dev'' ''c1'' ''charge.start'' ''{}'' (small_cmds True)") (auto simp: enq_op_def small_cmds_def split: prod.splits)
  then obtain r where "EnqueueWithID map_redis net_json 5 ''dev'' ''c1'' ''charge.start'' ''{}'' (NewQueue (cfg_Shadow DefaultConfig), empty_redis True) = (r, q, g)"
    by (auto simp: enq_op_def small_cmds_def split: prod.splits)
  then have g: "g = empty_redis True"
    using enqueue_store [OF small_cmds_ok [of True, unfolded small_cmds_def]] by (auto simp: empty_redis_def)
  define s where "s = ack_server (map_redis, net_json, q, g)"
  have st: "cmd_state ?e s = (map_redis, net_json, q, g)" "shadow_state ?e s = small_sys True"
    by (simp_all add: s_def ack_server_def cmd_state_def small_env_def small_sys_def g)
  note ok = enq_ok [OF small_cmds_ok x]
  have "local_list (NewQueue (cfg_Shadow DefaultConfig)) ''dev'' = []" by (simp add: local_list_def NewQueue_def Let_def)
  then have "pending (small_cmds True) ''dev'' = []"
    by (simp add: pending_def local_cmds_def redis_cmds_def small_cmds_def empty_redis_def map_redis_sel ms_empty_def)
  then obtain c where c: "pending (cmd_state ?e s) ''dev'' = [c]" "cmd_CmdID c = ''c1''"
    using ok unfolding st by (simp add: cmd_for_def small_cmds_def new_cmd_def)
  have "iot_stores_ok ?e s" using ok small_valid [of True] map_redis_cross_laws by (simp add: iot_stores_ok_def st) (simp add: small_env_def)
  moreover have "DecodeCmdAck [3, 100, 101, 118, 2, 99, 49, 1, 1] = Inr (''dev'', ''c1'', 1, 1)"
    by (simp add: DecodeCmdAck_def go_simps to_string_def char_of_byte_def char_of_def bit_0)
  ultimately show ?thesis
    using ack_settles_command [of ?e s _ "''dev''" "''c1''" 1 1 _ small_peer] c by (intro exI [of _ s]) (simp add: without_def)
qed

end
