(* ===== verification/Pools.thy ===== *)
theory Pools
  imports Prelude "HOL-Library.AList"
begin

text \<open>
  The object pools of \<^verbatim>\<open>pkg/utils/pool.go\<close>.  A \<^verbatim>\<open>sync.Pool\<close> is the list of objects put into it; which of
  them a \<^verbatim>\<open>Get\<close> returns, or whether it makes a new one, is up to the runtime and is an argument.  The
  contract the users of a pool rely on, that an object comes back as new, is the locale
  \<open>reset_pool\<close>, interpreted on every pool with a reset; \<open>Datagrams\<close> interprets it once more.
\<close>

section \<open>Pools\<close>

text \<open>\<open>pick\<close> is the position of the object returned; past the end the pool makes a new one.\<close>

definition pool_Get :: "'a \<Rightarrow> nat \<Rightarrow> 'a list \<Rightarrow> 'a \<times> 'a list" where
  "pool_Get new pick pool =
     (if pick < length pool then (pool ! pick, take pick pool @ drop (Suc pick) pool) else (new, pool))"

text \<open>A \<^verbatim>\<open>bytes.Buffer\<close> is its unread content.\<close>

definition GetBuffer :: "nat \<Rightarrow> bytes list \<Rightarrow> bytes \<times> bytes list" where
  "GetBuffer = pool_Get []"

definition PutBuffer :: "bytes \<Rightarrow> bytes list \<Rightarrow> bytes list" where
  "PutBuffer buf pool = [] # pool"

text \<open>A byte slice is the array from its start to its capacity, with its length.\<close>

record slice =
  sl_array :: bytes
  sl_len :: int

record ByteSlicePool =
  bp_pool :: "slice list"
  bp_size :: int

definition NewByteSlicePool :: "int \<Rightarrow> ByteSlicePool" where
  "NewByteSlicePool sz = \<lparr>bp_pool = [], bp_size = sz\<rparr>"

definition ByteSlicePool_Get :: "nat \<Rightarrow> ByteSlicePool \<Rightarrow> slice result \<times> ByteSlicePool" where
  "ByteSlicePool_Get pick p =
     (if pick < length (bp_pool p)
      then (Inr (bp_pool p ! pick), p\<lparr>bp_pool := take pick (bp_pool p) @ drop (Suc pick) (bp_pool p)\<rparr>)
      else if bp_size p < 0 then (Inl (Panic ''makeslice: len out of range''), p)
      else (Inr \<lparr>sl_array = replicate (nat (bp_size p)) 0, sl_len = bp_size p\<rparr>, p))"

definition ByteSlicePool_Put :: "slice \<Rightarrow> ByteSlicePool \<Rightarrow> unit result \<times> ByteSlicePool" where
  "ByteSlicePool_Put b p =
     (if int (length (sl_array b)) \<ge> bp_size p
      then if bp_size p < 0 then (Inl (Panic ''slice bounds out of range''), p)
           else (Inr (), p\<lparr>bp_pool := b\<lparr>sl_len := bp_size p\<rparr> # bp_pool p\<rparr>)
      else (Inr (), p))"

record 'a ObjectPool =
  op_pool :: "'a list"
  op_factory :: 'a
  op_reset :: "('a \<Rightarrow> 'a) option"

definition NewObjectPool :: "'a \<Rightarrow> ('a \<Rightarrow> 'a) option \<Rightarrow> 'a ObjectPool" where
  "NewObjectPool factory reset = \<lparr>op_pool = [], op_factory = factory, op_reset = reset\<rparr>"

definition ObjectPool_Get :: "nat \<Rightarrow> 'a ObjectPool \<Rightarrow> 'a \<times> 'a ObjectPool" where
  "ObjectPool_Get pick p = (case pool_Get (op_factory p) pick (op_pool p) of (x, xs) \<Rightarrow> (x, p\<lparr>op_pool := xs\<rparr>))"

definition ObjectPool_Put :: "'a \<Rightarrow> 'a ObjectPool \<Rightarrow> 'a ObjectPool" where
  "ObjectPool_Put obj p =
     p\<lparr>op_pool := (case op_reset p of None \<Rightarrow> obj | Some f \<Rightarrow> f obj) # op_pool p\<rparr>"

text \<open>The message and connection objects; a nil slice or map is the empty one.\<close>

record PoolMessage =
  pm_ID :: string
  pm_Type :: string
  pm_From :: string
  pm_To :: string
  pm_Content :: bytes
  pm_Timestamp :: int
  pm_Metadata :: "string \<rightharpoonup> string"

definition new_message :: PoolMessage where
  "new_message = \<lparr>pm_ID = [], pm_Type = [], pm_From = [], pm_To = [], pm_Content = [], pm_Timestamp = 0,
     pm_Metadata = Map.empty\<rparr>"

definition MessagePool_Get :: "nat \<Rightarrow> PoolMessage list \<Rightarrow> PoolMessage \<times> PoolMessage list" where
  "MessagePool_Get = pool_Get new_message"

definition MessagePool_Put :: "PoolMessage \<Rightarrow> PoolMessage list \<Rightarrow> PoolMessage list" where
  "MessagePool_Put msg pool =
     msg\<lparr>pm_ID := [], pm_Type := [], pm_From := [], pm_To := [], pm_Content := [], pm_Timestamp := 0,
         pm_Metadata := Map.empty\<rparr> # pool"

record PoolConnection =
  pc_ID :: string
  pc_UserID :: string
  pc_DeviceID :: string
  pc_RemoteAddr :: string
  pc_CreatedAt :: int
  pc_LastActive :: int

definition new_connection :: PoolConnection where
  "new_connection = \<lparr>pc_ID = [], pc_UserID = [], pc_DeviceID = [], pc_RemoteAddr = [], pc_CreatedAt = 0, pc_LastActive = 0\<rparr>"

definition ConnectionPool_Get :: "nat \<Rightarrow> PoolConnection list \<Rightarrow> PoolConnection \<times> PoolConnection list" where
  "ConnectionPool_Get = pool_Get new_connection"

definition ConnectionPool_Put :: "PoolConnection \<Rightarrow> PoolConnection list \<Rightarrow> PoolConnection list" where
  "ConnectionPool_Put conn pool =
     conn\<lparr>pc_ID := [], pc_UserID := [], pc_DeviceID := [], pc_RemoteAddr := [], pc_CreatedAt := 0, pc_LastActive := 0\<rparr> # pool"

section \<open>The bounded pool\<close>

text \<open>
  \<open>stamp\<close> is the type assertion to \<^verbatim>\<open>GetTimestamp\<close>: None for a value without it.  The items are an
  association list with one entry for each key.
\<close>

record 'v TickerPool =
  tp_items :: "(string \<times> 'v) list"
  tp_maxSize :: int
  tp_ttl :: int

definition NewTickerPool :: "int \<Rightarrow> int \<Rightarrow> 'v TickerPool" where
  "NewTickerPool maxSize ttl = \<lparr>tp_items = [], tp_maxSize = maxSize, tp_ttl = ttl\<rparr>"

definition TickerPool_Add :: "string \<Rightarrow> 'v \<Rightarrow> 'v TickerPool \<Rightarrow> bool \<times> 'v TickerPool" where
  "TickerPool_Add key val p =
     (if int (length (tp_items p)) \<ge> tp_maxSize p then (False, p)
      else (True, p\<lparr>tp_items := AList.update key val (tp_items p)\<rparr>))"

definition TickerPool_Get :: "string \<Rightarrow> 'v TickerPool \<Rightarrow> 'v option" where
  "TickerPool_Get key p = map_of (tp_items p) key"

definition TickerPool_Remove :: "string \<Rightarrow> 'v TickerPool \<Rightarrow> 'v TickerPool" where
  "TickerPool_Remove key p = p\<lparr>tp_items := filter (\<lambda>(k, _). k \<noteq> key) (tp_items p)\<rparr>"

definition TickerPool_Cleanup :: "('v \<Rightarrow> int option) \<Rightarrow> int \<Rightarrow> 'v TickerPool \<Rightarrow> 'v TickerPool" where
  "TickerPool_Cleanup stamp now p =
     p\<lparr>tp_items := filter (\<lambda>(_, v). case stamp v of None \<Rightarrow> True | Some t \<Rightarrow> \<not> wrap64 (now - t) > tp_ttl p) (tp_items p)\<rparr>"

definition TickerPool_Size :: "'v TickerPool \<Rightarrow> int" where
  "TickerPool_Size p = int (length (tp_items p))"

section \<open>Objects come back as new\<close>

text \<open>Uses of a pool, and the objects they got.\<close>

datatype 'a pool_use = UGet nat | UPut 'a

primrec pool_run :: "(nat \<Rightarrow> 'p \<Rightarrow> 'a \<times> 'p) \<Rightarrow> ('a \<Rightarrow> 'p \<Rightarrow> 'p) \<Rightarrow> 'a pool_use list \<Rightarrow> 'p \<Rightarrow> 'a list \<times> 'p" where
  "pool_run get put [] p = ([], p)"
| "pool_run get put (u # us) p = (case u of
      UGet n \<Rightarrow> (case get n p of (x, p1) \<Rightarrow> (case pool_run get put us p1 of (xs, p2) \<Rightarrow> (x # xs, p2)))
    | UPut x \<Rightarrow> pool_run get put us (put x p))"

locale reset_pool =
  fixes get :: "nat \<Rightarrow> 'p \<Rightarrow> 'a \<times> 'p" and put :: "'a \<Rightarrow> 'p \<Rightarrow> 'p" and fresh :: 'a and clean :: "'p \<Rightarrow> bool"
  assumes get_law: "clean p \<Longrightarrow> get n p = (x, p') \<Longrightarrow> x = fresh \<and> clean p'"
    and put_law: "clean p \<Longrightarrow> clean (put x p)"
begin

lemma run_fresh: "clean p \<Longrightarrow> pool_run get put us p = (xs, p') \<Longrightarrow> list_all ((=) fresh) xs \<and> clean p'"
proof (induction us arbitrary: p xs)
  case (Cons u us)
  then show ?case
    using get_law [OF Cons.prems(1)] put_law [OF Cons.prems(1)]
    by (cases u) (auto split: prod.splits, (metis (no_types, lifting))+)
qed simp

lemma all_fresh: "clean p \<Longrightarrow> list_all ((=) fresh) (fst (pool_run get put us p))"
  using run_fresh [of p us] by (metis prod.collapse)

end

text \<open>A pool that holds only what \<open>Put\<close> has reset.\<close>

lemma pool_Get_clean:
  "list_all ((=) x0) pool \<Longrightarrow> pool_Get x0 n pool = (x, pool') \<Longrightarrow> x = x0 \<and> list_all ((=) x0) pool'"
proof (cases "n < length pool")
  case True
  assume "list_all ((=) x0) pool" "pool_Get x0 n pool = (x, pool')"
  moreover from this(1) have "list_all ((=) x0) (take n pool @ pool ! n # drop (Suc n) pool)"
    by (simp only: id_take_nth_drop [OF True, symmetric])
  ultimately show ?thesis using True by (auto simp: pool_Get_def)
qed (simp add: pool_Get_def)

lemma resetting_pool:
  assumes "\<And>x p. put x p = x0 # p"
  shows "reset_pool (pool_Get x0) put x0 (list_all ((=) x0))"
  by unfold_locales (metis pool_Get_clean, simp add: assms)

interpretation bufs: reset_pool GetBuffer PutBuffer "[]" "list_all ((=) [])"
  unfolding GetBuffer_def by (rule resetting_pool) (simp add: PutBuffer_def)

interpretation msgs: reset_pool MessagePool_Get MessagePool_Put new_message "list_all ((=) new_message)"
  unfolding MessagePool_Get_def by (rule resetting_pool) (simp add: MessagePool_Put_def new_message_def)

interpretation conns: reset_pool ConnectionPool_Get ConnectionPool_Put new_connection "list_all ((=) new_connection)"
  unfolding ConnectionPool_Get_def by (rule resetting_pool) (simp add: ConnectionPool_Put_def new_connection_def)

text \<open>An object pool is one when its reset function restores what its factory makes.\<close>

definition objects_clean :: "'a \<Rightarrow> 'a ObjectPool \<Rightarrow> bool" where
  "objects_clean x0 p \<longleftrightarrow> op_factory p = x0 \<and> (\<exists>f. op_reset p = Some f \<and> (\<forall>x. f x = x0)) \<and> list_all ((=) x0) (op_pool p)"

interpretation objs: reset_pool ObjectPool_Get ObjectPool_Put x0 "objects_clean x0" for x0
proof unfold_locales
  fix p n x p'
  assume "objects_clean x0 p" "ObjectPool_Get n p = (x, p')"
  then show "x = x0 \<and> objects_clean x0 p'"
    using pool_Get_clean [of x0 "op_pool p" n] by (auto simp: objects_clean_def ObjectPool_Get_def split: prod.splits)
qed (auto simp: objects_clean_def ObjectPool_Put_def)

text \<open>
  However a buffer, message or connection pool is used, and whatever the objects hold when they
  are put back, every object it gives out is as new: no content of one use reaches the next.
\<close>

theorem pools_give_new_objects:
  "list_all ((=) []) (fst (pool_run GetBuffer PutBuffer us [])) \<and>
   list_all ((=) new_message) (fst (pool_run MessagePool_Get MessagePool_Put vs [])) \<and>
   list_all ((=) new_connection) (fst (pool_run ConnectionPool_Get ConnectionPool_Put ws []))"
  by (simp add: bufs.all_fresh msgs.all_fresh conns.all_fresh)

section \<open>The bounded pool stays bounded\<close>

datatype 'v ticker_use = TAdd string 'v | TRemove string | TCleanup int

fun ticker_step :: "('v \<Rightarrow> int option) \<Rightarrow> 'v ticker_use \<Rightarrow> 'v TickerPool \<Rightarrow> 'v TickerPool" where
  "ticker_step stamp (TAdd k v) p = snd (TickerPool_Add k v p)"
| "ticker_step stamp (TRemove k) p = TickerPool_Remove k p"
| "ticker_step stamp (TCleanup now) p = TickerPool_Cleanup stamp now p"

definition ticker_ok :: "'v TickerPool \<Rightarrow> bool" where
  "ticker_ok p \<longleftrightarrow> distinct (map fst (tp_items p)) \<and> TickerPool_Size p \<le> max 0 (tp_maxSize p)"

lemma length_update: "length (AList.update k v xs) \<le> Suc (length xs)"
  by (induction xs) auto

lemma distinct_map_filter: "distinct (map f xs) \<Longrightarrow> distinct (map f (filter P xs))"
  by (induction xs) auto

lemma length_filter_int: "int (length xs) \<le> b \<Longrightarrow> int (length (filter P xs)) \<le> b"
  using length_filter_le [of P xs] by linarith

lemma ticker_step_ok:
  assumes "ticker_ok p"
  shows "ticker_ok (ticker_step stamp u p)"
proof (cases u)
  case (TAdd k v)
  then show ?thesis
    using assms length_update [of k v "tp_items p"]
    by (auto simp: ticker_ok_def TickerPool_Add_def TickerPool_Size_def distinct_update)
next
  case (TRemove k)
  then show ?thesis
    using assms by (simp add: ticker_ok_def TickerPool_Remove_def TickerPool_Size_def distinct_map_filter length_filter_int)
next
  case (TCleanup now)
  then show ?thesis
    using assms by (simp add: ticker_ok_def TickerPool_Cleanup_def TickerPool_Size_def distinct_map_filter length_filter_int)
qed

text \<open>
  The bounded pool never holds more than its limit and holds each key once, and an addition is
  found afterwards exactly when the pool had room for it; a full pool refuses even to replace the
  value of a key it holds.
\<close>

theorem ticker_pool_bounded:
  "ticker_ok (fold (ticker_step stamp) us (NewTickerPool m ttl)) \<and>
   TickerPool_Get k' (snd (TickerPool_Add k v p)) =
     (if k' = k \<and> TickerPool_Size p < tp_maxSize p then Some v else TickerPool_Get k' p)"
proof -
  have "ticker_ok p \<Longrightarrow> ticker_ok (fold (ticker_step stamp) us p)" for p
    by (induction us arbitrary: p) (auto simp: ticker_step_ok)
  then show ?thesis
    by (auto simp: NewTickerPool_def ticker_ok_def TickerPool_Size_def TickerPool_Add_def TickerPool_Get_def update_conv)
qed

end
