(* ===== verification/Datagrams.thy ===== *)
theory Datagrams
  imports IotSpec CendCodec Pools "HOL-Library.Signed_Division"
begin

text \<open>
  The datagram helpers of \<^verbatim>\<open>internal/gateway/iot/datagram.go\<close>: classification and handling of raw
  packets with their pool and metrics, fragmentation and reassembly, and compression over zlib as a
  parameter.  The \<^verbatim>\<open>Server\<close> field of a handler, which \<^verbatim>\<open>NewDatagramHandler\<close> leaves to its user, is the
  server the operations take as an argument.
\<close>

section \<open>Handling raw packets\<close>

datatype DatagramType = DatagramPlain | DatagramDTLS | DatagramMulticast

text \<open>A reception time of None is the zero time.\<close>

record Datagram =
  dg_Type :: DatagramType
  dg_Data :: bytes
  dg_RemoteAddr :: "(string \<times> string) option"
  dg_ReceivedAt :: "int option"
  dg_Length :: int

definition new_datagram :: Datagram where
  "new_datagram = \<lparr>dg_Type = DatagramPlain, dg_Data = [], dg_RemoteAddr = None, dg_ReceivedAt = None, dg_Length = 0\<rparr>"

definition DatagramPool_Get :: "nat \<Rightarrow> Datagram list \<Rightarrow> Datagram \<times> Datagram list" where
  "DatagramPool_Get = pool_Get new_datagram"

definition DatagramPool_Put :: "Datagram \<Rightarrow> Datagram list \<Rightarrow> Datagram list" where
  "DatagramPool_Put d pool =
     d\<lparr>dg_Type := DatagramPlain, dg_Data := [], dg_RemoteAddr := None, dg_ReceivedAt := None, dg_Length := 0\<rparr> # pool"

record DatagramMetrics =
  dm_Received :: int
  dm_Processed :: int
  dm_Dropped :: int
  dm_Errors :: int
  dm_DTLSHandshakes :: int
  dm_ProcessingTime :: int

record DatagramHandler =
  dh_Pool :: "Datagram list"
  dh_BufferPool :: ByteSlicePool
  dh_MaxPacketSize :: int
  dh_Metrics :: DatagramMetrics

definition NewDatagramHandler :: "int \<Rightarrow> DatagramHandler" where
  "NewDatagramHandler maxPacketSize =
     \<lparr>dh_Pool = [], dh_BufferPool = NewByteSlicePool maxPacketSize, dh_MaxPacketSize = maxPacketSize,
      dh_Metrics = \<lparr>dm_Received = 0, dm_Processed = 0, dm_Dropped = 0, dm_Errors = 0, dm_DTLSHandshakes = 0,
        dm_ProcessingTime = 0\<rparr>\<rparr>"

definition dmetric :: "(DatagramMetrics \<Rightarrow> DatagramMetrics) \<Rightarrow> DatagramHandler \<Rightarrow> DatagramHandler" where
  "dmetric f h = h\<lparr>dh_Metrics := f (dh_Metrics h)\<rparr>"

definition detectDatagramType :: "bytes \<Rightarrow> DatagramType" where
  "detectDatagramType data =
     (if 0 < length data \<and> (data ! 0 = 0x16 \<or> data ! 0 = 0x17) then DatagramDTLS else DatagramPlain)"

definition handleDTLSDatagram :: "Datagram \<Rightarrow> DatagramHandler \<Rightarrow> DatagramHandler" where
  "handleDTLSDatagram d h = dmetric (\<lambda>m. m\<lparr>dm_DTLSHandshakes := dm_DTLSHandshakes m + 1\<rparr>) h"

text \<open>\<open>order\<close> is the order in which a DISCONNECT walks the devices, \<open>elapsed\<close> the microseconds taken.\<close>

definition processDatagram :: "'r Env \<Rightarrow> string list \<Rightarrow> int \<Rightarrow> Datagram \<Rightarrow> DatagramHandler \<times> 'r Server \<Rightarrow> DatagramHandler \<times> 'r Server" where
  "processDatagram e order elapsed d = (\<lambda>(h, s).
     let (h1, s1) = (case dg_Type d of
           DatagramPlain \<Rightarrow>
             (dmetric (\<lambda>m. m\<lparr>dm_Processed := dm_Processed m + 1\<rparr>) h,
              HandlePacket e order (dg_Data d) \<lparr>p_Addr = dg_RemoteAddr d, p_Conn = None, p_Quic = None, p_Stream = None\<rparr> s)
         | DatagramDTLS \<Rightarrow> (handleDTLSDatagram d h, s)
         | _ \<Rightarrow> (dmetric (\<lambda>m. m\<lparr>dm_Dropped := dm_Dropped m + 1\<rparr>) h, s))
     in (dmetric (\<lambda>m. m\<lparr>dm_ProcessingTime := dm_ProcessingTime m + elapsed\<rparr>) h1, s1))"

definition HandleRawData :: "'r Env \<Rightarrow> string list \<Rightarrow> int \<Rightarrow> nat \<Rightarrow> bytes \<Rightarrow> (string \<times> string) option \<Rightarrow>
    DatagramHandler \<times> 'r Server \<Rightarrow> DatagramHandler \<times> 'r Server" where
  "HandleRawData e order elapsed pick data remoteAddr = (\<lambda>(h0, s).
     let h = dmetric (\<lambda>m. m\<lparr>dm_Received := dm_Received m + 1\<rparr>) h0 in
     if int (length data) > dh_MaxPacketSize h \<or> length data < 2
     then (dmetric (\<lambda>m. m\<lparr>dm_Dropped := dm_Dropped m + 1\<rparr>) h, s)
     else
       (let (d0, pool) = DatagramPool_Get pick (dh_Pool h);
            d = d0\<lparr>dg_Type := detectDatagramType data, dg_Data := data, dg_RemoteAddr := remoteAddr,
                   dg_ReceivedAt := Some (e_now e), dg_Length := int (length data)\<rparr>;
            (h2, s2) = processDatagram e order elapsed d (h\<lparr>dh_Pool := pool\<rparr>, s)
        in (h2\<lparr>dh_Pool := DatagramPool_Put d (dh_Pool h2)\<rparr>, s2)))"

definition CreateSendDatagram :: "'r Env \<Rightarrow> nat \<Rightarrow> bytes \<Rightarrow> (string \<times> string) option \<Rightarrow> DatagramHandler \<Rightarrow> Datagram \<times> DatagramHandler" where
  "CreateSendDatagram e pick data addr h =
     (let (d0, pool) = DatagramPool_Get pick (dh_Pool h)
      in (d0\<lparr>dg_Type := DatagramPlain, dg_Data := data, dg_RemoteAddr := addr, dg_ReceivedAt := Some (e_now e),
             dg_Length := int (length data)\<rparr>, h\<lparr>dh_Pool := pool\<rparr>))"

definition SendDatagram :: "'r Env \<Rightarrow> Datagram \<Rightarrow> 'r Server \<Rightarrow> unit result \<times> 'r Server" where
  "SendDatagram e d s = transport_write e (UdpAddr (dg_RemoteAddr d)) (dg_Data d) s"

text \<open>The goroutines of a batch finish in some order; \<open>ds\<close> is the batch in that order.\<close>

fun ProcessBatch :: "'r Env \<Rightarrow> string list \<Rightarrow> int \<Rightarrow> Datagram list \<Rightarrow> DatagramHandler \<times> 'r Server \<Rightarrow> DatagramHandler \<times> 'r Server" where
  "ProcessBatch e order elapsed [] st = st"
| "ProcessBatch e order elapsed (d # ds) st =
     (let (h, s) = processDatagram e order elapsed d st
      in ProcessBatch e order elapsed ds (h\<lparr>dh_Pool := DatagramPool_Put d (dh_Pool h)\<rparr>, s))"

section \<open>Fragmentation\<close>

definition one_fragment :: "bytes \<Rightarrow> int \<Rightarrow> int \<Rightarrow> int \<Rightarrow> bytes result" where
  "one_fragment data mx tot i =
     (let start = i * mx;
          stop = (if start + mx > int (length data) then int (length data) else start + mx)
      in if 0 \<le> start \<and> start \<le> stop
         then Inr ([of_int (i + 1), of_int tot] @ take (nat (stop - start)) (drop (nat start) data))
         else Inl (Panic ''slice bounds out of range''))"

fun fragment_loop :: "bytes \<Rightarrow> int \<Rightarrow> int \<Rightarrow> int \<Rightarrow> nat \<Rightarrow> bytes list result" where
  "fragment_loop data mx tot i 0 = Inr []"
| "fragment_loop data mx tot i (Suc n) =
     bind_r (one_fragment data mx tot i) (\<lambda>f. bind_r (fragment_loop data mx tot (i + 1) n) (\<lambda>fs. Inr (f # fs)))"

definition Fragment :: "int \<Rightarrow> bytes \<Rightarrow> bytes list result" where
  "Fragment mx data =
     (if int (length data) \<le> mx then Inr [data]
      else if mx = 0 then Inl (Panic ''integer divide by zero'')
      else (let tot = wrap64 (int (length data) + mx - 1) sdiv mx
            in fragment_loop data mx tot 0 (nat tot)))"

section \<open>Reassembly\<close>

record DatagramReassembler =
  rs_fragments :: "string \<rightharpoonup> (int \<times> bytes) list"
  rs_timeout :: int
  rs_lastCleanup :: int

definition NewDatagramReassembler :: "int \<Rightarrow> int \<Rightarrow> DatagramReassembler" where
  "NewDatagramReassembler now timeout = \<lparr>rs_fragments = Map.empty, rs_timeout = timeout, rs_lastCleanup = now\<rparr>"

definition reassembler_cleanup :: "DatagramReassembler \<Rightarrow> DatagramReassembler" where
  "reassembler_cleanup r = r\<lparr>rs_fragments := Map.empty\<rparr>"

text \<open>The fragments from the i-th on, or None at the first one missing.\<close>

fun collect :: "(int \<times> bytes) list \<Rightarrow> int \<Rightarrow> nat \<Rightarrow> bytes option" where
  "collect m i 0 = Some []"
| "collect m i (Suc n) =
     (case map_of m i of None \<Rightarrow> None | Some f \<Rightarrow> map_option ((@) f) (collect m (i + 1) n))"

definition AddFragment :: "int \<Rightarrow> string \<Rightarrow> int \<Rightarrow> int \<Rightarrow> bytes \<Rightarrow> DatagramReassembler \<Rightarrow> bytes option \<times> DatagramReassembler" where
  "AddFragment now messageID fragmentNum totalFragments data r0 =
     (let r = (if now - rs_lastCleanup r0 > rs_timeout r0 then (reassembler_cleanup r0)\<lparr>rs_lastCleanup := now\<rparr> else r0);
          old = (case rs_fragments r messageID of None \<Rightarrow> [] | Some m \<Rightarrow> m);
          m = AList.update fragmentNum data old;
          r1 = r\<lparr>rs_fragments := (rs_fragments r)(messageID \<mapsto> m)\<rparr>
      in if int (length m) = totalFragments
         then (case collect m 1 (nat totalFragments) of
                 None \<Rightarrow> (None, r1)
               | Some whole \<Rightarrow> (Some whole, r1\<lparr>rs_fragments := (rs_fragments r1)(messageID := None)\<rparr>))
         else (None, r1))"

section \<open>Compression\<close>

record DatagramCompressor =
  dc_enabled :: bool
  dc_level :: int

definition NewDatagramCompressor :: "bool \<Rightarrow> int \<Rightarrow> DatagramCompressor" where
  "NewDatagramCompressor en level = \<lparr>dc_enabled = en, dc_level = level\<rparr>"

definition Compress :: "zlib_lib \<Rightarrow> DatagramCompressor \<Rightarrow> bytes \<Rightarrow> bytes result" where
  "Compress z c data = (if \<not> dc_enabled c \<or> length data < 64 then Inr data else z_zip z (dc_level c) data)"

definition Decompress :: "zlib_lib \<Rightarrow> DatagramCompressor \<Rightarrow> bytes \<Rightarrow> bytes result" where
  "Decompress z c data = (if \<not> dc_enabled c \<or> length data < 64 then Inr data else z_unzip z data)"

interpretation dgs: reset_pool DatagramPool_Get DatagramPool_Put new_datagram "list_all ((=) new_datagram)"
  unfolding DatagramPool_Get_def by (rule resetting_pool) (simp add: DatagramPool_Put_def new_datagram_def)

section \<open>Fragments come back together\<close>

text \<open>The k-th of n fragments, counted from one.\<close>

definition chunk :: "nat \<Rightarrow> bytes \<Rightarrow> nat \<Rightarrow> bytes" where
  "chunk mx data k = take mx (drop ((k - 1) * mx) data)"

definition frag :: "nat \<Rightarrow> bytes \<Rightarrow> nat \<Rightarrow> nat \<Rightarrow> bytes" where
  "frag mx data n k = of_nat k # of_nat n # chunk mx data k"

definition frag_count :: "nat \<Rightarrow> bytes \<Rightarrow> nat" where
  "frag_count mx data = (length data + mx - 1) div mx"

lemma one_fragment_frag:
  assumes "0 < mx" "i * mx \<le> length data"
  shows "one_fragment data (int mx) (int n) (int i) = Inr (frag mx data n (Suc i))"
proof -
  define st where "st = i * mx"
  have e: "int i * int mx = int st" by (simp add: st_def)
  have "st \<le> length data" using assms(2) by (simp add: st_def)
  then show ?thesis
    by (cases "length data < st + mx") (auto simp: one_fragment_def frag_def chunk_def Let_def e st_def [symmetric])
qed

lemma fragment_loop_frag:
  assumes "0 < mx" "(i + k) * mx < length data + mx"
  shows "fragment_loop data (int mx) (int n) (int i) k = Inr (map (frag mx data n) [Suc i..<Suc (i + k)])"
  using assms
proof (induction k arbitrary: i)
  case (Suc k)
  have "i * mx \<le> length data" using Suc.prems by (simp add: algebra_simps)
  then show ?case
    using Suc.IH [of "Suc i"] Suc.prems one_fragment_frag [OF Suc.prems(1), of i data n]
    by (simp add: add.commute upt_conv_Cons del: upt_Suc)
qed simp

lemma frag_count_bounds:
  assumes "0 < mx"
  shows "length data \<le> frag_count mx data * mx" "frag_count mx data * mx < length data + mx"
proof -
  have "frag_count mx data * mx + (length data + mx - 1) mod mx = length data + mx - 1" by (simp add: frag_count_def)
  moreover have "(length data + mx - 1) mod mx < mx" using assms by simp
  ultimately show "length data \<le> frag_count mx data * mx" "frag_count mx data * mx < length data + mx" using assms by linarith+
qed

lemma Fragment_frags:
  assumes "0 < mx" "mx < length data" "int (length data) < 2 ^ 62"
  shows "Fragment (int mx) data = Inr (map (frag mx data (frag_count mx data)) [1..<Suc (frag_count mx data)])"
proof -
  let ?x = "int (length data) + int mx - 1"
  have "wrap64 ?x = ?x" using assms by (intro wrap64_id) auto
  moreover have "?x sdiv int mx = ?x div int mx" using assms by (simp add: signed_divide_int_def)
  moreover have "?x div int mx = int (frag_count mx data)" using assms by (simp add: frag_count_def zdiv_int of_nat_diff)
  ultimately show ?thesis
    using assms fragment_loop_frag [OF assms(1), of 0 "frag_count mx data" data "frag_count mx data"] frag_count_bounds(2) [OF assms(1), of data]
    by (simp add: Fragment_def Let_def del: upt_Suc)
qed

lemma concat_chunks: "concat (map (chunk mx data) [Suc i..<Suc (i + n)]) = take (n * mx) (drop (i * mx) data)"
proof (induction n arbitrary: i)
  case (Suc n)
  have "concat (map (chunk mx data) [Suc i..<Suc (i + Suc n)]) = chunk mx data (Suc i) @ take (n * mx) (drop (Suc i * mx) data)"
    using Suc.IH [of "Suc i"] by (simp add: upt_conv_Cons del: upt_Suc)
  also have "\<dots> = take (Suc n * mx) (drop (i * mx) data)" by (simp add: chunk_def take_add add.commute)
  finally show ?case .
qed simp

lemma collect_chunks:
  "(\<And>k. i < k \<Longrightarrow> k \<le> i + n \<Longrightarrow> map_of m (int k) = Some (chunk mx data k)) \<Longrightarrow>
   collect m (int (Suc i)) n = Some (concat (map (chunk mx data) [Suc i..<Suc (i + n)]))"
proof (induction n arbitrary: i)
  case (Suc n)
  have "map_of m (int (Suc i)) = Some (chunk mx data (Suc i))" using Suc.prems [of "Suc i"] by simp
  moreover have "collect m (int (Suc (Suc i))) n = Some (concat (map (chunk mx data) [Suc (Suc i)..<Suc (Suc i + n)]))"
    using Suc.prems by (intro Suc.IH) auto
  ultimately show ?case by (simp add: upt_conv_Cons add.commute del: upt_Suc)
qed simp

text \<open>The fragments with numbers in \<open>K\<close> are stored.\<close>

definition holds :: "nat \<Rightarrow> bytes \<Rightarrow> (int \<times> bytes) list \<Rightarrow> nat set \<Rightarrow> bool" where
  "holds mx data m K \<longleftrightarrow> distinct (map fst m) \<and>
     map_of m = (\<lambda>x. if x \<in> int ` K then Some (chunk mx data (nat x)) else None)"

lemma holds_length:
  assumes "holds mx data m K"
  shows "length m = card K"
proof -
  have "fst ` set m = dom (map_of m)" by (simp add: dom_map_of_conv_image_fst)
  also have "\<dots> = int ` K" using assms by (auto simp: holds_def dom_def)
  finally have "card (set (map fst m)) = card (int ` K)" by simp
  then show ?thesis using assms distinct_card [of "map fst m"] by (simp add: holds_def card_image)
qed

lemma holds_update:
  "holds mx data m K \<Longrightarrow> holds mx data (AList.update (int k) (chunk mx data k) m) (insert k K)"
  by (auto simp: holds_def distinct_update update_conv fun_eq_iff)

lemma holds_collect:
  assumes "holds mx data m {1..n}" "0 < mx" "length data \<le> n * mx"
  shows "collect m 1 n = Some data"
  using collect_chunks [of 0 n m mx data] concat_chunks [of mx data 0 n] assms by (simp add: holds_def image_iff)

text \<open>A fragment arrives: its two leading bytes are its number and the number of fragments.\<close>

definition arrive :: "int \<Rightarrow> string \<Rightarrow> bytes \<Rightarrow> DatagramReassembler \<Rightarrow> bytes option \<times> DatagramReassembler" where
  "arrive now mid f r = AddFragment now mid (uint (f ! 0)) (uint (f ! 1)) (drop 2 f) r"

definition stored :: "DatagramReassembler \<Rightarrow> string \<Rightarrow> (int \<times> bytes) list" where
  "stored r mid = (case rs_fragments r mid of None \<Rightarrow> [] | Some m \<Rightarrow> m)"

lemma AddFragment_stored:
  "now - rs_lastCleanup r \<le> rs_timeout r \<Longrightarrow> AddFragment now mid k n f r =
     (let m = AList.update k f (stored r mid); r1 = r\<lparr>rs_fragments := (rs_fragments r)(mid \<mapsto> m)\<rparr> in
      if int (length m) = n then (case collect m 1 (nat n) of None \<Rightarrow> (None, r1)
        | Some whole \<Rightarrow> (Some whole, r\<lparr>rs_fragments := (rs_fragments r)(mid := None)\<rparr>)) else (None, r1))"
  by (simp add: AddFragment_def stored_def Let_def cong: option.case_cong)

lemma uint_of_nat_byte: "n < 256 \<Longrightarrow> uint (of_nat n :: byte) = int n"
  by (simp add: unsigned_of_nat take_bit_nat_eq_self)

lemma arrive_frag:
  assumes "now - rs_lastCleanup r \<le> rs_timeout r" "k \<in> {1..n}" "n < 256" "0 < mx" "length data \<le> n * mx"
    and "K \<subseteq> {1..n}" "holds mx data (stored r mid) K" "arrive now mid (frag mx data n k) r = (out, r')"
  shows "(if insert k K = {1..n} then out = Some data \<and> rs_fragments r' mid = None
      else out = None \<and> holds mx data (stored r' mid) (insert k K)) \<and>
    rs_timeout r' = rs_timeout r \<and> rs_lastCleanup r' = rs_lastCleanup r"
proof -
  define m where "m = AList.update (int k) (chunk mx data k) (stored r mid)"
  have m: "holds mx data m (insert k K)" unfolding m_def by (rule holds_update [OF assms(7)])
  have "uint (of_nat k :: byte) = int k" "uint (of_nat n :: byte) = int n" using assms(2,3) by (auto intro: uint_of_nat_byte)
  then have add: "AddFragment now mid (int k) (int n) (chunk mx data k) r = (out, r')"
    using assms(8) by (simp add: arrive_def frag_def)
  note def = AddFragment_stored [OF assms(1), of mid "int k" "int n" "chunk mx data k", folded m_def, unfolded Let_def, folded m_def]
  have all: "length m = n \<longleftrightarrow> insert k K = {1..n}"
  proof
    assume "length m = n"
    then have "card (insert k K) = card {1..n}" using holds_length [OF m] by simp
    then show "insert k K = {1..n}" using assms(2,6) by (intro card_subset_eq) simp_all
  qed (use holds_length [OF m] in simp)
  show ?thesis
  proof (cases "insert k K = {1..n}")
    case True
    then show ?thesis using def add all holds_collect [of mx data m n] m assms(4,5) by auto
  next
    case False
    then show ?thesis using def add all m by (auto simp: stored_def)
  qed
qed

lemma arrive_other:
  assumes "now - rs_lastCleanup r \<le> rs_timeout r" "mid' \<noteq> mid" "arrive now mid' f r = (out, r')"
  shows "rs_fragments r' mid = rs_fragments r mid \<and> rs_timeout r' = rs_timeout r \<and> rs_lastCleanup r' = rs_lastCleanup r"
  using assms by (auto simp: arrive_def AddFragment_def Let_def split: if_splits option.splits)

text \<open>Arrivals for any messages, with what each of them gives out.\<close>

type_synonym arrival = "int \<times> string \<times> bytes"

fun arrivals :: "arrival list \<Rightarrow> DatagramReassembler \<Rightarrow> (string \<times> bytes option) list \<times> DatagramReassembler" where
  "arrivals [] r = ([], r)"
| "arrivals ((now, mid, f) # as) r =
     (let (out, r1) = arrive now mid f r; (outs, r2) = arrivals as r1 in ((mid, out) # outs, r2))"

definition for_msg :: "string \<Rightarrow> arrival list \<Rightarrow> bytes list" where
  "for_msg mid as = map (\<lambda>(_, _, f). f) (filter (\<lambda>(_, m, _). m = mid) as)"

definition outs_for :: "string \<Rightarrow> (string \<times> bytes option) list \<Rightarrow> bytes option list" where
  "outs_for mid outs = map snd (filter (\<lambda>(m, _). m = mid) outs)"

lemma outs_other: "arrivals as r = (outs, r') \<Longrightarrow> for_msg mid as = [] \<Longrightarrow> outs_for mid outs = []"
  by (induction as r arbitrary: outs rule: arrivals.induct)
    (auto simp: for_msg_def outs_for_def split: prod.splits if_splits)

lemma arrivals_frags:
  assumes "\<forall>(now, _) \<in> set as. now - rs_lastCleanup r \<le> rs_timeout r" "n < 256" "0 < mx" "length data \<le> n * mx"
    and "K \<subseteq> {1..n}" "holds mx data (stored r mid) K"
    and "for_msg mid as = map (frag mx data n) (ks @ [k])" "set ks \<subseteq> {1..n}" "k \<in> {1..n}"
    and "K \<union> set ks \<noteq> {1..n}" "K \<union> set (ks @ [k]) = {1..n}" "arrivals as r = (outs, r')"
  shows "outs_for mid outs = replicate (length ks) None @ [Some data]"
  using assms
proof (induction as arbitrary: r ks K outs r')
  case (Cons a as)
  obtain now mid' f where a: "a = (now, mid', f)" by (metis prod_cases3)
  obtain out r1 where ar: "arrive now mid' f r = (out, r1)" by fastforce
  obtain outs1 r2 where rest: "arrivals as r1 = (outs1, r2)" by fastforce
  have outs: "outs = (mid', out) # outs1" using Cons.prems(12) by (simp add: a ar rest)
  have fresh: "now - rs_lastCleanup r \<le> rs_timeout r" using Cons.prems(1) by (simp add: a)
  show ?case
  proof (cases "mid' = mid")
    case False
    note o = arrive_other [OF fresh False ar]
    show ?thesis
      using Cons.IH [OF _ Cons.prems(2-5) _ _ Cons.prems(8-11) rest] Cons.prems(1,6,7) o False outs
      by (auto simp: a for_msg_def outs_for_def stored_def)
  next
    case True
    then have f: "f # for_msg mid as = map (frag mx data n) (ks @ [k])" using Cons.prems(7) by (simp add: a for_msg_def)
    show ?thesis
    proof (cases ks)
      case Nil
      have "insert k K = {1..n}" "f = frag mx data n k" "for_msg mid as = []" using f Nil Cons.prems(11) by auto
      then show ?thesis
        using arrive_frag [OF fresh Cons.prems(9,2-6)] ar True outs Nil outs_other [OF rest]
        by (auto simp: outs_for_def)
    next
      case (Cons j js)
      have j: "f = frag mx data n j" "for_msg mid as = map (frag mx data n) (js @ [k])" "j \<in> {1..n}" "insert j K \<noteq> {1..n}"
        using f Cons Cons.prems(5,8,10) by auto
      then have st: "out = None" "holds mx data (stored r1 mid) (insert j K)" "rs_timeout r1 = rs_timeout r" "rs_lastCleanup r1 = rs_lastCleanup r"
        using arrive_frag [OF fresh j(3) Cons.prems(2-6)] ar True by auto
      have "outs_for mid outs1 = replicate (length js) None @ [Some data]"
        using Cons Cons.prems st j by (intro Cons.IH [OF _ Cons.prems(2-4) _ st(2) j(2) _ Cons.prems(9) _ _ rest]) (auto simp: a)
      then show ?thesis using outs st True Cons by (simp add: outs_for_def)
    qed
  qed
qed (simp add: for_msg_def)

lemma frag_inj: "n < 256 \<Longrightarrow> inj_on (frag mx data n) {1..n}"
  by (rule inj_on_inverseI [of _ "\<lambda>f. unat (f ! 0)"]) (simp add: frag_def unat_of_nat_byte)

lemma images_of: "set ys \<subseteq> f ` A \<Longrightarrow> \<exists>ks. ys = map f ks \<and> set ks \<subseteq> A"
proof (induction ys)
  case (Cons y ys)
  then obtain ks x where "ys = map f ks" "set ks \<subseteq> A" "y = f x" "x \<in> A" by auto
  then show ?case by (intro exI [of _ "x # ks"]) simp
qed simp

text \<open>
  C31: A message cut into at most 255 fragments is put together again whatever the order of arrival,
  with repeated fragments and with any fragments of other messages in between, as long as the
  reassembler does not clean up meanwhile: every arrival gives nothing until the one that completes
  the set of fragments, and that one gives the message.
\<close>

theorem fragments_reassemble:
  assumes "0 < mx" "mx < length data" "length data \<le> 255 * mx" "int (length data) < 2 ^ 62"
    and "\<forall>(now, _) \<in> set as. now - rs_lastCleanup r \<le> rs_timeout r" "rs_fragments r mid = None"
    and "for_msg mid as = ys @ [f]"
  shows "\<exists>fs. Fragment (int mx) data = Inr fs \<and> (set ys \<subset> set fs \<and> insert f (set ys) = set fs \<longrightarrow>
    outs_for mid (fst (arrivals as r)) = replicate (length ys) None @ [Some data])"
proof -
  define n where "n = frag_count mx data"
  define fs where "fs = map (frag mx data n) [1..<Suc n]"
  note b = frag_count_bounds [OF assms(1), of data, folded n_def]
  have "n * mx < 256 * mx" using b(2) assms(3) by linarith
  then have n: "n < 256" using mult_less_cancel2 by blast
  have fs: "set fs = frag mx data n ` {1..n}" by (simp add: fs_def atLeastLessThanSuc_atLeastAtMost del: upt_Suc)
  have "outs_for mid (fst (arrivals as r)) = replicate (length ys) None @ [Some data]"
    if ys: "set ys \<subset> set fs" "insert f (set ys) = set fs"
  proof -
    have "set ys \<subseteq> frag mx data n ` {1..n}" "f \<in> frag mx data n ` {1..n}" using ys fs by blast+
    then obtain ks k where k: "ys = map (frag mx data n) ks" "set ks \<subseteq> {1..n}" "f = frag mx data n k" "k \<in> {1..n}"
      using images_of [of ys] by blast
    have "frag mx data n ` set (ks @ [k]) = frag mx data n ` {1..n}" using ys(2) k fs by simp
    then have "set (ks @ [k]) = {1..n}" using k by (intro inj_on_image_eq_iff [OF frag_inj [OF n], THEN iffD1]) auto
    moreover have "set ks \<noteq> {1..n}" using ys(1) k fs by auto
    moreover have "holds mx data (stored r mid) {}" using assms(6) by (simp add: stored_def holds_def fun_eq_iff)
    ultimately show ?thesis
      using arrivals_frags [OF assms(5) n assms(1) b(1), of "{}" mid ks k] assms(7) k by (cases "arrivals as r") simp
  qed
  moreover have "Fragment (int mx) data = Inr fs" using Fragment_frags [OF assms(1,2,4)] by (simp add: fs_def n_def)
  ultimately show ?thesis by blast
qed

theorem fragments_reassemble_witness:
  "Fragment 2 [1, 2, 3] = Inr [[1, 2, 1, 2], [2, 2, 3]] \<and>
   outs_for ''m'' (fst (arrivals [(5, ''m'', [2, 2, 3]), (6, ''x'', [1, 9, 4]), (7, ''m'', [2, 2, 3]), (8, ''m'', [1, 2, 1, 2])]
     (NewDatagramReassembler 0 30))) = [None, None, Some [1, 2, 3]]"
proof -
  have "frag_count 2 [1, 2, 3] = 2" by (simp add: frag_count_def)
  then have fr: "Fragment 2 [1, 2, 3] = Inr [[1, 2, 1, 2], [2, 2, 3]]"
    using Fragment_frags [of 2 "[1, 2, 3]"] by (simp add: frag_def chunk_def upt_conv_Cons)
  show ?thesis
    using fragments_reassemble [of 2 "[1, 2, 3]" "[(5, ''m'', [2, 2, 3]), (6, ''x'', [1, 9, 4]), (7, ''m'', [2, 2, 3]), (8, ''m'', [1, 2, 1, 2])]"
        "NewDatagramReassembler 0 30" "''m''" "[[2, 2, 3], [2, 2, 3]]" "[1, 2, 1, 2]"] fr
    by (auto simp: for_msg_def NewDatagramReassembler_def numeral_2_eq_2)
qed

section \<open>Raw packets and compression\<close>

text \<open>
  The classifier takes the first byte for a DTLS record type, but in an MQTT-SN packet it is the
  length.  So of all packets with a one-byte length that fit, those of 22 and 23 bytes never reach the
  message handler, whatever their type, and are counted as DTLS handshakes; all others are handled.
\<close>

theorem dtls_lookalikes_lost:
  assumes "2 \<le> length data" "length data \<le> 255" "data ! 0 = of_nat (length data)" "int (length data) \<le> dh_MaxPacketSize h"
    and "HandleRawData e order elapsed pick data addr (h, s) = (h', s')"
  shows "if length data \<in> {22, 23}
    then s' = s \<and> dm_DTLSHandshakes (dh_Metrics h') = dm_DTLSHandshakes (dh_Metrics h) + 1 \<and> dm_Processed (dh_Metrics h') = dm_Processed (dh_Metrics h)
    else s' = HandlePacket e order data \<lparr>p_Addr = addr, p_Conn = None, p_Quic = None, p_Stream = None\<rparr> s \<and>
      dm_Processed (dh_Metrics h') = dm_Processed (dh_Metrics h) + 1"
proof -
  have "unat (data ! 0) = length data" using assms(2,3) by (simp add: unat_of_nat_byte)
  then have "data ! 0 = 0x16 \<longleftrightarrow> length data = 22" "data ! 0 = 0x17 \<longleftrightarrow> length data = 23"
    by (auto simp: word_unat_eq_iff)
  then have "detectDatagramType data = (if length data \<in> {22, 23} then DatagramDTLS else DatagramPlain)"
    using assms(1) by (auto simp: detectDatagramType_def)
  then show ?thesis
    using assms(1,4,5) by (auto simp: HandleRawData_def processDatagram_def handleDTLSDatagram_def dmetric_def Let_def split: prod.splits if_splits)
qed

theorem dtls_lookalikes_lost_witness:
  "snd (HandleRawData (small_env ''S1'' 5) [] 3 0 (22 # replicate 21 0) None (NewDatagramHandler 1500, small_server)) = small_server"
proof -
  have "length (22 # replicate 21 0 :: bytes) = 22" by simp
  then show ?thesis
    using dtls_lookalikes_lost [of "22 # replicate 21 0" "NewDatagramHandler 1500" "small_env ''S1'' 5" "[]" 3 0 None small_server,
        OF _ _ _ _ prod.collapse [symmetric]]
    by (simp add: NewDatagramHandler_def)
qed

text \<open>
  Compression round-trips for any zlib that inverts itself exactly when the data was left alone or
  its compressed form is at least 64 bytes long: what compresses to less than the threshold is taken
  for uncompressed data and handed on still compressed.
\<close>

theorem compress_roundtrip_exactly:
  assumes "\<And>d x. z_zip z (dc_level c) d = Inr x \<Longrightarrow> z_unzip z x = Inr d"
    and "Compress z c data = Inr x"
  shows "Decompress z c x = Inr data \<longleftrightarrow> \<not> dc_enabled c \<or> length data < 64 \<or> 64 \<le> length x \<or> x = data"
  using assms(2) assms(1) [of data x] by (auto simp: Compress_def Decompress_def split: if_splits)

text \<open>A compressor that writes a hundred zeros as one byte and marks everything else.\<close>

definition zeros_zlib :: zlib_lib where
  "zeros_zlib = \<lparr>z_zip = \<lambda>_ d. Inr (if d = replicate 100 0 then [1] else 2 # d),
     z_unzip = \<lambda>x. Inr (if x = [1] then replicate 100 0 else tl x)\<rparr>"

theorem compress_roundtrip_exactly_witness:
  "Compress zeros_zlib \<lparr>dc_enabled = True, dc_level = 6\<rparr> (replicate 100 0) = Inr [1] \<and>
   Decompress zeros_zlib \<lparr>dc_enabled = True, dc_level = 6\<rparr> [1] \<noteq> Inr (replicate 100 0)"
proof -
  have "Compress zeros_zlib \<lparr>dc_enabled = True, dc_level = 6\<rparr> (replicate 100 0) = Inr [1]"
    by (simp add: Compress_def zeros_zlib_def)
  moreover have "([1] :: bytes) \<noteq> replicate 100 0" by (auto dest: arg_cong [of _ _ length])
  ultimately show ?thesis
    using compress_roundtrip_exactly [of zeros_zlib "\<lparr>dc_enabled = True, dc_level = 6\<rparr>" "replicate 100 0" "[1]"]
    by (auto simp: zeros_zlib_def split: if_splits)
qed

text \<open>Every packet handed in is counted once: handled, refused or seen as DTLS.\<close>

definition accounted :: "DatagramHandler \<Rightarrow> bool" where
  "accounted h \<longleftrightarrow> dm_Received (dh_Metrics h) =
     dm_Processed (dh_Metrics h) + dm_Dropped (dh_Metrics h) + dm_DTLSHandshakes (dh_Metrics h)"

lemma accounted_kept: "accounted h \<Longrightarrow> accounted (fst (HandleRawData e order elapsed pick data addr (h, s)))"
  by (auto simp: accounted_def HandleRawData_def processDatagram_def handleDTLSDatagram_def dmetric_def Let_def
      split: prod.splits DatagramType.splits)

end
