(* ===== verification/Logger.thy ===== *)
theory Logger
  imports Prelude
begin

text \<open>
  The logger, \<^verbatim>\<open>pkg/logger/logger.go\<close>.  The fields of a logger are a Go slice, and loggers derived from one
  another may share its array, so arrays live in a heap and a slice is the array it points to with its
  length and capacity; how much \<^verbatim>\<open>append\<close> grows an array is up to the runtime and an argument.  Writers
  are kept with the text written to them.  The clock as both formats print it, the calling file and
  line and the order in which a map is visited are arguments too.  Shown: which loggers keep their fields
  apart, what a level lets through, and that values are written without escaping.
\<close>

section \<open>Levels and values\<close>

definition DebugLevel :: int where "DebugLevel = 0"
definition InfoLevel :: int where "InfoLevel = 1"
definition WarnLevel :: int where "WarnLevel = 2"
definition ErrorLevel :: int where "ErrorLevel = 3"
definition FatalLevel :: int where "FatalLevel = 4"

lemmas level_defs = DebugLevel_def InfoLevel_def WarnLevel_def ErrorLevel_def FatalLevel_def

definition Level_String :: "int \<Rightarrow> string" where
  "Level_String l =
     (if l = DebugLevel then ''DEBUG'' else if l = InfoLevel then ''INFO'' else if l = WarnLevel then ''WARN''
      else if l = ErrorLevel then ''ERROR'' else if l = FatalLevel then ''FATAL'' else ''UNKNOWN'')"

definition ParseLevel :: "string \<Rightarrow> int" where
  "ParseLevel level =
     (if level = ''debug'' then DebugLevel else if level = ''info'' then InfoLevel else if level = ''warn'' then WarnLevel
      else if level = ''error'' then ErrorLevel else if level = ''fatal'' then FatalLevel else InfoLevel)"

datatype Format = TextFormat | JSONFormat

text \<open>A value is nil, a string, or something else as \<^verbatim>\<open>%v\<close> prints it.\<close>

datatype lvalue = LNil | LStr string | LOther string

fun show_lvalue :: "lvalue \<Rightarrow> string" where
  "show_lvalue LNil = ''<nil>''"
| "show_lvalue (LStr t) = t"
| "show_lvalue (LOther t) = t"

section \<open>Loggers\<close>

record field_slice =
  fs_array :: nat
  fs_len :: nat
  fs_cap :: nat

record defaultLogger =
  lg_level :: int
  lg_format :: Format
  lg_output :: nat
  lg_fields :: field_slice

record Writer =
  w_closer :: bool
  w_open :: bool
  w_text :: string

record LogState =
  lo_arrays :: "lvalue list list"
  lo_writers :: "Writer list"
  lo_global :: defaultLogger

text \<open>The nil slice has no capacity and reads nothing; writer 0 is standard output.\<close>

definition nil_slice :: field_slice where
  "nil_slice = \<lparr>fs_array = 0, fs_len = 0, fs_cap = 0\<rparr>"

definition slice_values :: "LogState \<Rightarrow> field_slice \<Rightarrow> lvalue list" where
  "slice_values st sl = (if fs_cap sl = 0 then [] else take (fs_len sl) (lo_arrays st ! fs_array sl))"

definition logger_New :: "string \<Rightarrow> string \<Rightarrow> defaultLogger" where
  "logger_New level format = \<lparr>lg_level = ParseLevel level, lg_format = (if format = ''json'' then JSONFormat else TextFormat),
     lg_output = 0, lg_fields = nil_slice\<rparr>"

text \<open>Opening a log file: the outcomes of creating its directory and of opening it are arguments.\<close>

definition NewFileLogger :: "unit result \<Rightarrow> unit result \<Rightarrow> string \<Rightarrow> string \<Rightarrow> LogState \<Rightarrow> defaultLogger result \<times> LogState" where
  "NewFileLogger mkdir open_file level format st =
     (case mkdir of
        Inl er \<Rightarrow> (Inl (wrap_error ''failed to create log directory: '' er), st)
      | Inr _ \<Rightarrow>
          (case open_file of
             Inl er \<Rightarrow> (Inl (wrap_error ''failed to open log file: '' er), st)
           | Inr _ \<Rightarrow>
               (Inr ((logger_New level format)\<lparr>lg_output := length (lo_writers st)\<rparr>),
                st\<lparr>lo_writers := lo_writers st @ [\<lparr>w_closer = True, w_open = True, w_text = []\<rparr>]\<rparr>)))"

text \<open>
  \<^verbatim>\<open>append\<close>: in place while the capacity suffices, otherwise in a new array.  \<open>grow\<close> gives its capacity from
  the old one and the length needed.
\<close>

definition slice_append :: "(nat \<Rightarrow> nat \<Rightarrow> nat) \<Rightarrow> field_slice \<Rightarrow> lvalue list \<Rightarrow> LogState \<Rightarrow> field_slice \<times> LogState" where
  "slice_append grow sl xs st =
     (let n = fs_len sl + length xs in
      if xs = [] then (sl, st)
      else if n \<le> fs_cap sl then
        (sl\<lparr>fs_len := n\<rparr>,
         st\<lparr>lo_arrays := (lo_arrays st)[fs_array sl :=
              take (fs_len sl) (lo_arrays st ! fs_array sl) @ xs @ drop n (lo_arrays st ! fs_array sl)]\<rparr>)
      else
        (\<lparr>fs_array = length (lo_arrays st), fs_len = n, fs_cap = grow (fs_cap sl) n\<rparr>,
         st\<lparr>lo_arrays := lo_arrays st @ [slice_values st sl @ xs @ replicate (grow (fs_cap sl) n - n) LNil]\<rparr>))"

definition WithFields :: "(nat \<Rightarrow> nat \<Rightarrow> nat) \<Rightarrow> lvalue list \<Rightarrow> defaultLogger \<Rightarrow> LogState \<Rightarrow> defaultLogger \<times> LogState" where
  "WithFields grow flds l st =
     (let (sl, st1) = slice_append grow (lg_fields l) flds st
      in (\<lparr>lg_level = lg_level l, lg_format = lg_format l, lg_output = lg_output l, lg_fields = sl\<rparr>, st1))"

text \<open>A context is its values under the two keys read; a nil value is none.\<close>

definition WithContext :: "(nat \<Rightarrow> nat \<Rightarrow> nat) \<Rightarrow> lvalue option \<Rightarrow> lvalue option \<Rightarrow> defaultLogger \<Rightarrow> LogState \<Rightarrow> defaultLogger \<times> LogState" where
  "WithContext grow traceID userID l st =
     WithFields grow ((case traceID of None \<Rightarrow> [] | Some v \<Rightarrow> [LStr ''trace_id'', v]) @
                      (case userID of None \<Rightarrow> [] | Some v \<Rightarrow> [LStr ''user_id'', v])) l st"

definition SetLevel :: "int \<Rightarrow> defaultLogger \<Rightarrow> defaultLogger" where
  "SetLevel level l = l\<lparr>lg_level := level\<rparr>"

definition SetOutput :: "nat \<Rightarrow> defaultLogger \<Rightarrow> defaultLogger" where
  "SetOutput w l = l\<lparr>lg_output := w\<rparr>"

definition logger_Close :: "defaultLogger \<Rightarrow> LogState \<Rightarrow> unit result \<times> LogState" where
  "logger_Close l st =
     (let w = lo_writers st ! lg_output l in
      if w_closer w
      then (if w_open w then Inr () else Inl (Error ''file already closed''),
            st\<lparr>lo_writers := (lo_writers st)[lg_output l := w\<lparr>w_open := False\<rparr>]\<rparr>)
      else (Inr (), st))"

section \<open>Entries\<close>

record Entry =
  en_Time_text :: string
    \<comment> \<open>the time as the text format prints it\<close>
  en_Time_json :: string
    \<comment> \<open>the time as the JSON format prints it\<close>
  en_Level :: int
  en_Message :: string
  en_Fields :: "(string \<times> lvalue) list"
  en_File :: string
  en_Line :: int

fun parseFields :: "lvalue list \<Rightarrow> (string \<times> lvalue) list" where
  "parseFields (k # v # r) = (case k of LStr key \<Rightarrow> (key, v) # parseFields r | _ \<Rightarrow> parseFields r)"
| "parseFields _ = []"

definition formatText :: "Entry \<Rightarrow> string" where
  "formatText e =
     en_Time_text e @ '' ['' @ Level_String (en_Level e) @ ''] '' @ en_File e @ '':'' @ show_int (en_Line e) @ '' '' @
     en_Message e @ concat (map (\<lambda>(k, v). '' '' @ k @ ''='' @ show_lvalue v) (en_Fields e))"

definition json_map :: "Entry \<Rightarrow> string \<rightharpoonup> lvalue" where
  "json_map e = (map_of (rev (en_Fields e)))(''time'' \<mapsto> LStr (en_Time_json e), ''level'' \<mapsto> LStr (Level_String (en_Level e)),
     ''file'' \<mapsto> LStr (en_File e @ '':'' @ show_int (en_Line e)), ''message'' \<mapsto> LStr (en_Message e))"

definition json_pair :: "string \<Rightarrow> string \<Rightarrow> string" where
  "json_pair k v = ''\"'' @ k @ ''\":\"'' @ v @ ''\"''"

fun json_pairs :: "(string \<times> string) list \<Rightarrow> string" where
  "json_pairs [] = []"
| "json_pairs [(k, v)] = json_pair k v"
| "json_pairs ((k, v) # r) = json_pair k v @ '','' @ json_pairs r"

definition formatJSON :: "string list \<Rightarrow> Entry \<Rightarrow> string" where
  "formatJSON order e = ''{'' @ json_pairs (map (\<lambda>k. (k, show_lvalue (the (json_map e k)))) order) @ ''}''"

text \<open>What a call site adds: the clock in both formats, the caller, and the order of the map.\<close>

record log_site =
  ls_text :: string
  ls_json :: string
  ls_file :: string
  ls_line :: int
  ls_order :: "(string \<rightharpoonup> lvalue) \<Rightarrow> string list"

definition entry_of :: "log_site \<Rightarrow> int \<Rightarrow> string \<Rightarrow> lvalue list \<Rightarrow> Entry" where
  "entry_of site level msg flds = \<lparr>en_Time_text = ls_text site, en_Time_json = ls_json site, en_Level = level, en_Message = msg,
     en_Fields = parseFields flds, en_File = ls_file site, en_Line = ls_line site\<rparr>"

definition log_text :: "log_site \<Rightarrow> int \<Rightarrow> string \<Rightarrow> lvalue list \<Rightarrow> defaultLogger \<Rightarrow> LogState \<Rightarrow> string" where
  "log_text site level msg flds l st =
     (let e = entry_of site level msg (slice_values st (lg_fields l) @ flds)
      in (if lg_format l = JSONFormat then formatJSON (ls_order site (json_map e)) e else formatText e) @ [CHR 0x0A])"

definition logger_log :: "log_site \<Rightarrow> int \<Rightarrow> string \<Rightarrow> lvalue list \<Rightarrow> defaultLogger \<Rightarrow> LogState \<Rightarrow> LogState" where
  "logger_log site level msg flds l st =
     (if level < lg_level l then st
      else (let w = lo_writers st ! lg_output l in
            if w_open w
            then st\<lparr>lo_writers := (lo_writers st)[lg_output l := w\<lparr>w_text := w_text w @ log_text site level msg flds l st\<rparr>]\<rparr>
            else st))"

text \<open>\<open>Fatal\<close> also ends the process, which is the Boolean.\<close>

definition log_Debug where "log_Debug site = logger_log site DebugLevel"
definition log_Info where "log_Info site = logger_log site InfoLevel"
definition log_Warn where "log_Warn site = logger_log site WarnLevel"
definition log_Error where "log_Error site = logger_log site ErrorLevel"

definition log_Fatal :: "log_site \<Rightarrow> string \<Rightarrow> lvalue list \<Rightarrow> defaultLogger \<Rightarrow> LogState \<Rightarrow> bool \<times> LogState" where
  "log_Fatal site msg flds l st = (True, logger_log site FatalLevel msg flds l st)"

definition SetGlobalLogger :: "defaultLogger \<Rightarrow> LogState \<Rightarrow> LogState" where
  "SetGlobalLogger l st = st\<lparr>lo_global := l\<rparr>"

definition GetGlobalLogger :: "LogState \<Rightarrow> defaultLogger" where
  "GetGlobalLogger = lo_global"

definition global_log :: "log_site \<Rightarrow> int \<Rightarrow> string \<Rightarrow> lvalue list \<Rightarrow> LogState \<Rightarrow> LogState" where
  "global_log site level msg flds st = logger_log site level msg flds (lo_global st) st"

section \<open>Fields of derived loggers\<close>

definition slice_ok :: "LogState \<Rightarrow> field_slice \<Rightarrow> bool" where
  "slice_ok st sl \<longleftrightarrow> fs_len sl \<le> fs_cap sl \<and>
     (0 < fs_cap sl \<longrightarrow> fs_array sl < length (lo_arrays st) \<and> length (lo_arrays st ! fs_array sl) = fs_cap sl)"

definition fields_of :: "LogState \<Rightarrow> defaultLogger \<Rightarrow> lvalue list" where
  "fields_of st l = slice_values st (lg_fields l)"

definition grow_law :: "(nat \<Rightarrow> nat \<Rightarrow> nat) \<Rightarrow> bool" where
  "grow_law grow \<longleftrightarrow> (\<forall>c n. n \<le> grow c n)"

lemma WithFields_fields:
  assumes "slice_ok st (lg_fields l)" "grow_law grow" "WithFields grow xs l st = (l1, st1)"
  shows "fields_of st1 l1 = fields_of st l @ xs \<and> slice_ok st1 (lg_fields l1)"
proof (cases "xs = []")
  case True
  then show ?thesis using assms by (auto simp: WithFields_def slice_append_def fields_of_def)
next
  case False
  let ?sl = "lg_fields l" and ?n = "fs_len (lg_fields l) + length xs"
  show ?thesis
  proof (cases "?n \<le> fs_cap ?sl")
    case True
    then have "0 < fs_cap ?sl" using False length_greater_0_conv [of xs] by linarith
    then show ?thesis
      using True False assms by (auto simp: WithFields_def slice_append_def fields_of_def slice_values_def slice_ok_def Let_def)
  next
    case f: False
    define c where "c = grow (fs_cap ?sl) ?n"
    have c: "?n \<le> c" using assms(2) by (simp add: grow_law_def c_def)
    have pos: "c \<noteq> 0" using c False length_greater_0_conv [of xs] by linarith
    have len: "length (slice_values st ?sl) = fs_len ?sl" using assms(1) by (auto simp: slice_values_def slice_ok_def)
    have "l1 = l\<lparr>lg_fields := \<lparr>fs_array = length (lo_arrays st), fs_len = ?n, fs_cap = c\<rparr>\<rparr>"
      "lo_arrays st1 = lo_arrays st @ [slice_values st ?sl @ xs @ replicate (c - ?n) LNil]"
      using f False assms(3) by (auto simp: WithFields_def slice_append_def c_def Let_def)
    then show ?thesis using c pos len by (simp add: fields_of_def slice_values_def [of st1] slice_ok_def)
  qed
qed

text \<open>
  Deriving two loggers from one with as many fields each.  The second derivation changes the fields
  of the first one to its own exactly when the array of the common logger had room for them; otherwise
  both keep what they were given.
\<close>

theorem derived_loggers_share_fields:
  assumes "slice_ok st (lg_fields l)" "grow_law grow" "xs \<noteq> []" "length ys = length xs"
    and "WithFields grow xs l st = (l1, st1)" "WithFields grow ys l st1 = (l2, st2)"
  shows "fields_of st2 l2 = fields_of st l @ ys \<and>
    fields_of st2 l1 = fields_of st l @ (if fs_len (lg_fields l) + length xs \<le> fs_cap (lg_fields l) then ys else xs)"
proof -
  let ?sl = "lg_fields l" and ?n = "fs_len (lg_fields l) + length xs"
  have ys: "ys \<noteq> []" using assms(3,4) by auto
  show ?thesis
  proof (cases "?n \<le> fs_cap ?sl")
    case True
    then have "0 < fs_cap ?sl" using assms(3) length_greater_0_conv [of xs] by linarith
    then show ?thesis
      using True ys assms by (auto simp: WithFields_def slice_append_def fields_of_def slice_values_def slice_ok_def Let_def)
  next
    case False
    have f1: "fields_of st1 l1 = fields_of st l @ xs" using WithFields_fields [OF assms(1,2,5)] by simp
    have st1: "lo_arrays st1 = lo_arrays st @ [slice_values st ?sl @ xs @ replicate (grow (fs_cap ?sl) ?n - ?n) LNil]"
      and l1: "lg_fields l1 = \<lparr>fs_array = length (lo_arrays st), fs_len = ?n, fs_cap = grow (fs_cap ?sl) ?n\<rparr>"
      using False assms(3,5) by (auto simp: WithFields_def slice_append_def Let_def)
    have sl1: "slice_ok st1 ?sl" "slice_values st1 ?sl = slice_values st ?sl"
      using assms(1) st1 by (auto simp: slice_ok_def slice_values_def nth_append)
    have "lo_arrays st2 = lo_arrays st1 @ [slice_values st1 ?sl @ ys @ replicate (grow (fs_cap ?sl) ?n - ?n) LNil]"
      using False ys assms(4,6) by (auto simp: WithFields_def slice_append_def Let_def)
    then have "fields_of st2 l1 = fields_of st1 l1" using st1 l1 by (simp add: fields_of_def slice_values_def nth_append)
    then show ?thesis using f1 False WithFields_fields [OF sl1(1) assms(2,6)] sl1(2) by (simp add: fields_of_def)
  qed
qed

text \<open>Three derivations in a row leave room in the array when its capacity doubles, as Go's does for small slices.\<close>

definition doubling :: "nat \<Rightarrow> nat \<Rightarrow> nat" where
  "doubling c n = max n (2 * c)"

definition small_log :: LogState where
  "small_log = \<lparr>lo_arrays = [[LStr ''a'', LNil, LStr ''b'', LNil, LStr ''c'', LNil, LNil, LNil]],
     lo_writers = [\<lparr>w_closer = True, w_open = True, w_text = []\<rparr>], lo_global = logger_New ''info'' ''text''\<rparr>"

definition three_fields :: defaultLogger where
  "three_fields = (logger_New ''info'' ''text'')\<lparr>lg_fields := \<lparr>fs_array = 0, fs_len = 6, fs_cap = 8\<rparr>\<rparr>"

theorem derived_loggers_share_fields_witness:
  "let (l1, st1) = WithFields doubling [LStr ''device'', LStr ''d1''] three_fields small_log;
       (l2, st2) = WithFields doubling [LStr ''device'', LStr ''d2''] three_fields st1
   in drop 6 (fields_of st1 l1) = [LStr ''device'', LStr ''d1''] \<and> drop 6 (fields_of st2 l1) = [LStr ''device'', LStr ''d2'']"
proof -
  obtain l1 st1 where w1: "WithFields doubling [LStr ''device'', LStr ''d1''] three_fields small_log = (l1, st1)" by fastforce
  obtain l2 st2 where w2: "WithFields doubling [LStr ''device'', LStr ''d2''] three_fields st1 = (l2, st2)" by fastforce
  have ok: "slice_ok small_log (lg_fields three_fields)" "grow_law doubling"
    by (simp_all add: slice_ok_def small_log_def three_fields_def grow_law_def doubling_def)
  have len: "length (fields_of small_log three_fields) = 6" by (simp add: fields_of_def slice_values_def small_log_def three_fields_def)
  show ?thesis
    using derived_loggers_share_fields [OF ok _ _ w1 w2] WithFields_fields [OF ok w1] len w1 w2 by (simp add: three_fields_def)
qed

section \<open>Output\<close>

text \<open>
  An entry is written exactly when its level reaches the logger's; and the text is not escaped, so a
  message can contain any other entry: one call then writes byte for byte what two calls of the text
  format write, and no reader of the log can tell.
\<close>

theorem text_entries_forgeable:
  assumes "lg_format l = TextFormat" "lg_level l \<le> lv" "lg_level l \<le> lv'" "w_open (lo_writers st ! lg_output l)"
    and "lg_output l < length (lo_writers st)" "fs_len (lg_fields l) = 0"
  shows "logger_log site lv (msg @ [CHR 0x0A] @ formatText (entry_of site' lv' msg' flds)) [] l st =
    logger_log site' lv' msg' flds l (logger_log site lv msg [] l st)"
proof -
  have "slice_values x (lg_fields l) = []" for x using assms(6) by (simp add: slice_values_def)
  then show ?thesis
    using assms(1-5) by (simp add: logger_log_def log_text_def formatText_def entry_of_def Let_def)
qed

theorem text_entries_forgeable_witness:
  "logger_log \<lparr>ls_text = ''T'', ls_json = [], ls_file = ''f'', ls_line = 1, ls_order = \<lambda>_. []\<rparr> InfoLevel
     (''hi'' @ [CHR 0x0A] @ formatText (entry_of \<lparr>ls_text = ''T'', ls_json = [], ls_file = ''f'', ls_line = 1, ls_order = \<lambda>_. []\<rparr>
        ErrorLevel ''boom'' [])) [] (lo_global small_log) small_log =
   logger_log \<lparr>ls_text = ''T'', ls_json = [], ls_file = ''f'', ls_line = 1, ls_order = \<lambda>_. []\<rparr> ErrorLevel ''boom'' [] (lo_global small_log)
     (logger_log \<lparr>ls_text = ''T'', ls_json = [], ls_file = ''f'', ls_line = 1, ls_order = \<lambda>_. []\<rparr> InfoLevel ''hi'' [] (lo_global small_log) small_log)"
  by (rule text_entries_forgeable) (simp_all add: small_log_def logger_New_def ParseLevel_def level_defs nil_slice_def)

text \<open>In the JSON format a value with quotes in it writes the same text as two fields.\<close>

lemma json_values_forgeable: "json_pair k (v @ ''\",\"'' @ k' @ ''\":\"'' @ v') = json_pairs [(k, v), (k', v')]"
  by (simp add: json_pair_def)

text \<open>Fields that come as key and value pairs are all kept, in order.\<close>

lemma parseFields_pairs: "parseFields (concat (map (\<lambda>(k, v). [LStr k, v]) kvs)) = kvs"
  by (induction kvs) auto

end
