(* ===== verification/Modes.thy ===== *)
theory Modes
  imports CendSpec IotSpec
begin

text \<open>
  The mode of the Redis package, local or with a server, is chosen by \<open>Init\<close> once: no operation of the
  package, of the shadow or of the command queue and no step of either gateway changes it.  The theory
  also shows that the device table stays finite, so that the loops over it have an order.
\<close>

named_theorems mode_frame \<open>operations that leave the mode of the Redis package alone\<close>

abbreviation mode2 :: "'v \<times> 'm \<times> 'r RedisState \<Rightarrow> bool" where
  "mode2 x \<equiv> localMode (snd (snd x))"

section \<open>The packages\<close>

lemma mode_store_call [mode_frame]: "localMode (snd (store_call ops g f)) = localMode g"
  by (simp add: store_call_def split: prod.split)

lemma mode_redis [mode_frame]:
  "localMode (snd (RegisterGateway ops js t i ty a g)) = localMode g"
  "localMode (snd (UnregisterGateway ops i g)) = localMode g"
  "localMode (snd (AddOnlineUser ops js t u i gw g)) = localMode g"
  "localMode (snd (RemoveOnlineUser ops u g)) = localMode g"
  "localMode (snd (GetUserConnection ops js u g)) = localMode g"
  "localMode (snd (RegisterIoTDevice ops js t d gw a g)) = localMode g"
  "localMode (snd (RemoveIoTDevice ops d g)) = localMode g"
  "localMode (snd (UpdateIoTDeviceHeartbeat ops js t d g)) = localMode g"
  by (simp_all add: RegisterGateway_def UnregisterGateway_def AddOnlineUser_def RemoveOnlineUser_def GetUserConnection_def hget_call_def
      RegisterIoTDevice_def RemoveIoTDevice_def UpdateIoTDeviceHeartbeat_def Let_def case_prod_beta mode_frame split: option.split)

lemma mode_publishEvent [mode_frame]: "localMode (snd (publishEvent ops ms d st v gw mg)) = localMode (snd mg)"
  by (simp add: publishEvent_def case_prod_beta)

lemma mode_shadow_basic [mode_frame]:
  "mode2 (Touch ops now d gw mg) = localMode (snd mg)"
  "mode2 (tryPreoccupy ops now d mg) = localMode (snd mg)"
  "mode2 (transition ops now d a b gw mg) = localMode (snd mg)"
  "mode2 (Get ops now d mg) = localMode (snd mg)"
  by (simp_all add: Touch_def tryPreoccupy_def transition_def Get_def Let_def case_prod_beta mode_frame split: option.split)

lemma mode_TryPreoccupy [mode_frame]: "mode2 (TryPreoccupy ops now ms d mg) = localMode (snd mg)"
proof -
  obtain s er m g where t: "tryPreoccupy ops now d mg = ((s, er), m, g)" by (metis prod.collapse)
  then show ?thesis using mode_shadow_basic(2) [of ops now d mg] by (simp add: TryPreoccupy_def mode_frame split: option.split)
qed

lemma mode_Transition [mode_frame]: "mode2 (Transition ops now ms d a b gw mg) = localMode (snd mg)"
proof -
  obtain s er m g where t: "transition ops now d a b gw mg = ((s, er), m, g)" by (metis prod.collapse)
  then show ?thesis using mode_shadow_basic(3) [of ops now d a b gw mg]
    by (cases mg) (simp add: Transition_def mode_frame split: option.split)
qed

lemma mode_Report [mode_frame]: "mode2 (ReportHeartbeatWithGateway ops now ms d st gw mg) = localMode (snd mg)"
proof (cases mg)
  case (Pair m g)
  obtain res g' where c: "store_call ops g (luaHeartbeat ops (shadowKey d) (onlineKey d) (show_int now)
      (show_int (m_offlineTTL m div second)) st gw) = (res, g')" by fastforce
  then have "localMode g' = localMode g" using mode_store_call by (metis snd_conv)
  then show ?thesis
    using Pair c by (auto simp: ReportHeartbeatWithGateway_def Let_def mode_frame split: sum.split)
qed

lemma mode_MarkOffline [mode_frame]: "mode2 (MarkOffline ops now ms d mg) = localMode (snd mg)"
  by (simp add: MarkOffline_def Let_def case_prod_beta mode_frame)

lemma mode_queue [mode_frame]:
  "mode2 (enqueue_cmd ops cj k qg) = localMode (snd qg)"
  "mode2 (Fetch ops cj d n qg) = localMode (snd qg)"
  "mode2 (MarkDone ops cj d i qg) = localMode (snd qg)"
  by (simp_all add: enqueue_cmd_def Fetch_def MarkDone_def Let_def case_prod_beta mode_frame split: option.split sum.split)

lemma mode_Enqueue [mode_frame]: "mode2 (Enqueue ops cj now i d ty ps qg) = localMode (snd qg)"
  by (simp add: Enqueue_def Let_def case_prod_beta mode_frame)


section \<open>The IoT gateway\<close>

abbreviation imode :: "'r Server \<Rightarrow> bool" where "imode s \<equiv> localMode (s_redis s)"

lemma imode_pair: "imode (snd x) = imode s \<Longrightarrow> x = (v, s') \<Longrightarrow> imode s' = imode s"
  by auto

lemma imode_calls [mode_frame]:
  "imode (count f s) = imode s"
  "(\<And>m g. mode2 (h (m, g)) = localMode g) \<Longrightarrow> imode (with_shadow h s) = imode s"
  "(\<And>q g. mode2 (k (q, g)) = localMode g) \<Longrightarrow> imode (snd (with_queue k s)) = imode s"
  "(\<And>g. localMode (snd (l g)) = localMode g) \<Longrightarrow> imode (with_redis l s) = imode s"
  by (simp_all add: count_def with_shadow_def with_queue_def with_redis_def case_prod_beta)

lemma imode_sends [mode_frame]:
  "imode (snd (Peer_Send e p data s)) = imode s" "imode (snd (SendToDevice e d data s)) = imode s"
  "imode (report e d st s) = imode s" "imode (touch_device e d s) = imode s" "imode (touch_session e d s) = imode s"
  "imode (open_session e msg s) = imode s" "imode (register_device e d peer s) = imode s" "imode (snd (admit e peer s)) = imode s"
  by (simp_all add: Peer_Send_def SendToDevice_def transport_write_def report_def touch_device_def touch_session_def open_session_def
      register_device_def admit_def Let_def case_prod_beta mode_frame split: option.split)

lemma imode_reply [mode_frame]: "imode (reply e peer data s) = imode s"
  by (auto simp: reply_def mode_frame dest: imode_pair [OF imode_sends(1)] split: prod.split sum.split)

lemma imode_send_commands [mode_frame]: "imode (send_commands e d cs s) = imode s"
proof (induction cs arbitrary: s)
  case (Cons c cs)
  show ?case by (auto simp: Let_def Cons.IH mode_frame dest: imode_pair [OF imode_sends(2)] split: prod.split sum.split)
qed simp

lemma imode_dispatch [mode_frame]: "imode (dispatchPendingCommands e d s) = imode s"
proof -
  have "imode (snd (with_queue (Fetch (e_ops e) (e_cj e) d 0) s)) = imode s" by (simp add: mode_frame)
  from imode_pair [OF this] show ?thesis
    by (auto simp: dispatchPendingCommands_def mode_frame split: option.split prod.split sum.split)
qed

lemma imode_async [mode_frame]: "imode (asyncRedisWork e w s) = imode s"
  by (cases w) (simp add: asyncRedisWork_def mode_frame)

lemma imode_dropDevice [mode_frame]: "imode (dropDevice e d s) = imode s"
  by (simp add: dropDevice_def Let_def mode_frame split: option.split)


lemma imode_drops [mode_frame]:
  "imode (dropDeviceByConn e order c s) = imode s" "imode (dropDeviceByStream e order st s) = imode s"
  "imode (handleDisconnect e order data peer s) = imode s"
  by (simp_all add: dropDeviceByConn_def dropDeviceByStream_def handleDisconnect_def Let_def mode_frame)

lemma imode_small_handlers [mode_frame]:
  "imode (handleSubscribe e data peer s) = imode s" "imode (handleUnsubscribe e data peer s) = imode s"
  "imode (handleRegister e data peer s) = imode s"
  by (auto simp: handleSubscribe_def handleUnsubscribe_def handleRegister_def Let_def mode_frame dest: imode_pair [OF imode_sends(1)]
      split: prod.split sum.split)

lemma imode_handleConnect [mode_frame]: "imode (handleConnect e data peer s) = imode s"
  by (auto simp: handleConnect_def sendConnack_def sendRetryInfo_def Let_def mode_frame dest: imode_pair [OF imode_sends(8)]
      split: sum.split prod.split)

lemma imode_reports [mode_frame]:
  "imode (handleStatus e data peer s) = imode s" "imode (handleFetch e data peer s) = imode s"
  "imode (handleCmdAck e data peer s) = imode s"
  by (simp_all add: handleStatus_def handleFetch_def handleCmdAck_def Let_def case_prod_beta mode_frame split: sum.split option.split)

lemma imode_handlePublish [mode_frame]: "imode (handlePublish e data peer s) = imode s"
  by (simp add: handlePublish_def sendPuback_def Let_def case_prod_beta mode_frame split: sum.split)

lemma imode_handlePingReq [mode_frame]: "imode (handlePingReq e data peer s) = imode s"
  by (auto simp: handlePingReq_def Let_def mode_frame dest: imode_pair [OF imode_sends(1)] split: prod.split sum.split)

lemma imode_HandlePacket [mode_frame]: "imode (HandlePacket e order data peer s) = imode s"
  by (auto simp: HandlePacket_def Let_def mode_frame split: sum.split)

lemma imode_mark_all [mode_frame]: "imode (mark_all_offline e ds s) = imode s"
  by (induction ds arbitrary: s) (simp_all add: mode_frame)

lemma imode_expire [mode_frame]: "imode (snd (expire_sessions now t order s)) = imode s"
proof (induction order arbitrary: s)
  case (Cons sid order)
  have "imode (expire_one sid ses s) = imode s" for ses by (simp add: expire_one_def Let_def split: option.split)
  then show ?case using Cons.IH by (simp add: case_prod_beta split: option.split)
qed simp

lemma imode_step: "iot_step s s' \<Longrightarrow> imode s' = imode s"
  by (induction rule: iot_step.induct)
    (simp_all add: readLoop_step_def dtls_step_def receive_def quic_stream_step_def workerLoop_step_def async_step_def cmdTrigger_step_def
      sessionCleanup_tick_def CleanupExpiredSessions_def ipLimiterCleanup_tick_def Let_def case_prod_beta mode_frame
      split: sum.split list.split)

lemma imode_Stop [mode_frame]: "imode (Stop e order s) = imode s"
  by (simp add: Stop_def mode_frame)

subsection \<open>The device table stays finite\<close>

definition few_devices :: "iot_tables \<Rightarrow> bool" where
  "few_devices = (\<lambda>(K, D, S, B). finite (dom D))"

lemma few_devices_iff: "few_devices (tables s) \<longleftrightarrow> finite (dom (s_devices s))"
  by (simp add: few_devices_def tables_def)

lemma few_changes:
  assumes "few_devices (tables s)"
  shows "few_devices (tables (touch_device e d s))" "few_devices (tables (touch_session e d s))" "few_devices (tables (open_session e msg s))"
    "few_devices (tables (register_device e d p s))" "few_devices (tables (dropDevice e d s))" "few_devices (tables (expire_one sid ses s))"
proof -
  have "finite (dom (s_devices s))" using assms by (simp add: few_devices_iff)
  then show "few_devices (tables (touch_device e d s))" "few_devices (tables (touch_session e d s))" "few_devices (tables (open_session e msg s))"
    "few_devices (tables (register_device e d p s))" "few_devices (tables (expire_one sid ses s))" "few_devices (tables (dropDevice e d s))"
    by (simp_all add: few_devices_iff touch_device_def touch_session_def open_session_def register_device_def expire_one_def Let_def
        split: option.split) (simp add: few_devices_def tables_dropDevice flip: few_devices_iff)
qed

lemma few_handleConnect: "few_devices (tables s) \<Longrightarrow> few_devices (tables (handleConnect e data p s))"
  by (auto simp: handleConnect_def Let_def iot_frame few_changes dest: tables_pair(4) split: sum.split prod.split)

lemma few_handlers:
  assumes "few_devices (tables s)"
  shows "few_devices (tables (handleStatus e data p s))" "few_devices (tables (handleFetch e data p s))"
    "few_devices (tables (handleCmdAck e data p s))" "few_devices (tables (handlePublish e data p s))"
    "few_devices (tables (handlePingReq e data p s))" "few_devices (tables (handleSubscribe e data p s))"
    "few_devices (tables (handleUnsubscribe e data p s))" "few_devices (tables (handleRegister e data p s))"
  using assms
  by (auto simp: handleStatus_def handleFetch_def handleCmdAck_def handlePublish_def handlePingReq_def handleSubscribe_def
      handleUnsubscribe_def handleRegister_def Let_def iot_frame few_changes dest!: tables_pair split: sum.split option.split prod.split)

lemma few_drops:
  assumes "few_devices (tables s)"
  shows "few_devices (tables (dropDeviceByConn e order c s))" "few_devices (tables (dropDeviceByStream e order st s))"
    "few_devices (tables (handleDisconnect e order data p s))"
  using assms by (simp_all add: dropDeviceByConn_def dropDeviceByStream_def handleDisconnect_def Let_def few_changes)

lemma few_HandlePacket: "few_devices (tables s) \<Longrightarrow> few_devices (tables (HandlePacket e order data p s))"
  by (auto simp: HandlePacket_def Let_def iot_frame few_handlers few_handleConnect few_drops split: sum.split prod.split)

lemma few_expire: "few_devices (tables s) \<Longrightarrow> few_devices (tables (snd (expire_sessions now t order s)))"
  by (induction order arbitrary: s) (auto simp: few_changes case_prod_beta split: option.split)

lemma few_step: "iot_step s s' \<Longrightarrow> few_devices (tables s) \<Longrightarrow> few_devices (tables s')"
  by (induction rule: iot_step.induct)
    (auto simp: readLoop_step_def dtls_step_def quic_stream_step_def workerLoop_step_def async_step_def cmdTrigger_step_def
      sessionCleanup_tick_def CleanupExpiredSessions_def ipLimiterCleanup_tick_def Let_def case_prod_beta iot_frame few_drops
      few_HandlePacket few_expire split: sum.split list.split)

section \<open>The C-end gateway\<close>

abbreviation cmode :: "('r, 'priv, 'pub) CendServer \<Rightarrow> bool" where "cmode s \<equiv> localMode (cs_redis s)"

lemma cmode_calls [mode_frame]:
  "cmode (cmetric f s) = cmode s" "cmode (upd_conn c h s) = cmode s"
  "(\<And>g. localMode (snd (l g)) = localMode g) \<Longrightarrow> cmode (snd (on_redis l s)) = cmode s"
  "(\<And>m g. mode2 (h2 (m, g)) = localMode g) \<Longrightarrow> cmode (snd (on_shadow h2 s)) = cmode s"
  "(\<And>q g. mode2 (k (q, g)) = localMode g) \<Longrightarrow> cmode (snd (on_queue k s)) = cmode s"
  by (simp_all add: cmetric_def upd_conn_def on_redis_def on_shadow_def on_queue_def case_prod_beta)

lemma cmode_SendMessage [mode_frame]: "cmode (snd (SendMessage e c ty seq msg s)) = cmode s"
  by (simp add: SendMessage_def Let_def mode_frame split: sum.split)

lemma cmode_Close [mode_frame]: "cmode (Close e c s) = cmode s"
  by (simp add: Close_def Let_def mode_frame)


lemma cmode_pair: "cmode (snd x) = cmode s \<Longrightarrow> x = (v, s') \<Longrightarrow> cmode s' = cmode s"
  by auto

lemma cmode_senders [mode_frame]:
  "cmode (sendAuthResponse e c seq code msg sid t s) = cmode s" "cmode (sendMessageAck e c seq rid code msg s) = cmode s"
  "cmode (sendError e c seq code msg s) = cmode s"
  by (simp_all add: sendAuthResponse_def sendMessageAck_def sendError_def mode_frame)

lemma cmode_handleAuth [mode_frame]: "cmode (snd (handleAuth e c h body s)) = cmode s"
  by (simp add: handleAuth_def Let_def case_prod_beta mode_frame split: option.split sum.split failure.split)

lemma cmode_query [mode_frame]:
  "cmode (handleHeartbeat e c h body s) = cmode s" "cmode (handleShadowQuery e c h msg s) = cmode s"
  "cmode (handleShadowSubscribe e c h msg s) = cmode s" "cmode (forward_message e c h msg s) = cmode s"
  by (simp_all add: handleHeartbeat_def handleShadowQuery_def handleShadowSubscribe_def forward_message_def forwardToBusinessSystem_def
      Let_def case_prod_beta mode_frame split: sum.split option.split)

lemma cmode_queue_command [mode_frame]: "cmode (queue_command e c h msg params s) = cmode s"
  by (simp add: queue_command_def Let_def case_prod_beta mode_frame split: option.split)

lemma cmode_handleDeviceCommand [mode_frame]: "cmode (snd (handleDeviceCommand e c h msg s)) = cmode s"
  by (simp add: handleDeviceCommand_def Let_def case_prod_beta mode_frame split: option.split failure.split)

lemma cmode_handleMessage [mode_frame]: "cmode (snd (handleMessage e c h body s)) = cmode s"
  by (simp add: handleMessage_def Let_def mode_frame split: option.split)

lemma cmode_HandleMessage [mode_frame]: "cmode (snd (HandleMessage e c data s)) = cmode s"
  by (simp add: HandleMessage_def dispatch_message_def Let_def case_prod_beta mode_frame split: sum.split)

lemma cmode_PushToUser [mode_frame]: "cmode (snd (PushToUser e u msg s)) = cmode s"
  by (simp add: PushToUser_def forwardToOtherGateway_def Let_def case_prod_beta mode_frame split: sum.split option.split)

lemma cmode_push_users [mode_frame]: "cmode (push_users e msg us s) = cmode s"
  by (induction us arbitrary: s) (auto simp: mode_frame dest: cmode_pair [OF cmode_PushToUser] split: prod.split sum.split)

lemma cmode_events [mode_frame]:
  "cmode (PushShadowEvent e d msg s) = cmode s" "cmode (broadcast e res ds s) = cmode s"
  by (simp add: PushShadowEvent_def mode_frame, induction ds arbitrary: s) (simp_all add: PushShadowEvent_def mode_frame)

lemma cmode_loops [mode_frame]:
  "cmode (snd (ReadLoop_step e ev c s)) = cmode s" "cmode (snd (WriteLoop_step e wev ok c s)) = cmode s"
  by (simp_all add: ReadLoop_step_def WriteLoop_step_def write_frame_def Let_def case_prod_beta mode_frame
      split: read_event.split write_event.split list.split)

lemma cmode_tick [mode_frame]: "cmode (heartbeat_tick e order s) = cmode s"
  by (induction order arbitrary: s) (simp_all add: check_one_def Let_def mode_frame split: option.split)

lemma cmode_close_all [mode_frame]: "cmode (close_all e order s) = cmode s"
  by (induction order arbitrary: s) (simp_all add: Let_def mode_frame split: option.split)

lemma cmode_waitForShutdown [mode_frame]: "cmode (waitForShutdown e order s) = cmode s"
  by (simp add: waitForShutdown_def mode_frame)

lemma cmode_step: "cend_step s s' \<Longrightarrow> cmode s' = cmode s"
  by (induction rule: cend_step.induct)
    (simp_all add: ws_begin_def ws_register_def shadow_event_step_def cmd_result_step_def cend_Start_def Let_def case_prod_beta mode_frame
      split: payload.split)

end
