(* ===== verification/Admin.thy ===== *)
theory Admin
  imports Config Redis
begin

text \<open>
  The admin console, \<^verbatim>\<open>internal/gateway/admin/admin.go\<close>, first part: the load-test tasks.  Tasks are
  objects shared by the task table, the history and the goroutine that runs each of them, so they live
  in a heap and are named by their position.  The goroutine of a task is cut where others can run:
  starting the process, each line of output, and the exit; \<open>ad_phase\<close> says where it is.  The clock, the
  printing of times, the file system and the outcome of starting a process are arguments.  The
  source's Chinese texts are kept as their UTF-8 bytes.
\<close>

section \<open>Tasks and the console\<close>

definition utf8 :: "nat list \<Rightarrow> string" where
  "utf8 = map char_of"

record TestTask =
  tk_ID :: string
  tk_Kind :: string
  tk_Name :: string
  tk_Status :: string
  tk_Args :: "string \<rightharpoonup> string"
  tk_StartedAt :: string
  tk_FinishedAt :: string
  tk_Latest :: string
  tk_Metrics :: "string \<rightharpoonup> int"
  tk_Log :: "string list"
  tk_ExitErr :: string
  tk_Passed :: "bool option"
  tk_pid :: int
  tk_cmd :: bool
    \<comment> \<open>whether the command is set\<close>
  tk_process :: bool
    \<comment> \<open>whether the command has a process\<close>

record VerifyCase =
  vc_Name :: string
  vc_Status :: string
  vc_Duration :: string
  vc_Detail :: string
  vc_Metrics :: "string \<rightharpoonup> int"

record VerifyReport =
  vr_ID :: string
  vr_StartedAt :: string
  vr_FinishedAt :: string
  vr_Cases :: "VerifyCase list"
  vr_Passed :: int
  vr_Failed :: int
  vr_Skipped :: int
  vr_AllPass :: bool

datatype phase = PNew | PReading | PDone

record 'r AdminServer =
  ad_cfg :: Config
  ad_heap :: "TestTask list"
  ad_phase :: "phase list"
  ad_exec :: "(string \<times> string list) list"
    \<comment> \<open>the program and arguments the goroutine of each task runs\<close>
  ad_tasks :: "string \<rightharpoonup> nat"
  ad_reports :: "VerifyReport list"
  ad_last :: "nat option"
  ad_hist :: "nat list"
  ad_kills :: "nat list"
    \<comment> \<open>the tasks whose process was sent a kill signal\<close>
  ad_redis :: "'r RedisState"

definition admin_New :: "Config \<Rightarrow> 'r RedisState \<Rightarrow> 'r AdminServer" where
  "admin_New cfg g = \<lparr>ad_cfg = cfg, ad_heap = [], ad_phase = [], ad_exec = [], ad_tasks = Map.empty, ad_reports = [], ad_last = None,
     ad_hist = [], ad_kills = [], ad_redis = g\<rparr>"

record AdminEnv =
  ae_now :: int
    \<comment> \<open>the clock in nanoseconds\<close>
  ae_fmt :: "int \<Rightarrow> string"
    \<comment> \<open>printing a time\<close>
  ae_exists :: "string \<Rightarrow> bool"
    \<comment> \<open>what \<^verbatim>\<open>os.Stat\<close> finds\<close>

abbreviation now_text :: "AdminEnv \<Rightarrow> string" where
  "now_text e \<equiv> ae_fmt e (ae_now e)"

definition upd_task :: "nat \<Rightarrow> (TestTask \<Rightarrow> TestTask) \<Rightarrow> 'r AdminServer \<Rightarrow> 'r AdminServer" where
  "upd_task i f s = s\<lparr>ad_heap := (ad_heap s)[i := f (ad_heap s ! i)]\<rparr>"

section \<open>Starting a task\<close>

definition ifZero :: "int \<Rightarrow> int \<Rightarrow> int" where
  "ifZero v dflt = (if v \<le> 0 then dflt else v)"

text \<open>\<^verbatim>\<open>filepath.Join\<close> on Unix: the path is split at slashes and cleaned from left to right.\<close>

fun split_path :: "string \<Rightarrow> string list" where
  "split_path [] = [[]]"
| "split_path (c # cs) = (case split_path cs of
      [] \<Rightarrow> [[c]]
    | w # ws \<Rightarrow> if c = CHR ''/'' then [] # w # ws else (c # w) # ws)"

fun clean_comps :: "bool \<Rightarrow> string list \<Rightarrow> string list \<Rightarrow> string list" where
  "clean_comps rooted st [] = rev st"
| "clean_comps rooted st (w # ws) =
     (if w = [] \<or> w = ''.'' then clean_comps rooted st ws
      else if w = ''..'' then
        (if st \<noteq> [] \<and> hd st \<noteq> ''..'' then clean_comps rooted (tl st) ws
         else if rooted then clean_comps rooted st ws
         else clean_comps rooted (w # st) ws)
      else clean_comps rooted (w # st) ws)"

fun join_with :: "string \<Rightarrow> string list \<Rightarrow> string" where
  "join_with sep [] = []"
| "join_with sep [w] = w"
| "join_with sep (w # ws) = w @ sep @ join_with sep ws"

definition filepath_Join :: "string \<Rightarrow> string \<Rightarrow> string" where
  "filepath_Join base nm =
     (let p = base @ ''/'' @ nm; rooted = (hd p = CHR ''/'');
          body = join_with ''/'' (clean_comps rooted [] (split_path p))
      in if rooted then ''/'' @ body else if body = [] then ''.'' else body)"

definition missing_binary :: "string \<Rightarrow> string \<Rightarrow> string" where
  "missing_binary b iotBin =
     (utf8 [0xE5, 0x8E, 0x8B, 0xE6, 0xB5, 0x8B, 0xE4, 0xBA, 0x8C, 0xE8, 0xBF, 0x9B, 0xE5, 0x88, 0xB6, 0xE4, 0xB8, 0x8D, 0xE5, 0xAD, 0x98, 0xE5, 0x9C, 0xA8] @ '': '') @ b @ (utf8 [0xEF, 0xBC, 0x88, 0xE8, 0xAF, 0xB7, 0xE5, 0x85, 0x88, 0xE6, 0x9E, 0x84, 0xE5, 0xBB, 0xBA] @ '': go build -o '') @ iotBin @ ('' ./test/loadtest/iot/ '' @ utf8 [0xE4, 0xB8, 0x8E] @ '' cend'' @ utf8 [0xEF, 0xBC, 0x89])"

definition binaryPaths :: "AdminEnv \<Rightarrow> Config \<Rightarrow> (string \<times> string) result" where
  "binaryPaths e cfg =
     (let base = (if adm_BuildDir (cfg_Admin cfg) = [] then ''build'' else adm_BuildDir (cfg_Admin cfg));
          iotBin = filepath_Join base ''iot_loadtest'';
          cendBin = filepath_Join base ''cend_loadtest''
      in if \<not> ae_exists e iotBin then Inl (Error (missing_binary iotBin iotBin))
         else if \<not> ae_exists e cendBin then Inl (Error (missing_binary cendBin iotBin))
         else Inr (iotBin, cendBin))"

record TestRequest =
  rq_Kind :: string
  rq_Transport :: string
  rq_Devices :: int
  rq_Concurrency :: int
  rq_KeepAlive :: int
  rq_PingInterval :: int
  rq_DeviceOffset :: int
  rq_Mode :: string
  rq_Storm :: bool
  rq_StormInterval :: int
  rq_ConnS :: int
  rq_Biz :: bool
  rq_BizTarget :: int
  rq_Tokens :: string
  rq_Addr :: string

definition cend_args :: "TestRequest \<Rightarrow> string list" where
  "cend_args req =
     (let conns = (if rq_ConnS req \<le> 0 then 1000 else rq_ConnS req);
          keep = (if rq_KeepAlive req \<le> 0 then 60 else rq_KeepAlive req);
          target = (if rq_BizTarget req \<le> 0 then conns else rq_BizTarget req);
          tokens = (if rq_Tokens req = [] then ''build/tokens_quic.txt'' else rq_Tokens req)
      in [''-conns'', show_int conns, ''-concurrency'', show_int (ifZero (rq_Concurrency req) 50),
          ''-tokens'', tokens, ''-keep-alive'', show_int keep] @
         (if rq_Biz req then [''-biz'', ''-biz-target'', show_int target, ''-device-prefix'', ''device_'',
             ''-device-offset'', show_int (rq_DeviceOffset req)] else []) @
         (if rq_Addr req \<noteq> [] then [''-addr'', rq_Addr req] else []))"

definition req_transport :: "TestRequest \<Rightarrow> string" where
  "req_transport req = (if rq_Transport req = [] then ''udp'' else rq_Transport req)"

definition transport_port :: "Config \<Rightarrow> string \<Rightarrow> int" where
  "transport_port cfg transport =
     (if transport = ''quic'' then iot_QUICPort (cfg_IoT cfg)
      else if transport = ''dtls'' then iot_DTLSPort (cfg_IoT cfg)
      else iot_Port (cfg_IoT cfg))"

definition iot_args :: "Config \<Rightarrow> TestRequest \<Rightarrow> string list" where
  "iot_args cfg req =
     (let transport = req_transport req;
          devices = (if rq_Devices req \<le> 0 then 1000 else rq_Devices req);
          keep = (if rq_KeepAlive req \<le> 0 then 60 else rq_KeepAlive req)
      in [''-transport'', transport, ''-addr'', ''127.0.0.1:'' @ show_int (transport_port cfg transport),
          ''-devices'', show_int devices, ''-concurrency'', show_int (ifZero (rq_Concurrency req) 100),
          ''-keep-alive'', show_int keep] @
         (if rq_PingInterval req > 0 then [''-ping-interval'', show_int (rq_PingInterval req)] else []) @
         (if rq_Mode req \<noteq> [] then [''-mode'', rq_Mode req] else []) @
         (if rq_DeviceOffset req > 0 then [''-device-offset'', show_int (rq_DeviceOffset req)] else []) @
         (if rq_Storm req then [''-storm'', ''-storm-interval'', show_int (ifZero (rq_StormInterval req) 30)] else []))"

text \<open>What a request gets back: an HTTP error, a JSON object of strings, a task, a list of rows, or a report.\<close>

record task_row =
  row_ID :: string
  row_Kind :: string
  row_Name :: string
  row_Status :: string
  row_StartedAt :: string
  row_Latest :: string
  row_Metrics :: "string \<rightharpoonup> int"
  row_FinishedAt :: string

datatype admin_reply =
    HttpError int string | JsonObject "(string \<times> string) list" | TaskReply TestTask | RowsReply "task_row list" | ReportReply VerifyReport

text \<open>A task enters the heap and the table, and its goroutine is about to run.\<close>

definition launch :: "string \<Rightarrow> string list \<Rightarrow> TestTask \<Rightarrow> 'r AdminServer \<Rightarrow> 'r AdminServer" where
  "launch bin args task s = s\<lparr>ad_heap := ad_heap s @ [task], ad_phase := ad_phase s @ [PNew], ad_exec := ad_exec s @ [(bin, args)],
     ad_tasks := (ad_tasks s)(tk_ID task \<mapsto> length (ad_heap s))\<rparr>"

definition new_task :: "AdminEnv \<Rightarrow> string \<Rightarrow> string \<Rightarrow> (string \<rightharpoonup> string) \<Rightarrow> TestTask" where
  "new_task e kind nm args =
     \<lparr>tk_ID = ''t'' @ show_int (ae_now e mod 100000000), tk_Kind = kind, tk_Name = nm, tk_Status = ''running'', tk_Args = args,
      tk_StartedAt = now_text e, tk_FinishedAt = [], tk_Latest = [], tk_Metrics = Map.empty, tk_Log = [], tk_ExitErr = [],
      tk_Passed = None, tk_pid = 0, tk_cmd = False, tk_process = False\<rparr>"

definition apiTestStart :: "AdminEnv \<Rightarrow> TestRequest result \<Rightarrow> 'r AdminServer \<Rightarrow> admin_reply \<times> 'r AdminServer" where
  "apiTestStart e body s =
     (case body of
        Inl er \<Rightarrow> (HttpError 400 (''bad request: '' @ show_failure er), s)
      | Inr req \<Rightarrow>
          (case binaryPaths e (ad_cfg s) of
             Inl er \<Rightarrow> (JsonObject [(''error'', show_failure er)], s)
           | Inr (iotBin, cendBin) \<Rightarrow>
               (let cend = (rq_Kind req = ''cend'');
                    kind = (if cend then ''cend'' else ''iot'');
                    nm = (if cend then (''C'' @ utf8 [0xE7, 0xAB, 0xAF, 0xE5, 0x8E, 0x8B, 0xE6, 0xB5, 0x8B]) else (''IoT'' @ utf8 [0xE5, 0x8E, 0x8B, 0xE6, 0xB5, 0x8B] @ ''('') @ req_transport req @ '')'');
                    args = (if cend then cend_args req else iot_args (ad_cfg s) req);
                    bin = (if cend then cendBin else iotBin);
                    cmd = join_with '' '' (bin # args);
                    task = new_task e kind nm [''cmd'' \<mapsto> cmd]
                in (JsonObject [(''id'', tk_ID task), (''status'', ''running''), (''cmd'', cmd)], launch bin args task s))))"

section \<open>Running a task\<close>

text \<open>The part of a line after the first closing bracket and space.\<close>

fun after_bracket :: "string \<Rightarrow> string option" where
  "after_bracket (c # d # cs) = (if c = CHR '']'' \<and> d = CHR '' '' then Some cs else after_bracket (d # cs))"
| "after_bracket _ = None"

definition is_word :: "char \<Rightarrow> bool" where
  "is_word c \<longleftrightarrow> is_digit c \<or> c = CHR ''_'' \<or> (let n = of_char c :: nat in 65 \<le> n \<and> n \<le> 90 \<or> 97 \<le> n \<and> n \<le> 122)"

text \<open>
  All matches of the metric pattern, a run of word characters, an equals sign and a run of digits,
  from left to right; a run that is not followed by them matches from none of its positions.
\<close>

function metric_matches :: "string \<Rightarrow> (string \<times> string) list" where
  "metric_matches [] = []"
| "metric_matches (c # cs) =
     (if \<not> is_word c then metric_matches cs
      else (let w = takeWhile is_word (c # cs); rest = dropWhile is_word (c # cs) in
        if rest = [] then []
        else if hd rest = CHR ''='' then
          (let ds = takeWhile is_digit (tl rest) in
           if ds = [] then metric_matches (tl rest) else (w, ds) # metric_matches (dropWhile is_digit (tl rest)))
        else metric_matches rest))"
  by pat_completeness auto
termination
proof (relation "measure length"; simp)
  fix c cs
  assume w: "is_word c"
  have "length (dropWhile is_word cs) \<le> length cs" by (rule length_dropWhile_le)
  then show "length (dropWhile is_word cs) < Suc (length cs)" "length (dropWhile is_word cs) - Suc 0 < Suc (length cs)" by simp_all
  show "length (dropWhile is_digit (tl (dropWhile is_word cs))) < Suc (length cs)"
    using length_dropWhile_le [of is_digit "tl (dropWhile is_word cs)"] length_dropWhile_le [of is_word cs] by simp
qed

definition parse_metrics :: "string \<Rightarrow> (string \<rightharpoonup> int) \<Rightarrow> (string \<rightharpoonup> int)" where
  "parse_metrics segment m = fold (\<lambda>(k, v) m. m(k \<mapsto> sscanf_d v 0)) (metric_matches segment) m"

definition finishTask :: "AdminEnv \<Rightarrow> nat \<Rightarrow> string \<Rightarrow> string \<Rightarrow> 'r AdminServer \<Rightarrow> 'r AdminServer" where
  "finishTask e i status errMsg s =
     (upd_task i (\<lambda>t. t\<lparr>tk_Status := status, tk_FinishedAt := now_text e, tk_ExitErr := errMsg\<rparr>) s)
       \<lparr>ad_hist := take 50 (i # ad_hist s)\<rparr>"

text \<open>\<open>run_begin\<close>: the command is set and started; \<open>started\<close> is the error or the process identifier.\<close>

definition run_begin :: "AdminEnv \<Rightarrow> nat \<Rightarrow> string + int \<Rightarrow> 'r AdminServer \<Rightarrow> 'r AdminServer" where
  "run_begin e i started s =
     (let s1 = upd_task i (\<lambda>t. t\<lparr>tk_cmd := True\<rparr>) s in
      case started of
        Inl er \<Rightarrow> (finishTask e i ''failed'' er s1)\<lparr>ad_phase := (ad_phase s)[i := PDone]\<rparr>
      | Inr pid \<Rightarrow> (upd_task i (\<lambda>t. t\<lparr>tk_pid := pid, tk_process := True\<rparr>) s1)\<lparr>ad_phase := (ad_phase s)[i := PReading]\<rparr>)"

definition log_line :: "string \<Rightarrow> TestTask \<Rightarrow> TestTask" where
  "log_line line t =
     (let log = tk_Log t @ [line];
          t1 = t\<lparr>tk_Log := (if length log > 300 then drop (length log - 300) log else log)\<rparr>
      in case after_bracket line of
           None \<Rightarrow> t1
         | Some segment \<Rightarrow> t1\<lparr>tk_Latest := segment, tk_Metrics := parse_metrics segment (tk_Metrics t1)\<rparr>)"

definition run_line :: "nat \<Rightarrow> string \<Rightarrow> 'r AdminServer \<Rightarrow> 'r AdminServer" where
  "run_line i line s = upd_task i (log_line line) s"

text \<open>\<open>run_exit\<close>: the output has ended and the process was waited for.\<close>

definition run_exit :: "AdminEnv \<Rightarrow> nat \<Rightarrow> bool \<Rightarrow> int \<Rightarrow> 'r AdminServer \<Rightarrow> 'r AdminServer" where
  "run_exit e i success code s =
     (if \<not> success then finishTask e i ''failed'' (''exit code='' @ show_int code) s
      else finishTask e i ''done'' [] s)\<lparr>ad_phase := (ad_phase s)[i := PDone]\<rparr>"

section \<open>Listing and stopping\<close>

definition cloneMetrics :: "(string \<rightharpoonup> int) \<Rightarrow> (string \<rightharpoonup> int)" where
  "cloneMetrics m = m"

definition to_row :: "TestTask \<Rightarrow> string \<Rightarrow> task_row" where
  "to_row t fin = \<lparr>row_ID = tk_ID t, row_Kind = tk_Kind t, row_Name = tk_Name t, row_Status = tk_Status t,
     row_StartedAt = tk_StartedAt t, row_Latest = tk_Latest t, row_Metrics = cloneMetrics (tk_Metrics t), row_FinishedAt = fin\<rparr>"

definition task_rows :: "string list \<Rightarrow> 'r AdminServer \<Rightarrow> task_row list" where
  "task_rows order s =
     map (\<lambda>t. to_row t []) (filter (\<lambda>t. tk_Status t = ''running'') (map (\<lambda>k. ad_heap s ! the (ad_tasks s k)) order)) @
     map (\<lambda>i. to_row (ad_heap s ! i) (tk_FinishedAt (ad_heap s ! i))) (ad_hist s)"

text \<open>\<open>sort_rows\<close> is \<^verbatim>\<open>sort.Slice\<close> by descending start, which leaves the order of equal rows open.\<close>

definition apiTestList :: "(task_row list \<Rightarrow> task_row list) \<Rightarrow> string list \<Rightarrow> string \<Rightarrow> 'r AdminServer \<Rightarrow> admin_reply" where
  "apiTestList sort_rows order i s =
     (if i \<noteq> [] then
        (case ad_tasks s i of
           Some r \<Rightarrow> TaskReply (ad_heap s ! r)
         | None \<Rightarrow> JsonObject [(''error'', ''task not found'')])
      else RowsReply (sort_rows (task_rows order s)))"

text \<open>\<^verbatim>\<open>Process.Kill\<close> is recorded; its outcome is ignored by the source.\<close>

definition kill :: "nat \<Rightarrow> 'r AdminServer \<Rightarrow> 'r AdminServer" where
  "kill i s = s\<lparr>ad_kills := ad_kills s @ [i]\<rparr>"

text \<open>The check and the effect of a stop: the lock is not held in between.\<close>

definition stop_check :: "string \<Rightarrow> 'r AdminServer \<Rightarrow> nat option" where
  "stop_check i s = (case ad_tasks s i of
     None \<Rightarrow> None | Some r \<Rightarrow> if tk_Status (ad_heap s ! r) \<noteq> ''running'' then None else Some r)"

definition stop_act :: "AdminEnv \<Rightarrow> nat \<Rightarrow> 'r AdminServer \<Rightarrow> 'r AdminServer" where
  "stop_act e r s =
     finishTask e r ''stopped'' ''manually stopped''
       (if tk_cmd (ad_heap s ! r) \<and> tk_process (ad_heap s ! r) then kill r s else s)"

definition apiTestStop :: "AdminEnv \<Rightarrow> string \<Rightarrow> 'r AdminServer \<Rightarrow> admin_reply \<times> 'r AdminServer" where
  "apiTestStop e i s =
     (case stop_check i s of
        None \<Rightarrow> (JsonObject [(''error'', ''task not running'')], s)
      | Some r \<Rightarrow> (JsonObject [(''id'', i), (''status'', ''stopped'')], stop_act e r s))"

text \<open>A task of the acceptance run, with its position.\<close>

definition launchForVerify :: "AdminEnv \<Rightarrow> string \<Rightarrow> string list \<Rightarrow> 'r AdminServer \<Rightarrow> nat \<times> 'r AdminServer" where
  "launchForVerify e bin args s = (length (ad_heap s), launch bin args (new_task e ''verify'' (utf8 [0xE9, 0xAA, 0x8C, 0xE6, 0x94, 0xB6, 0xE5, 0xAD, 0x90, 0xE4, 0xBB, 0xBB, 0xE5, 0x8A, 0xA1]) Map.empty) s)"

definition killTask :: "nat \<Rightarrow> 'r AdminServer \<Rightarrow> bool \<times> 'r AdminServer" where
  "killTask i s =
     (if tk_cmd (ad_heap s ! i) \<and> tk_process (ad_heap s ! i) then (True, kill i s) else (False, s))"

section \<open>The task table stays consistent\<close>

text \<open>
  Every step of the handlers and of the goroutines.  A stop may take effect on any task that its check
  once found; the acceptance run touches reports, its tasks and the store.
\<close>

inductive admin_step :: "'r AdminServer \<Rightarrow> 'r AdminServer \<Rightarrow> bool" where
  start: "admin_step s (snd (apiTestStart e body s))"
| verify: "admin_step s (snd (launchForVerify e bin args s))"
| stop: "i < length (ad_heap s) \<Longrightarrow> admin_step s (stop_act e i s)"
| kill: "admin_step s (snd (killTask i s))"
| run_begin: "i < length (ad_heap s) \<Longrightarrow> ad_phase s ! i = PNew \<Longrightarrow> admin_step s (run_begin e i started s)"
| run_line: "i < length (ad_heap s) \<Longrightarrow> ad_phase s ! i = PReading \<Longrightarrow> admin_step s (run_line i line s)"
| run_exit: "i < length (ad_heap s) \<Longrightarrow> ad_phase s ! i = PReading \<Longrightarrow> admin_step s (run_exit e i success code s)"
| report: "admin_step s (s\<lparr>ad_reports := rs, ad_last := l, ad_redis := g\<rparr>)"

definition ended :: "TestTask \<Rightarrow> bool" where
  "ended t \<longleftrightarrow> tk_Status t \<noteq> ''running''"

definition admin_ok :: "'r AdminServer \<Rightarrow> bool" where
  "admin_ok s \<longleftrightarrow> length (ad_phase s) = length (ad_heap s) \<and> length (ad_hist s) \<le> 50 \<and>
     (\<forall>i \<in> set (ad_hist s). i < length (ad_heap s) \<and> ended (ad_heap s ! i)) \<and>
     (\<forall>i < length (ad_heap s). length (tk_Log (ad_heap s ! i)) \<le> 300 \<and> (ad_phase s ! i = PDone \<longrightarrow> ended (ad_heap s ! i))) \<and>
     (\<forall>k i. ad_tasks s k = Some i \<longrightarrow> i < length (ad_heap s) \<and> tk_ID (ad_heap s ! i) = k)"

lemma admin_okI:
  assumes "length (ad_phase s) = length (ad_heap s)" "length (ad_hist s) \<le> 50"
    and "\<And>i. i \<in> set (ad_hist s) \<Longrightarrow> i < length (ad_heap s) \<and> ended (ad_heap s ! i)"
    and "\<And>i. i < length (ad_heap s) \<Longrightarrow> length (tk_Log (ad_heap s ! i)) \<le> 300 \<and> (ad_phase s ! i = PDone \<longrightarrow> ended (ad_heap s ! i))"
    and "\<And>k i. ad_tasks s k = Some i \<Longrightarrow> i < length (ad_heap s) \<and> tk_ID (ad_heap s ! i) = k"
  shows "admin_ok s"
  using assms unfolding admin_ok_def by blast

lemma launch_ok:
  assumes "admin_ok s" "length (tk_Log t) \<le> 300"
  shows "admin_ok (launch bin args t s)"
  using assms by (intro admin_okI) (auto simp: admin_ok_def launch_def nth_append less_Suc_eq split: if_splits)

text \<open>A task may be changed as long as it keeps its identity and a bounded log and does not run again.\<close>

lemma upd_task_ok:
  assumes "admin_ok s" "i < length (ad_heap s)" "tk_ID (f (ad_heap s ! i)) = tk_ID (ad_heap s ! i)"
    and "length (tk_Log (f (ad_heap s ! i))) \<le> 300" "ended (ad_heap s ! i) \<longrightarrow> ended (f (ad_heap s ! i))"
  shows "admin_ok (upd_task i f s)"
  using assms by (intro admin_okI) (auto simp: admin_ok_def upd_task_def nth_list_update)

lemma log_bounded: "admin_ok s \<Longrightarrow> i < length (ad_heap s) \<Longrightarrow> length (tk_Log (ad_heap s ! i)) \<le> 300"
  by (simp add: admin_ok_def)

lemma finishTask_ok:
  assumes "admin_ok s" "i < length (ad_heap s)" "status \<noteq> ''running''"
  shows "admin_ok (finishTask e i status m s)" "ended (ad_heap (finishTask e i status m s) ! i)"
    "length (ad_heap (finishTask e i status m s)) = length (ad_heap s)" "ad_phase (finishTask e i status m s) = ad_phase s"
proof -
  let ?f = "\<lambda>t. t\<lparr>tk_Status := status, tk_FinishedAt := now_text e, tk_ExitErr := m\<rparr>"
  have u: "admin_ok (upd_task i ?f s)"
    using assms log_bounded [OF assms(1,2)] by (intro upd_task_ok) (auto simp: ended_def)
  then show "admin_ok (finishTask e i status m s)"
    unfolding finishTask_def using assms(2,3)
    by (intro admin_okI) (auto simp: admin_ok_def upd_task_def ended_def split: if_splits dest!: in_set_takeD)
  show "ended (ad_heap (finishTask e i status m s) ! i)" "length (ad_heap (finishTask e i status m s)) = length (ad_heap s)"
    "ad_phase (finishTask e i status m s) = ad_phase s"
    using assms(2,3) by (simp_all add: finishTask_def upd_task_def ended_def)
qed

lemma phase_ok:
  "admin_ok s \<Longrightarrow> (p = PDone \<Longrightarrow> ended (ad_heap s ! i)) \<Longrightarrow> admin_ok (s\<lparr>ad_phase := (ad_phase s)[i := p]\<rparr>)"
  by (intro admin_okI; cases "i < length (ad_phase s)") (auto simp: admin_ok_def nth_list_update split: if_splits)

lemma log_line_log: "length (tk_Log (log_line l t)) \<le> 300 \<and> tk_ID (log_line l t) = tk_ID t \<and> (ended (log_line l t) \<longleftrightarrow> ended t)"
  by (auto simp: log_line_def ended_def Let_def split: option.split)

lemma admin_step_ok:
  assumes "admin_step s s'" "admin_ok s"
  shows "admin_ok s'"
  using assms
proof (cases rule: admin_step.cases)
  case (start e body)
  then show ?thesis
    using launch_ok [OF assms(2)] assms(2) by (auto simp: apiTestStart_def new_task_def Let_def split: sum.split)
next
  case (verify e bin args)
  then show ?thesis using launch_ok [OF assms(2)] by (simp add: launchForVerify_def new_task_def)
next
  case (stop i e)
  have "admin_ok (kill i s)" using assms(2) by (simp add: admin_ok_def kill_def)
  then show ?thesis using stop assms(2) by (auto simp: stop_act_def kill_def intro!: finishTask_ok(1))
next
  case (run_begin i e started)
  let ?s = "upd_task i (\<lambda>t. t\<lparr>tk_cmd := True\<rparr>) s"
  have s: "admin_ok ?s" "i < length (ad_heap ?s)" "ad_phase ?s = ad_phase s"
    using run_begin log_bounded [OF assms(2)] by (auto intro!: upd_task_ok assms(2) simp: ended_def) (simp_all add: upd_task_def)
  show ?thesis
  proof (cases started)
    case (Inl er)
    then show ?thesis
      using run_begin(1) finishTask_ok [OF s(1,2), of "''failed''" e er] phase_ok [of "finishTask e i ''failed'' er ?s" PDone i] s(3)
      by (simp add: run_begin_def)
  next
    case (Inr pid)
    have "admin_ok (upd_task i (\<lambda>t. t\<lparr>tk_pid := pid, tk_process := True\<rparr>) ?s)"
      by (rule upd_task_ok [OF s(1,2)]) (use log_bounded [OF s(1,2)] in \<open>simp_all add: ended_def\<close>)
    from phase_ok [OF this, of PReading i] show ?thesis using run_begin(1) Inr by (simp add: run_begin_def upd_task_def)
  qed
next
  case (run_line i line)
  then show ?thesis using log_line_log by (auto simp: run_line_def intro!: upd_task_ok [OF assms(2)])
next
  case (run_exit i e success code)
  then show ?thesis
    using finishTask_ok [OF assms(2) run_exit(2), of "''done''"] finishTask_ok [OF assms(2) run_exit(2), of "''failed''"]
      phase_ok [of "finishTask e i ''done'' [] s" PDone i] phase_ok [of "finishTask e i ''failed'' (''exit code='' @ show_int code) s" PDone i]
    by (simp add: run_exit_def)
qed (auto simp: admin_ok_def killTask_def kill_def)

text \<open>
  C34: Whatever the requests and however processes start, print and end, the history holds at most 50
  entries and only tasks that have ended, no log exceeds 300 lines, a task whose goroutine has ended is
  never shown as running, and every identifier of the table leads to the task that has it.
\<close>

theorem tasks_consistent:
  assumes "admin_step\<^sup>*\<^sup>* (admin_New cfg g) s"
  shows "admin_ok s"
  using assms
proof (induction rule: rtranclp_induct)
  case base
  show ?case by (simp add: admin_ok_def admin_New_def)
qed (rule admin_step_ok)

text \<open>A console with the binaries in place, and one task of it.\<close>

definition small_admin_env :: AdminEnv where
  "small_admin_env = \<lparr>ae_now = 1700000000, ae_fmt = show_int, ae_exists = \<lambda>_. True\<rparr>"

definition small_admin :: "unit AdminServer" where
  "small_admin = admin_New DefaultConfig
     \<lparr>localMode = True, store = (), localGateways = Map.empty, localOnline = Map.empty, localIoTDev = Map.empty, published = []\<rparr>"

theorem tasks_consistent_witness:
  "admin_ok (stop_act small_admin_env 0 (snd (launchForVerify small_admin_env [] [] small_admin)))"
proof -
  let ?s = "snd (launchForVerify small_admin_env [] [] small_admin)"
  have "admin_step\<^sup>*\<^sup>* small_admin ?s" by (rule r_into_rtranclp) (rule admin_step.verify)
  moreover have "admin_step ?s (stop_act small_admin_env 0 ?s)" by (rule admin_step.stop) (simp add: launchForVerify_def launch_def)
  ultimately have "admin_step\<^sup>*\<^sup>* small_admin (stop_act small_admin_env 0 ?s)" by (rule rtranclp.rtrancl_into_rtrancl)
  then show ?thesis unfolding small_admin_def by (rule tasks_consistent)
qed

section \<open>A stopped task\<close>

text \<open>
  Stopping a task does not last.  The stop kills the process and records the task as stopped, but
  the goroutine then sees a process that did not succeed: the task ends up failed with the exit code of
  the kill, and is in the history twice.
\<close>

theorem stopped_task_ends_failed:
  assumes "stop_check k s = Some i" "i < length (ad_heap s)" "tk_cmd (ad_heap s ! i)" "tk_process (ad_heap s ! i)"
    and "apiTestStop e k s = (rep, s1)" "s2 = run_exit e' i False code s1"
  shows "rep = JsonObject [(''id'', k), (''status'', ''stopped'')] \<and> ad_kills s1 = ad_kills s @ [i] \<and>
    tk_Status (ad_heap s1 ! i) = ''stopped'' \<and> tk_Status (ad_heap s2 ! i) = ''failed'' \<and>
    tk_ExitErr (ad_heap s2 ! i) = ''exit code='' @ show_int code \<and> take 2 (ad_hist s2) = [i, i]"
  using assms by (auto simp: apiTestStop_def stop_act_def kill_def run_exit_def finishTask_def upd_task_def)

theorem stopped_task_ends_failed_witness:
  "let s = run_begin small_admin_env 0 (Inr 42) (snd (launchForVerify small_admin_env [] [] small_admin));
       k = tk_ID (ad_heap s ! 0); s1 = snd (apiTestStop small_admin_env k s)
   in tk_Status (ad_heap s1 ! 0) = ''stopped'' \<and> tk_Status (ad_heap (run_exit small_admin_env 0 False (- 1) s1) ! 0) = ''failed''"
proof -
  let ?s = "run_begin small_admin_env 0 (Inr 42) (snd (launchForVerify small_admin_env [] [] small_admin))"
  let ?k = "tk_ID (ad_heap ?s ! 0)"
  have "stop_check ?k ?s = Some 0" "0 < length (ad_heap ?s)" "tk_cmd (ad_heap ?s ! 0)" "tk_process (ad_heap ?s ! 0)"
    by (simp_all add: stop_check_def run_begin_def upd_task_def launchForVerify_def launch_def new_task_def small_admin_def admin_New_def Let_def)
  from stopped_task_ends_failed [OF this prod.collapse [symmetric] refl, of small_admin_env small_admin_env "- 1"]
  show ?thesis by (simp add: Let_def)
qed

section \<open>Metrics are read back\<close>

definition metric_text :: "(string \<times> nat) list \<Rightarrow> string" where
  "metric_text kvs = concat (map (\<lambda>(k, v). k @ ''='' @ show_nat v @ '' '') kvs)"

definition metric_name :: "string \<Rightarrow> bool" where
  "metric_name k \<longleftrightarrow> k \<noteq> [] \<and> list_all is_word k"

lemma no_word: "\<not> is_word (CHR ''='')" "\<not> is_word (CHR '' '')" "\<not> is_digit (CHR '' '')"
  by (simp_all add: is_word_def is_digit_def)

lemma takeWhile_all: "list_all P xs \<Longrightarrow> \<not> P c \<Longrightarrow> takeWhile P (xs @ c # r) = xs \<and> dropWhile P (xs @ c # r) = c # r"
  by (induction xs) auto

lemma metric_matches_text:
  "list_all (metric_name \<circ> fst) kvs \<Longrightarrow> metric_matches (metric_text kvs) = map (\<lambda>(k, v). (k, show_nat v)) kvs"
proof (induction kvs)
  case (Cons kv kvs)
  obtain k v where kv: "kv = (k, v)" by fastforce
  then have k: "k \<noteq> []" "list_all is_word k" using Cons.prems by (auto simp: metric_name_def)
  let ?r = "metric_text kvs" and ?d = "show_nat v @ CHR '' '' # metric_text kvs"
  have w: "takeWhile is_word (k @ CHR ''='' # ?d) = k" "dropWhile is_word (k @ CHR ''='' # ?d) = CHR ''='' # ?d"
    using takeWhile_all [OF k(2) no_word(1)] by blast+
  have d: "takeWhile is_digit ?d = show_nat v" "dropWhile is_digit ?d = CHR '' '' # ?r"
    using takeWhile_all [OF show_nat_digits no_word(3)] by blast+
  obtain c cs where c: "k @ CHR ''='' # ?d = c # cs" "is_word c" using k by (cases k) auto
  have "metric_matches (k @ CHR ''='' # ?d) = (k, show_nat v) # metric_matches (CHR '' '' # ?r)"
    using w d c by (simp add: Let_def)
  also have "metric_matches (CHR '' '' # ?r) = metric_matches ?r" using no_word(2) by simp
  finally show ?case using Cons by (simp add: kv metric_text_def)
qed (simp add: metric_text_def)

lemma after_bracket_split: "CHR '']'' \<notin> set pre \<Longrightarrow> after_bracket (pre @ CHR '']'' # CHR '' '' # r) = Some r"
proof (induction pre)
  case (Cons c pre)
  then show ?case by (cases pre) auto
qed simp

lemma sscanf_show_nat: "v < 2 ^ 63 \<Longrightarrow> sscanf_d (show_nat v) 0 = int v"
proof -
  assume v: "v < 2 ^ 63"
  have h: "hd (show_nat v) \<noteq> CHR '' ''" "hd (show_nat v) \<noteq> CHR ''-''" "hd (show_nat v) \<noteq> CHR ''+''"
    using show_nat_hd_digit [of v] by auto
  have "dropWhile (\<lambda>c. c = CHR '' '') (show_nat v) = show_nat v" using h by (cases "show_nat v") auto
  moreover have tw: "takeWhile is_digit (show_nat v) = show_nat v" using show_nat_digits [of v] by (simp add: list_all_iff)
  moreover have "parse_int64 (show_nat v) = Some (int v)"
    using parse_show_int [of "int v"] v by (simp add: parse_int64_def show_int_def)
  ultimately show ?thesis using h by (simp add: sscanf_d_def Let_def tw)
qed

text \<open>
  A progress line of a load test, a prefix in brackets and counters written as name=number, sets
  exactly these counters of the task to the numbers written, the last one for a repeated name, and
  leaves all other counters as they were.
\<close>

theorem metrics_read_back:
  assumes "CHR '']'' \<notin> set pre" "list_all (metric_name \<circ> fst) kvs" "list_all (\<lambda>(k, v). v < 2 ^ 63) kvs" "i < length (ad_heap s)"
  shows "tk_Metrics (ad_heap (run_line i (pre @ ''] '' @ metric_text kvs) s) ! i) =
    tk_Metrics (ad_heap s ! i) ++ map_of (rev (map (\<lambda>(k, v). (k, int v)) kvs))"
proof -
  have "fold (\<lambda>(k, v) m. m(k \<mapsto> sscanf_d v 0)) (map (\<lambda>(k, v). (k, show_nat v)) kvs) m = m ++ map_of (rev (map (\<lambda>(k, v). (k, int v)) kvs))" for m
    using assms(3) by (induction kvs arbitrary: m) (auto simp: sscanf_show_nat map_add_def fun_eq_iff split: option.split)
  then show ?thesis
    using assms(4) after_bracket_split [OF assms(1), of "metric_text kvs"] metric_matches_text [OF assms(2)]
    by (simp add: run_line_def upd_task_def log_line_def parse_metrics_def Let_def)
qed

theorem metrics_read_back_witness:
  "tk_Metrics (ad_heap (run_line 0 (''[2s'' @ ''] '' @ metric_text [(''dialed'', 7), (''auth_ok'', 5)])
     (snd (launchForVerify small_admin_env [] [] small_admin))) ! 0) ''auth_ok'' = Some 5"
  using metrics_read_back [of "''[2s''" "[(''dialed'', 7), (''auth_ok'', 5)]" 0 "snd (launchForVerify small_admin_env [] [] small_admin)"]
  by (simp add: launchForVerify_def launch_def metric_name_def is_word_def is_digit_def)

end
