(* ===== verification/AdminVerify.thy ===== *)
theory AdminVerify
  imports Admin Shadow
begin

text \<open>
  The admin console, second part: routing and the one-click acceptance run of
  \<^verbatim>\<open>internal/gateway/admin/admin.go\<close>.  The run is one goroutine that starts tasks and polls them every two
  seconds; what the other goroutines do in each of these pauses is an argument, and a list that ends
  is the deadline or the end of the context.  Properties: the verdict is the one the cases give, what
  the run passes without testing, and which keys its preparation clears.
\<close>

section \<open>Requests\<close>

datatype route = ROverview | RShadows | RConfig | RTestStart | RTestList | RTestStop | RVerifyRun | RVerifyReport | RError int string

definition admin_Handler :: "string \<Rightarrow> string \<Rightarrow> route" where
  "admin_Handler method url =
     (let p = TrimPrefix url ''/api/admin/''; path = (if p = [] then ''overview'' else p) in
      if path = ''overview'' then ROverview
      else if path = ''shadows'' then RShadows
      else if path = ''config'' then RConfig
      else if path = ''test'' then
        (if method = ''POST'' then RTestStart else if method = ''GET'' then RTestList else RError 405 ''method not allowed'')
      else if path = ''test/stop'' then RTestStop
      else if path = ''verify'' then
        (if method = ''POST'' then RVerifyRun else if method = ''GET'' then RVerifyReport else RError 405 ''method not allowed'')
      else RError 404 ''unknown api'')"

text \<open>A request for a run starts one, in the report at the position returned, unless the last one is not finished.\<close>

definition apiVerifyRun :: "AdminEnv \<Rightarrow> 'r AdminServer \<Rightarrow> (admin_reply \<times> nat option) \<times> 'r AdminServer" where
  "apiVerifyRun e s =
     (if (case ad_last s of None \<Rightarrow> False | Some r \<Rightarrow> vr_FinishedAt (ad_reports s ! r) = [])
      then ((JsonObject [(''error'', (utf8 [0xE9, 0xAA, 0x8C, 0xE6, 0x94, 0xB6, 0xE5, 0xB7, 0xB2, 0xE5, 0x9C, 0xA8, 0xE8, 0xBF, 0x9B, 0xE8, 0xA1, 0x8C, 0xE4, 0xB8, 0xAD, 0xEF, 0xBC, 0x8C, 0xE8, 0xAF, 0xB7, 0xE7, 0xAD, 0x89, 0xE5, 0xBE, 0x85, 0xE5, 0xAE, 0x8C, 0xE6, 0x88, 0x90]))], None), s)
      else (let rp = \<lparr>vr_ID = ''v'' @ show_int (ae_now e mod 100000000), vr_StartedAt = now_text e, vr_FinishedAt = [],
                      vr_Cases = [], vr_Passed = 0, vr_Failed = 0, vr_Skipped = 0, vr_AllPass = False\<rparr>;
                r = length (ad_reports s)
            in ((JsonObject [(''id'', vr_ID rp), (''status'', ''running'')], Some r),
                s\<lparr>ad_reports := ad_reports s @ [rp], ad_last := Some r\<rparr>)))"

definition apiVerifyReport :: "'r AdminServer \<Rightarrow> admin_reply" where
  "apiVerifyReport s = (case ad_last s of
     None \<Rightarrow> JsonObject [(''error'', ''no report yet'')] | Some r \<Rightarrow> ReportReply (ad_reports s ! r))"

section \<open>Cases\<close>

definition push_case :: "VerifyCase \<Rightarrow> VerifyReport \<Rightarrow> VerifyReport" where
  "push_case c rp =
     (let rp1 = rp\<lparr>vr_Cases := vr_Cases rp @ [c]\<rparr> in
      if vc_Status c = ''pass'' then rp1\<lparr>vr_Passed := vr_Passed rp + 1\<rparr>
      else if vc_Status c = ''fail'' then rp1\<lparr>vr_Failed := vr_Failed rp + 1\<rparr>
      else rp1\<lparr>vr_Skipped := vr_Skipped rp + 1\<rparr>)"

definition add_case :: "nat \<Rightarrow> string \<Rightarrow> string \<Rightarrow> string \<Rightarrow> string \<Rightarrow> (string \<rightharpoonup> int) \<Rightarrow> 'r AdminServer \<Rightarrow> 'r AdminServer" where
  "add_case rp nm status detail dur m s =
     s\<lparr>ad_reports := (ad_reports s)[rp := push_case
         \<lparr>vc_Name = nm, vc_Status = status, vc_Duration = dur, vc_Detail = detail, vc_Metrics = m\<rparr> (ad_reports s ! rp)]\<rparr>"

text \<open>A counter that was not printed reads as zero.\<close>

definition mget :: "(string \<rightharpoonup> int) \<Rightarrow> string \<Rightarrow> int" where
  "mget m k = (case m k of None \<Rightarrow> 0 | Some v \<Rightarrow> v)"

type_synonym 'r pauses = "('r AdminServer \<Rightarrow> 'r AdminServer) list"

fun waitTask :: "'r pauses \<Rightarrow> nat \<Rightarrow> 'r AdminServer \<Rightarrow> (string \<rightharpoonup> int) option \<times> 'r AdminServer" where
  "waitTask [] t s =
     (if tk_Status (ad_heap s ! t) \<noteq> ''running'' then (Some (cloneMetrics (tk_Metrics (ad_heap s ! t))), s) else (None, s))"
| "waitTask (p # ps) t s =
     (if tk_Status (ad_heap s ! t) \<noteq> ''running'' then (Some (cloneMetrics (tk_Metrics (ad_heap s ! t))), s)
      else waitTask ps t (p s))"

text \<open>
  The answer to the health request: none, or the decoded object, absent when it did not decode.  Values
  are kept as strings or as what \<^verbatim>\<open>%v\<close> prints of them.
\<close>

datatype hval = HStr string | HOther string

fun show_v :: "hval option \<Rightarrow> string" where
  "show_v None = ''<nil>''"
| "show_v (Some (HStr t)) = t"
| "show_v (Some (HOther t)) = t"

definition overviewSnapshot :: "(string \<rightharpoonup> hval) option option \<Rightarrow> (string \<rightharpoonup> hval)" where
  "overviewSnapshot answer = (case answer of
     None \<Rightarrow> [''status'' \<mapsto> HStr ''error'']
   | Some None \<Rightarrow> [''status'' \<mapsto> HStr ''unknown'']
   | Some (Some m) \<Rightarrow> m)"

definition verify_health :: "(string \<rightharpoonup> hval) option option \<Rightarrow> nat \<Rightarrow> string \<Rightarrow> 'r AdminServer \<Rightarrow> 'r AdminServer" where
  "verify_health answer rp dur s =
     (let ov = overviewSnapshot answer;
          detail = ''cend_conns='' @ show_v (ov ''cend_conns'') @ '' iot_devices='' @ show_v (ov ''iot_devices'') @
                   '' quic_conns='' @ show_v (ov ''quic_conns'')
      in if ov ''status'' \<noteq> Some (HStr ''ok'')
         then add_case rp (utf8 [0xE5, 0x81, 0xA5, 0xE5, 0xBA, 0xB7, 0xE6, 0xA3, 0x80, 0xE6, 0x9F, 0xA5] @ '' /health'') ''fail'' ''health status != ok'' dur Map.empty s
         else add_case rp (utf8 [0xE5, 0x81, 0xA5, 0xE5, 0xBA, 0xB7, 0xE6, 0xA3, 0x80, 0xE6, 0x9F, 0xA5] @ '' /health'') ''pass'' detail dur Map.empty s)"

definition verify_redis :: "nat \<Rightarrow> string \<Rightarrow> 'r AdminServer \<Rightarrow> 'r AdminServer" where
  "verify_redis rp dur s =
     (if IsLocalMode (ad_redis s)
      then add_case rp (''Redis '' @ utf8 [0xE8, 0xBF, 0x9E, 0xE6, 0x8E, 0xA5]) ''warn'' (''Redis '' @ utf8 [0xE6, 0x9C, 0xAC, 0xE5, 0x9C, 0xB0, 0xE9, 0x99, 0x8D, 0xE7, 0xBA, 0xA7, 0xE6, 0xA8, 0xA1, 0xE5, 0xBC, 0x8F, 0xEF, 0xBC, 0x9A, 0xE5, 0xBD, 0xB1, 0xE5, 0xAD, 0x90, 0xE8, 0xB7, 0xA8, 0xE8, 0xBF, 0x9B, 0xE7, 0xA8, 0x8B] @ ''/'' @ utf8 [0xE6, 0x8C, 0x87, 0xE4, 0xBB, 0xA4, 0xE5, 0x8F, 0x91, 0xE5, 0xB8, 0x83, 0xE8, 0xAE, 0xA2, 0xE9, 0x98, 0x85, 0xE4, 0xB8, 0x8D, 0xE5, 0x8F, 0xAF, 0xE7, 0x94, 0xA8, 0xEF, 0xBC, 0x8C, 0xE9, 0xAA, 0x8C, 0xE6, 0x94, 0xB6, 0xE5, 0x8A, 0x9F, 0xE8, 0x83, 0xBD, 0xE5, 0x8F, 0x97, 0xE9, 0x99, 0x90]) dur Map.empty s
      else add_case rp (''Redis '' @ utf8 [0xE8, 0xBF, 0x9E, 0xE6, 0x8E, 0xA5]) ''pass'' (''addr='' @ red_Addr (cfg_Redis (ad_cfg s))) dur Map.empty s)"

definition verifyCend :: "AdminEnv \<Rightarrow> 'r pauses \<Rightarrow> nat \<Rightarrow> string \<Rightarrow> 'r AdminServer \<Rightarrow> 'r AdminServer" where
  "verifyCend e ps rp dur s =
     (case binaryPaths e (ad_cfg s) of
        Inl er \<Rightarrow> add_case rp (''C'' @ utf8 [0xE7, 0xAB, 0xAF, 0xE8, 0xBF, 0x9E, 0xE6, 0x8E, 0xA5, 0xE9, 0xAA, 0x8C, 0xE6, 0x94, 0xB6]) ''skip'' (show_failure er) dur Map.empty s
      | Inr (iotBin, cendBin) \<Rightarrow>
          (let (task, s1) = launchForVerify e cendBin [''-conns'', ''500'', ''-concurrency'', ''50'', ''-tokens'', ''build/tokens_quic.txt'',
                 ''-keep-alive'', ''25''] s;
               (metrics, s2) = waitTask ps task s1 in
           case metrics of
             None \<Rightarrow> add_case rp (''C'' @ utf8 [0xE7, 0xAB, 0xAF, 0xE8, 0xBF, 0x9E, 0xE6, 0x8E, 0xA5, 0xE9, 0xAA, 0x8C, 0xE6, 0x94, 0xB6]) ''fail'' (utf8 [0xE4, 0xBB, 0xBB, 0xE5, 0x8A, 0xA1, 0xE6, 0x9C, 0xAA, 0xE5, 0x9C, 0xA8] @ '' 90s '' @ utf8 [0xE5, 0x86, 0x85, 0xE5, 0xAE, 0x8C, 0xE6, 0x88, 0x90, 0xE6, 0x88, 0x96, 0xE8, 0xB6, 0x85, 0xE6, 0x97, 0xB6]) dur Map.empty (snd (killTask task s2))
           | Some m \<Rightarrow>
               (let tot = mget m ''dialed''; authOK = mget m ''auth_ok''; connFail = mget m ''conn_fail'';
                    pass = (tot > 0 \<and> wrap64 (authOK * 100) \<ge> wrap64 (tot * 99) \<and> connFail = 0);
                    detail = ''dialed='' @ show_int tot @ '' auth_ok='' @ show_int authOK @ '' conn_fail='' @ show_int connFail
                in add_case rp (''C'' @ utf8 [0xE7, 0xAB, 0xAF, 0xE8, 0xBF, 0x9E, 0xE6, 0x8E, 0xA5, 0xE9, 0xAA, 0x8C, 0xE6, 0x94, 0xB6]) (if pass then ''pass'' else ''fail'') detail dur m s2)))"

definition iot_case :: "string \<Rightarrow> string" where
  "iot_case transport = (''IoT'' @ utf8 [0xE8, 0xBF, 0x9E, 0xE6, 0x8E, 0xA5, 0xE9, 0xAA, 0x8C, 0xE6, 0x94, 0xB6] @ ''('') @ transport @ '')''"

definition verifyIoT :: "AdminEnv \<Rightarrow> 'r pauses \<Rightarrow> string \<Rightarrow> nat \<Rightarrow> string \<Rightarrow> 'r AdminServer \<Rightarrow> 'r AdminServer" where
  "verifyIoT e ps transport rp dur s =
     (case binaryPaths e (ad_cfg s) of
        Inl er \<Rightarrow> add_case rp (iot_case transport) ''skip'' (show_failure er) dur Map.empty s
      | Inr (iotBin, cendBin) \<Rightarrow>
          (let port = (if transport = ''quic'' then iot_QUICPort (cfg_IoT (ad_cfg s)) else iot_Port (cfg_IoT (ad_cfg s)));
               (task, s1) = launchForVerify e iotBin [''-transport'', transport, ''-addr'', ''127.0.0.1:'' @ show_int port,
                 ''-devices'', ''500'', ''-concurrency'', ''100'', ''-keep-alive'', ''25'', ''-ping-interval'', ''5''] s;
               (metrics, s2) = waitTask ps task s1 in
           case metrics of
             None \<Rightarrow> add_case rp (iot_case transport) ''fail'' (utf8 [0xE4, 0xBB, 0xBB, 0xE5, 0x8A, 0xA1, 0xE6, 0x9C, 0xAA, 0xE5, 0x9C, 0xA8] @ '' 120s '' @ utf8 [0xE5, 0x86, 0x85, 0xE5, 0xAE, 0x8C, 0xE6, 0x88, 0x90, 0xE6, 0x88, 0x96, 0xE8, 0xB6, 0x85, 0xE6, 0x97, 0xB6]) dur Map.empty (snd (killTask task s2))
           | Some m \<Rightarrow>
               (let sent = mget m ''connect_sent''; connack = mget m ''connack''; active = mget m ''active''; errs = mget m ''errors'';
                    pass = (sent > 0 \<and> wrap64 (connack * 100) \<ge> wrap64 (sent * 90) \<and> errs = 0 \<and> wrap64 (active * 100) \<ge> wrap64 (sent * 90));
                    detail = ''connect_sent='' @ show_int sent @ '' connack='' @ show_int connack @ '' active='' @ show_int active @
                             '' errors='' @ show_int errs
                in add_case rp (iot_case transport) (if pass then ''pass'' else ''fail'') detail dur m s2)))"

text \<open>The Redis commands only the console uses: the keys with a prefix, and deleting keys.\<close>

record 'r admin_ops =
  KEYS :: "'r \<Rightarrow> string \<Rightarrow> string list"
  DEL :: "'r \<Rightarrow> string list \<Rightarrow> 'r"

definition segment_offset :: "AdminEnv \<Rightarrow> int" where
  "segment_offset e = 150000 + ((ae_now e div 1000000000) mod 50) * 100"

definition clear_keys :: "'r redis_ops \<Rightarrow> 'r admin_ops \<Rightarrow> string \<Rightarrow> 'r RedisState \<Rightarrow> 'r RedisState" where
  "clear_keys ops aops pat g =
     (case store_call ops g (\<lambda>r. (Inr (KEYS aops r pat), r)) of
        (Inr keys, g1) \<Rightarrow> if keys = [] then g1 else snd (store_call ops g1 (\<lambda>r. (Inr (), DEL aops r keys)))
      | (Inl _, g1) \<Rightarrow> g1)"

definition clear_segment :: "'r redis_ops \<Rightarrow> 'r admin_ops \<Rightarrow> int \<Rightarrow> 'r RedisState \<Rightarrow> 'r RedisState" where
  "clear_segment ops aops offset g =
     (if localMode g then g
      else fold (clear_keys ops aops)
        [''shadow:dev:device_'' @ show_int offset, ''shadow:online:device_'' @ show_int offset, ''cmd:q:device_'' @ show_int offset] g)"

text \<open>
  The command loop.  \<open>e0\<close> and \<open>e1\<close> are the clocks of its two launches; a pause that is None is ended by
  the context.
\<close>

definition cmd_case :: string where
  "cmd_case = (utf8 [0xE6, 0x8C, 0x87, 0xE4, 0xBB, 0xA4, 0xE9, 0x97, 0xAD, 0xE7, 0x8E, 0xAF, 0xE9, 0xAA, 0x8C, 0xE6, 0x94, 0xB6])"

definition cmd_iot_args :: "Config \<Rightarrow> int \<Rightarrow> string list" where
  "cmd_iot_args cfg offset = [''-transport'', ''quic'', ''-addr'', ''127.0.0.1:'' @ show_int (iot_QUICPort (cfg_IoT cfg)), ''-devices'', ''100'',
     ''-device-offset'', show_int offset, ''-concurrency'', ''50'', ''-keep-alive'', ''70'', ''-ping-interval'', ''5'']"

definition cmd_cend_args :: "int \<Rightarrow> string list" where
  "cmd_cend_args offset = [''-conns'', ''5'', ''-concurrency'', ''1'', ''-tokens'', ''build/tokens_quic.txt'', ''-biz'', ''-biz-target'', ''5'',
     ''-device-prefix'', ''device_'', ''-device-offset'', show_int offset, ''-keep-alive'', ''20'']"

definition cmd_verdict :: "nat \<Rightarrow> string \<Rightarrow> (string \<rightharpoonup> int) \<Rightarrow> (string \<rightharpoonup> int) \<Rightarrow> 'r AdminServer \<Rightarrow> 'r AdminServer" where
  "cmd_verdict rp dur cm im s =
     (let bizSent = mget cm ''biz_sent''; bizOK = mget cm ''biz_ok''; biz409 = mget cm ''biz_409'';
          cmdCnt = mget im ''cmd''; cmdAck = mget im ''cmdack'';
          detail = ''biz_sent='' @ show_int bizSent @ '' biz_ok='' @ show_int bizOK @ '' biz_409='' @ show_int biz409 @
                   '' iot_cmd='' @ show_int cmdCnt @ '' iot_cmdack='' @ show_int cmdAck
      in if bizSent > 0 \<and> (bizOK > 0 \<or> biz409 > 0) \<and> cmdCnt > 0 \<and> cmdAck > 0
         then add_case rp cmd_case ''pass'' detail dur
                [''biz_ok'' \<mapsto> bizOK, ''biz_409'' \<mapsto> biz409, ''cmd'' \<mapsto> cmdCnt, ''cmdack'' \<mapsto> cmdAck] s
         else add_case rp cmd_case ''fail'' detail dur Map.empty s)"

definition verifyCmdLoop :: "'r redis_ops \<Rightarrow> 'r admin_ops \<Rightarrow> AdminEnv \<Rightarrow> AdminEnv \<Rightarrow>
    ('r AdminServer \<Rightarrow> 'r AdminServer) option \<Rightarrow> 'r pauses \<Rightarrow> ('r AdminServer \<Rightarrow> 'r AdminServer) option \<Rightarrow>
    nat \<Rightarrow> string \<Rightarrow> 'r AdminServer \<Rightarrow> 'r AdminServer" where
  "verifyCmdLoop ops aops e0 e1 settle ps arrive rp dur s =
     (case binaryPaths e0 (ad_cfg s) of
        Inl er \<Rightarrow> add_case rp cmd_case ''skip'' (show_failure er) dur Map.empty s
      | Inr (iotBin, cendBin) \<Rightarrow>
          (let s1 = s\<lparr>ad_redis := clear_segment ops aops (segment_offset e0) (ad_redis s)\<rparr>;
               (iotTask, s2) = launchForVerify e0 iotBin (cmd_iot_args (ad_cfg s) (segment_offset e0)) s1
           in case settle of
                None \<Rightarrow> s2
              | Some p \<Rightarrow>
                  (let (cendTask, s3) = launchForVerify e1 cendBin (cmd_cend_args (segment_offset e0)) (p s2); (metrics, s4) = waitTask ps cendTask s3 in
                   case metrics of
                     None \<Rightarrow> snd (killTask iotTask (add_case rp cmd_case ''fail'' (''C'' @ utf8 [0xE7, 0xAB, 0xAF, 0xE6, 0x8C, 0x87, 0xE4, 0xBB, 0xA4, 0xE4, 0xBB, 0xBB, 0xE5, 0x8A, 0xA1, 0xE8, 0xB6, 0x85, 0xE6, 0x97, 0xB6]) dur Map.empty s4))
                   | Some cm \<Rightarrow>
                       (case arrive of
                          None \<Rightarrow> s4
                        | Some q \<Rightarrow>
                            (let s5 = q s4; im = cloneMetrics (tk_Metrics (ad_heap s5 ! iotTask))
                             in cmd_verdict rp dur cm im (snd (killTask iotTask s5)))))))"

definition shadow_case :: string where
  "shadow_case = (utf8 [0xE8, 0xAE, 0xBE, 0xE5, 0xA4, 0x87, 0xE5, 0xBD, 0xB1, 0xE5, 0xAD, 0x90, 0xE9, 0xAA, 0x8C, 0xE8, 0xAF, 0x81])"

definition verifyShadow :: "'r redis_ops \<Rightarrow> 'r admin_ops \<Rightarrow> nat \<Rightarrow> string \<Rightarrow> 'r AdminServer \<Rightarrow> 'r AdminServer" where
  "verifyShadow ops aops rp dur s =
     (if localMode (ad_redis s) then add_case rp shadow_case ''skip'' (''Redis '' @ utf8 [0xE6, 0x9C, 0xAC, 0xE5, 0x9C, 0xB0, 0xE6, 0xA8, 0xA1, 0xE5, 0xBC, 0x8F, 0xEF, 0xBC, 0x8C, 0xE8, 0xB7, 0xB3, 0xE8, 0xBF, 0x87]) dur Map.empty s
      else (case store_call ops (ad_redis s) (\<lambda>r. (Inr (KEYS aops r shadowKeyPrefix), r)) of
          (Inl er, g) \<Rightarrow>
            add_case rp shadow_case ''fail'' ((utf8 [0xE6, 0x9F, 0xA5, 0xE8, 0xAF, 0xA2] @ '' shadow:dev:* '' @ utf8 [0xE5, 0xA4, 0xB1, 0xE8, 0xB4, 0xA5] @ '': '') @ show_failure er) dur Map.empty (s\<lparr>ad_redis := g\<rparr>)
        | (Inr keys, g) \<Rightarrow>
            if keys \<noteq> [] then
              add_case rp shadow_case ''pass'' ((utf8 [0xE5, 0xBD, 0xB1, 0xE5, 0xAD, 0x90, 0xE8, 0xAE, 0xBE, 0xE5, 0xA4, 0x87, 0xE6, 0x95, 0xB0] @ ''='') @ show_int (int (length keys)) @ (utf8 [0xEF, 0xBC, 0x88] @ ''shadow:dev:* '' @ utf8 [0xE9, 0x94, 0xAE, 0xE6, 0x95, 0xB0, 0xEF, 0xBC, 0x89])) dur
                [''shadow_devices'' \<mapsto> int (length keys)] (s\<lparr>ad_redis := g\<rparr>)
            else add_case rp shadow_case ''fail'' (utf8 [0xE6, 0x97, 0xA0, 0xE5, 0xBD, 0xB1, 0xE5, 0xAD, 0x90, 0xE8, 0xAE, 0xB0, 0xE5, 0xBD, 0x95, 0xEF, 0xBC, 0x88, 0xE9, 0x9C, 0x80, 0xE5, 0x85, 0x88, 0xE6, 0x9C, 0x89, 0xE8, 0xAE, 0xBE, 0xE5, 0xA4, 0x87, 0xE8, 0xBF, 0x9E, 0xE6, 0x8E, 0xA5, 0xE8, 0xBF, 0x87, 0xEF, 0xBC, 0x89]) dur Map.empty (s\<lparr>ad_redis := g\<rparr>)))"

section \<open>The run\<close>

record 'r VerifyEnv =
  v_ops :: "'r redis_ops"
  v_aops :: "'r admin_ops"
  v_env :: "nat \<Rightarrow> AdminEnv"
    \<comment> \<open>the clock at each launch and at the end\<close>
  v_dur :: "nat \<Rightarrow> string"
  v_health :: "(string \<rightharpoonup> hval) option option"
  v_cend :: "'r pauses"
  v_udp :: "'r pauses"
  v_quic :: "'r pauses"
  v_settle :: "('r AdminServer \<Rightarrow> 'r AdminServer) option"
  v_cmd :: "'r pauses"
  v_arrive :: "('r AdminServer \<Rightarrow> 'r AdminServer) option"

definition finish_report :: "AdminEnv \<Rightarrow> nat \<Rightarrow> 'r AdminServer \<Rightarrow> 'r AdminServer" where
  "finish_report e rp s =
     s\<lparr>ad_reports := (ad_reports s)[rp := (ad_reports s ! rp)\<lparr>vr_FinishedAt := now_text e,
         vr_AllPass := (vr_Failed (ad_reports s ! rp) = 0 \<and> vr_Passed (ad_reports s ! rp) > 0)\<rparr>], ad_last := Some rp\<rparr>"

definition verify_cases :: "'r VerifyEnv \<Rightarrow> nat \<Rightarrow> 'r AdminServer \<Rightarrow> 'r AdminServer" where
  "verify_cases v rp s =
     (let s1 = verify_health (v_health v) rp (v_dur v 0) s;
          s2 = verify_redis rp (v_dur v 1) s1;
          s3 = verifyCend (v_env v 0) (v_cend v) rp (v_dur v 2) s2;
          s4 = verifyIoT (v_env v 1) (v_udp v) ''udp'' rp (v_dur v 3) s3;
          s5 = verifyIoT (v_env v 2) (v_quic v) ''quic'' rp (v_dur v 4) s4;
          s6 = verifyCmdLoop (v_ops v) (v_aops v) (v_env v 3) (v_env v 4) (v_settle v) (v_cmd v) (v_arrive v) rp (v_dur v 5) s5
      in verifyShadow (v_ops v) (v_aops v) rp (v_dur v 6) s6)"

definition runVerify :: "'r VerifyEnv \<Rightarrow> nat \<Rightarrow> 'r AdminServer \<Rightarrow> 'r AdminServer" where
  "runVerify v rp s = finish_report (v_env v 5) rp (verify_cases v rp s)"

section \<open>The verdict\<close>

text \<open>What the other goroutines do in a pause: they leave the reports alone.\<close>

definition others :: "('r AdminServer \<Rightarrow> 'r AdminServer) \<Rightarrow> bool" where
  "others p \<longleftrightarrow> (\<forall>s. ad_reports (p s) = ad_reports s)"

definition pauses_ok :: "'r VerifyEnv \<Rightarrow> bool" where
  "pauses_ok v \<longleftrightarrow> list_all others (v_cend v @ v_udp v @ v_quic v @ v_cmd v) \<and>
     pred_option others (v_settle v) \<and> pred_option others (v_arrive v)"

text \<open>A stage adds so many cases to the report of the run and touches no other report.\<close>

definition adds :: "nat \<Rightarrow> nat \<Rightarrow> 'r AdminServer \<Rightarrow> 'r AdminServer \<Rightarrow> bool" where
  "adds rp n s s' \<longleftrightarrow> (\<exists>cs. length cs = n \<and> ad_reports s' = (ad_reports s)[rp := fold push_case cs (ad_reports s ! rp)])"

lemma waitTask_reports: "list_all others ps \<Longrightarrow> ad_reports (snd (waitTask ps t s)) = ad_reports s"
  by (induction ps t s rule: waitTask.induct) (auto simp: others_def)

lemma reports_kept [simp]:
  "ad_reports (snd (launchForVerify e bin args s)) = ad_reports s" "ad_reports (snd (killTask i s)) = ad_reports s"
  by (simp_all add: launchForVerify_def launch_def killTask_def kill_def)

lemma polled_reports:
  "list_all others ps \<Longrightarrow> launchForVerify e bin args s = (t, s1) \<Longrightarrow> waitTask ps t s1 = (m, s2) \<Longrightarrow> ad_reports s2 = ad_reports s"
  using waitTask_reports [of ps t s1] reports_kept(1) [of e bin args s] by simp

lemma adds_case: "ad_reports s1 = ad_reports s \<Longrightarrow> adds rp (Suc 0) s (add_case rp nm st d dur m s1)"
  unfolding adds_def add_case_def
  by (intro exI [of _ "[\<lparr>vc_Name = nm, vc_Status = st, vc_Duration = dur, vc_Detail = d, vc_Metrics = m\<rparr>]"]) simp

lemma adds_none: "ad_reports s' = ad_reports s \<Longrightarrow> adds rp 0 s s'"
  by (simp add: adds_def)

lemma adds_trans:
  assumes "adds rp n s s'" "adds rp k s' s''"
  shows "adds rp (n + k) s s''"
proof -
  obtain cs ds where c: "length cs = n" "ad_reports s' = (ad_reports s)[rp := fold push_case cs (ad_reports s ! rp)]"
    "length ds = k" "ad_reports s'' = (ad_reports s')[rp := fold push_case ds (ad_reports s' ! rp)]"
    using assms unfolding adds_def by blast
  show ?thesis
    unfolding adds_def by (rule exI [of _ "cs @ ds"], cases "rp < length (ad_reports s)") (use c in \<open>auto simp: list_update_beyond\<close>)
qed

lemma adds_stages:
  "adds rp (Suc 0) s (verify_health a rp d s)" "adds rp (Suc 0) s (verify_redis rp d s)" "adds rp (Suc 0) s (verifyShadow ops aops rp d s)"
  by (simp_all add: verify_health_def verify_redis_def verifyShadow_def Let_def adds_case split: prod.split sum.split)

lemma adds_verifyCend: "list_all others ps \<Longrightarrow> adds rp (Suc 0) s (verifyCend e ps rp d s)"
  by (auto simp: verifyCend_def Let_def intro!: adds_case intro: polled_reports split: prod.splits sum.split option.split)

lemma adds_verifyIoT: "list_all others ps \<Longrightarrow> adds rp (Suc 0) s (verifyIoT e ps tr rp d s)"
  by (auto simp: verifyIoT_def Let_def intro!: adds_case intro: polled_reports split: prod.splits sum.split option.split)

lemma adds_verifyCmdLoop:
  assumes "list_all others ps" "pred_option others settle" "pred_option others arr"
  shows "\<exists>n \<le> 1. adds rp n s (verifyCmdLoop ops aops e0 e1 settle ps arr rp d s) \<and> (settle \<noteq> None \<longrightarrow> arr \<noteq> None \<longrightarrow> n = 1)"
proof -
  let ?r = "verifyCmdLoop ops aops e0 e1 settle ps arr rp d s"
  have one: "\<exists>n \<le> 1. adds rp n s (add_case rp nm st dt dur m s1) \<and> (settle \<noteq> None \<longrightarrow> arr \<noteq> None \<longrightarrow> n = 1)"
    if "ad_reports s1 = ad_reports s" for nm st dt dur m s1
    using adds_case [OF that] by (intro exI [of _ 1]) simp
  show ?thesis
  proof (cases "binaryPaths e0 (ad_cfg s)")
    case (Inl er)
    then show ?thesis using one by (simp add: verifyCmdLoop_def)
  next
    case (Inr bins)
    obtain iotBin cendBin where bins: "bins = (iotBin, cendBin)" by fastforce
    let ?s1 = "s\<lparr>ad_redis := clear_segment ops aops (segment_offset e0) (ad_redis s)\<rparr>"
    obtain i s2 where l: "launchForVerify e0 iotBin (cmd_iot_args (ad_cfg s) (segment_offset e0)) ?s1 = (i, s2)" by fastforce
    have s2: "ad_reports s2 = ad_reports s" using reports_kept(1) [of e0 iotBin "cmd_iot_args (ad_cfg s) (segment_offset e0)" ?s1] l by simp
    show ?thesis
    proof (cases settle)
      case None
      then show ?thesis using Inr bins l s2 by (intro exI [of _ 0]) (simp add: verifyCmdLoop_def adds_none)
    next
      case (Some p)
      obtain j s3 where l2: "launchForVerify e1 cendBin (cmd_cend_args (segment_offset e0)) (p s2) = (j, s3)" by fastforce
      obtain ms s4 where w: "waitTask ps j s3 = (ms, s4)" by fastforce
      have "ad_reports s3 = ad_reports s" using reports_kept(1) [of e1 cendBin "cmd_cend_args (segment_offset e0)" "p s2"] l2 s2 assms(2) Some by (simp add: others_def)
      then have s4: "ad_reports s4 = ad_reports s" using waitTask_reports [OF assms(1), of j s3] w by simp
      show ?thesis
      proof (cases ms)
        case None
        have "adds rp (Suc 0) s (snd (killTask i (add_case rp nm st dt dur m s4)))" for nm st dt dur m
          using adds_case [OF s4] by (simp add: adds_def)
        then show ?thesis using Inr bins l Some l2 w None by (intro exI [of _ 1]) (simp add: verifyCmdLoop_def)
      next
        case (Some cm)
        show ?thesis
        proof (cases arr)
          case None
          then show ?thesis
            using Inr bins l \<open>settle = Some p\<close> l2 w Some s4 by (intro exI [of _ 0]) (simp add: verifyCmdLoop_def adds_none)
        next
          case (Some q)
          have "ad_reports (q s4) = ad_reports s" using s4 assms(3) Some by (simp add: others_def)
          then show ?thesis
            using Inr bins l \<open>settle = Some p\<close> l2 w Some \<open>ms = Some cm\<close> one [of "snd (killTask i (q s4))"]
            by (simp add: verifyCmdLoop_def cmd_verdict_def Let_def)
        qed
      qed
    qed
  qed
qed

lemma verify_cases_adds:
  assumes "pauses_ok v"
  shows "\<exists>n \<in> {6, 7}. adds rp n s (verify_cases v rp s) \<and> (v_settle v \<noteq> None \<longrightarrow> v_arrive v \<noteq> None \<longrightarrow> n = 7)"
proof -
  have p: "list_all others (v_cend v)" "list_all others (v_udp v)" "list_all others (v_quic v)" "list_all others (v_cmd v)"
    "pred_option others (v_settle v)" "pred_option others (v_arrive v)"
    using assms by (simp_all add: pauses_ok_def)
  define s5 where "s5 = verifyIoT (v_env v 2) (v_quic v) ''quic'' rp (v_dur v 4) (verifyIoT (v_env v 1) (v_udp v) ''udp'' rp (v_dur v 3)
    (verifyCend (v_env v 0) (v_cend v) rp (v_dur v 2) (verify_redis rp (v_dur v 1) (verify_health (v_health v) rp (v_dur v 0) s))))"
  define s6 where "s6 = verifyCmdLoop (v_ops v) (v_aops v) (v_env v 3) (v_env v 4) (v_settle v) (v_cmd v) (v_arrive v) rp (v_dur v 5) s5"
  have five: "adds rp (Suc 0 + Suc 0 + Suc 0 + Suc 0 + Suc 0) s s5"
    unfolding s5_def by (rule adds_trans [OF adds_trans [OF adds_trans [OF adds_trans [OF adds_stages(1,2)]
      adds_verifyCend [OF p(1)]] adds_verifyIoT [OF p(2)]] adds_verifyIoT [OF p(3)]])
  obtain n where n: "n \<le> 1" "adds rp n s5 s6" "v_settle v \<noteq> None \<longrightarrow> v_arrive v \<noteq> None \<longrightarrow> n = 1"
    using adds_verifyCmdLoop [OF p(4-6)] unfolding s6_def by blast
  have "adds rp (Suc 0 + Suc 0 + Suc 0 + Suc 0 + Suc 0 + n + Suc 0) s (verifyShadow (v_ops v) (v_aops v) rp (v_dur v 6) s6)"
    by (rule adds_trans [OF adds_trans [OF five n(2)] adds_stages(3)])
  moreover have "verify_cases v rp s = verifyShadow (v_ops v) (v_aops v) rp (v_dur v 6) s6"
    by (simp add: verify_cases_def Let_def s5_def s6_def)
  ultimately have "adds rp (6 + n) s (verify_cases v rp s)" by (simp add: eval_nat_numeral)
  then show ?thesis using n(1,3) by (intro bexI [of _ "6 + n"]) auto
qed

definition count_status :: "string \<Rightarrow> VerifyReport \<Rightarrow> int" where
  "count_status st rp = int (length (filter (\<lambda>c. vc_Status c = st) (vr_Cases rp)))"

definition counted :: "VerifyReport \<Rightarrow> bool" where
  "counted rp \<longleftrightarrow> vr_Passed rp = count_status ''pass'' rp \<and> vr_Failed rp = count_status ''fail'' rp \<and>
     vr_Passed rp + vr_Failed rp + vr_Skipped rp = int (length (vr_Cases rp))"

lemma fold_push_case:
  "counted rp \<Longrightarrow> counted (fold push_case cs rp) \<and> length (vr_Cases (fold push_case cs rp)) = length (vr_Cases rp) + length cs"
proof (induction cs arbitrary: rp)
  case (Cons c cs)
  have "counted (push_case c rp)" "length (vr_Cases (push_case c rp)) = Suc (length (vr_Cases rp))"
    using Cons.prems by (auto simp: counted_def count_status_def push_case_def Let_def)
  then show ?case using Cons.IH by simp
qed simp

text \<open>
  C35: Whatever happens during an acceptance run, its counters are the numbers of its cases by status,
  and it reports success exactly when no case failed and at least one passed.  It has seven cases,
  unless its time ran out while the command loop was tested: then that case is missing.
\<close>

theorem verdict_exact:
  assumes "pauses_ok v" "apiVerifyRun e s0 = ((rep, Some rp), s)"
  shows "let r = ad_reports (runVerify v rp s) ! rp in
    counted r \<and> (vr_AllPass r \<longleftrightarrow> count_status ''fail'' r = 0 \<and> count_status ''pass'' r > 0) \<and>
    length (vr_Cases r) \<in> {6, 7} \<and> (v_settle v \<noteq> None \<longrightarrow> v_arrive v \<noteq> None \<longrightarrow> length (vr_Cases r) = 7)"
proof -
  have rp: "rp < length (ad_reports s)" "counted (ad_reports s ! rp)" "vr_Cases (ad_reports s ! rp) = []"
    using assms(2) by (auto simp: apiVerifyRun_def Let_def counted_def count_status_def split: if_splits)
  obtain n where n: "n \<in> {6, 7}" "adds rp n s (verify_cases v rp s)" "v_settle v \<noteq> None \<longrightarrow> v_arrive v \<noteq> None \<longrightarrow> n = 7"
    using verify_cases_adds [OF assms(1)] by blast
  obtain cs where cs: "length cs = n" "ad_reports (verify_cases v rp s) = (ad_reports s)[rp := fold push_case cs (ad_reports s ! rp)]"
    using n(2) unfolding adds_def by blast
  define r where "r = fold push_case cs (ad_reports s ! rp)"
  have r: "counted r" "length (vr_Cases r) = n" using fold_push_case [OF rp(2), of cs] rp(3) cs(1) by (simp_all add: r_def)
  show ?thesis
    using r n(1,3) rp(1) cs(2)
    by (auto simp: runVerify_def finish_report_def Let_def r_def [symmetric] counted_def count_status_def)
qed

text \<open>
  The acceptance run passes without a single test: when the load-test programs are not built, the
  four cases that need them are skipped and the report still says that everything passed, as long as
  the gateway is healthy and Redis holds some shadow.
\<close>

theorem acceptance_passes_untested:
  assumes "\<And>n. \<not> ae_exists (v_env v n) (filepath_Join base ''iot_loadtest'')"
    and "base = (if adm_BuildDir (cfg_Admin (ad_cfg s)) = [] then ''build'' else adm_BuildDir (cfg_Admin (ad_cfg s)))"
    and "overviewSnapshot (v_health v) ''status'' = Some (HStr ''ok'')"
    and "\<not> localMode (ad_redis s)" "quiet (v_ops v)" "KEYS (v_aops v) (store (ad_redis s)) shadowKeyPrefix \<noteq> []"
    and "rp < length (ad_reports s)" "vr_Cases (ad_reports s ! rp) = []" "vr_Failed (ad_reports s ! rp) = 0" "vr_Passed (ad_reports s ! rp) = 0"
  shows "let r = ad_reports (runVerify v rp s) ! rp in
    vr_AllPass r \<and> map vc_Status (vr_Cases r) = [''pass'', ''pass'', ''skip'', ''skip'', ''skip'', ''skip'', ''pass'']"
proof -
  have b: "\<exists>er. binaryPaths (v_env v n) (ad_cfg s) = Inl er" for n
    using assms(1,2) by (auto simp: binaryPaths_def Let_def)
  obtain e0 e1 e2 e3 where bs: "binaryPaths (v_env v 0) (ad_cfg s) = Inl e0" "binaryPaths (v_env v 1) (ad_cfg s) = Inl e1"
      "binaryPaths (v_env v 2) (ad_cfg s) = Inl e2" "binaryPaths (v_env v 3) (ad_cfg s) = Inl e3" using b by metis
  show ?thesis
    using assms(3-10) bs
    by (simp add: runVerify_def verify_cases_def finish_report_def verify_health_def verify_redis_def verifyCend_def verifyIoT_def
        verifyCmdLoop_def verifyShadow_def add_case_def push_case_def IsLocalMode_def Let_def)
qed

section \<open>Preparing the command loop\<close>

text \<open>A key is listed only under a prefix it has, and a deletion leaves the other keys alone.\<close>

definition admin_laws :: "'r redis_ops \<Rightarrow> 'r admin_ops \<Rightarrow> bool" where
  "admin_laws ops aops \<longleftrightarrow> (\<forall>r p. \<forall>k \<in> set (KEYS aops r p). take (length p) k = p) \<and>
     (\<forall>r ks k f. k \<notin> set ks \<longrightarrow> HGET ops (DEL aops r ks) k f = HGET ops r k f)"

lemma length_show_nat: "10 ^ k \<le> n \<Longrightarrow> n < 10 ^ Suc k \<Longrightarrow> length (show_nat n) = Suc k"
proof (induction k arbitrary: n)
  case (Suc k)
  have "(1 :: nat) \<le> 10 ^ k" by simp
  then have "10 \<le> n" using Suc.prems(1) by (simp only: power_Suc)
  moreover have "10 ^ k \<le> n div 10" "n div 10 < 10 ^ Suc k" using Suc.prems by (auto simp: less_eq_div_iff_mult_less_eq div_less_iff_less_mult)
  ultimately show ?case using Suc.IH [of "n div 10"] by (simp add: show_nat.simps [of n])
qed (simp add: show_nat.simps)

lemma clear_keys_keeps:
  assumes "admin_laws ops aops" "quiet ops" "take (length p) k \<noteq> p"
  shows "HGET ops (store (clear_keys ops aops p g)) k f = HGET ops (store g) k f"
proof -
  have "k \<notin> set (KEYS aops (store g) p)" using assms(1,3) by (auto simp: admin_laws_def)
  then show ?thesis using assms(1,2) by (simp add: clear_keys_def admin_laws_def)
qed

text \<open>
  Before the command loop is tested, the keys of the devices it will use are to be cleared, so that
  a device left charging by an earlier run does not reject the command.  But the pattern ends in the
  number of the first device: of the hundred devices of the segment, the shadows of the other
  ninety-nine are kept as they are, which is what the source's comment says it prevents.
\<close>

theorem cleanup_keeps_segment:
  assumes "admin_laws ops aops" "quiet ops" "0 < j" "j < 100"
  shows "HGET ops (store (clear_segment ops aops (segment_offset e) g)) (shadowKey (''device_'' @ show_int (segment_offset e + j))) f =
    HGET ops (store g) (shadowKey (''device_'' @ show_int (segment_offset e + j))) f"
proof -
  define off where "off = segment_offset e"
  have off: "150000 \<le> off" "off < 155000" by (simp_all add: off_def segment_offset_def)
  have "length (show_int off) = 6" "length (show_int (off + j)) = 6"
    using length_show_nat [of 5 "nat off"] length_show_nat [of 5 "nat (off + j)"] off assms(3,4) by (simp_all add: show_int_def)
  moreover have "show_int off \<noteq> show_int (off + j)" using assms(3) by simp
  ultimately have "take (length (''shadow:dev:device_'' @ show_int off)) (shadowKey (''device_'' @ show_int (off + j))) \<noteq> ''shadow:dev:device_'' @ show_int off"
    by (simp add: shadowKey_def shadowKeyPrefix_def)
  moreover have "take (length (''shadow:online:device_'' @ show_int off)) (shadowKey (''device_'' @ show_int (off + j))) \<noteq> ''shadow:online:device_'' @ show_int off"
    "take (length (''cmd:q:device_'' @ show_int off)) (shadowKey (''device_'' @ show_int (off + j))) \<noteq> ''cmd:q:device_'' @ show_int off"
    by (simp_all add: shadowKey_def shadowKeyPrefix_def)
  ultimately show ?thesis
    unfolding off_def [symmetric] by (simp add: clear_segment_def clear_keys_keeps [OF assms(1,2)])
qed

section \<open>Witnesses\<close>

definition small_admin_ops :: "map_store admin_ops" where
  "small_admin_ops = \<lparr>KEYS = \<lambda>r p. filter (\<lambda>k. take (length p) k = p) (ms_keys r),
     DEL = \<lambda>r ks. r\<lparr>ms_hash := (\<lambda>k. if k \<in> set ks then [] else ms_hash r k), ms_keys := filter (\<lambda>k. k \<notin> set ks) (ms_keys r)\<rparr>\<rparr>"

lemma small_admin_laws: "admin_laws map_redis small_admin_ops"
  by (simp add: admin_laws_def map_redis_sel small_admin_ops_def)

definition unbuilt_env :: "map_store VerifyEnv" where
  "unbuilt_env = \<lparr>v_ops = map_redis, v_aops = small_admin_ops, v_env = \<lambda>n. small_admin_env\<lparr>ae_exists := \<lambda>_. False\<rparr>,
     v_dur = \<lambda>n. ''1ms'', v_health = Some (Some [''status'' \<mapsto> HStr ''ok'']), v_cend = [], v_udp = [], v_quic = [],
     v_settle = None, v_cmd = [], v_arrive = None\<rparr>"

definition shadow_admin :: "map_store AdminServer" where
  "shadow_admin = admin_New DefaultConfig ((empty_redis False)\<lparr>store := HMSET map_redis ms_empty ''shadow:dev:d1'' [(''state'', ''idle'')]\<rparr>)"

theorem verdict_exact_witness:
  "length (vr_Cases (ad_reports (runVerify unbuilt_env 0 (snd (apiVerifyRun small_admin_env shadow_admin))) ! 0)) \<in> {6, 7}"
proof -
  have "fst (apiVerifyRun small_admin_env shadow_admin) = (fst (fst (apiVerifyRun small_admin_env shadow_admin)), Some 0)"
    by (simp add: apiVerifyRun_def shadow_admin_def admin_New_def Let_def)
  then have "apiVerifyRun small_admin_env shadow_admin =
      ((fst (fst (apiVerifyRun small_admin_env shadow_admin)), Some 0), snd (apiVerifyRun small_admin_env shadow_admin))"
    by (metis prod.collapse)
  moreover have "pauses_ok unbuilt_env" by (simp add: pauses_ok_def unbuilt_env_def)
  ultimately show ?thesis using verdict_exact [of unbuilt_env small_admin_env shadow_admin] by (auto simp: Let_def)
qed

theorem acceptance_passes_untested_witness:
  "vr_AllPass (ad_reports (runVerify unbuilt_env 0 (snd (apiVerifyRun small_admin_env shadow_admin))) ! 0)"
  using acceptance_passes_untested [of unbuilt_env "''build''" "snd (apiVerifyRun small_admin_env shadow_admin)" 0]
  by (simp add: Let_def quiet_def unbuilt_env_def shadow_admin_def admin_New_def apiVerifyRun_def DefaultConfig_def overviewSnapshot_def
      small_admin_ops_def empty_redis_def shadowKeyPrefix_def map_redis_def ms_empty_def)

theorem cleanup_keeps_segment_witness:
  "HGET map_redis (store (clear_segment map_redis small_admin_ops (segment_offset small_admin_env) (empty_redis False)))
     (shadowKey (''device_'' @ show_int (segment_offset small_admin_env + 1))) ''state'' = None"
  using cleanup_keeps_segment [OF small_admin_laws map_redis_quiet, of 1 small_admin_env "empty_redis False" "''state''"]
  by (simp add: empty_redis_def map_redis_sel ms_empty_def)

end
