(* ===== verification/Process.thy ===== *)
theory Process
  imports Modes AdminVerify
begin

text \<open>
  The process, \<^verbatim>\<open>main/gateway/main.go\<close>: how the two gateways are brought up and how they
  are shut down.  The Redis package is one for the whole process, so its
  state is kept once and handed to the gateway that runs.  Each server counts its goroutines in a
  wait group; here the wait group is the set of goroutines that have not returned, and stopping a
  server waits until its set is empty.  Properties: what the process needs to come up and the state
  it comes up in; that with Redis the shutdown never gets past the C-end gateway; that without it
  every run of the shutdown ends, and which connections hold it up.
\<close>

section \<open>Goroutines and the state of the process\<close>

text \<open>
  The goroutines in the wait groups.  A reader and a writer belong to a WebSocket connection, by its
  place in the heap; DTLS and QUIC connections are numbered as in the IoT server.
\<close>

datatype cend_go = CHttp | CHeartbeat | CEvents | CShutdown | CReader nat | CWriter nat

datatype iot_go = IReader | IWorker nat | IDtls | IQuic | ISessions | ITriggers | IIPCleanup | IAsync | IDtlsConn nat | IQuicConn nat

text \<open>
  Where the goroutine of the shutdown is: not started, waiting for the C-end gateway, waiting for the
  IoT gateway, or done; and what \<^verbatim>\<open>main\<close> made of it.
\<close>

datatype stage = Serving | CendWait | IotWait | Stopped

datatype main_state = Waiting | ShutdownComplete | ShutdownTimeout

record ('r, 'priv, 'pub) Proc =
  pr_cfg :: Config
  pr_cend :: "('r, 'priv, 'pub) CendServer"
  pr_iot :: "'r Server"
  pr_admin :: "'r AdminServer option"
  pr_redis :: "'r RedisState"
  pr_cend_wg :: "cend_go set"
  pr_iot_wg :: "iot_go set"
  pr_cend_cancelled :: bool
  pr_http_down :: bool
    \<comment> \<open>the HTTP server is shut down or never came up\<close>
  pr_iot_cancelled :: bool
  pr_dtlsLis :: bool
    \<comment> \<open>\<^verbatim>\<open>dtlsLoop\<close> has stored its listener\<close>
  pr_dtls_closed :: bool
  pr_quicConnCount :: int
  pr_stage :: stage
  pr_main :: main_state

section \<open>Starting\<close>

record ('r, 'priv, 'pub) boot_env =
  bt_version :: bool
    \<comment> \<open>the flag \<^verbatim>\<open>-version\<close>\<close>
  bt_path :: string
  bt_ReadFile :: "string \<Rightarrow> string result"
  bt_Getenv :: "string \<Rightarrow> string"
  bt_yaml :: "string \<Rightarrow> Config \<Rightarrow> Config result"
  bt_json :: "string \<Rightarrow> Config \<Rightarrow> Config result"
  bt_keys :: "('priv, 'pub) key_lib"
  bt_ping :: bool
  bt_dial :: "string \<Rightarrow> bool"
  bt_sha256 :: "bytes \<Rightarrow> bytes"
  bt_order :: "string list"
    \<comment> \<open>the order in which the configured devices are visited\<close>
  bt_cend_id :: string
  bt_iot_id :: string
  bt_resolve :: "unit result"
  bt_listen :: "unit result"
    \<comment> \<open>resolving and binding the UDP address\<close>
  bt_cenv :: "('r, 'priv, 'pub) CEnv"
  bt_env :: "'r Env"

datatype ('r, 'priv, 'pub) boot = Printed string | Fatal string failure | Crashed failure | Running "('r, 'priv, 'pub) Proc"

text \<open>The state of the packages before \<^verbatim>\<open>main\<close>.\<close>

definition fresh_redis :: "'r \<Rightarrow> 'r RedisState" where
  "fresh_redis r = \<lparr>localMode = False, store = r, localGateways = Map.empty, localOnline = Map.empty, localIoTDev = Map.empty,
     published = []\<rparr>"

definition fresh_mq :: "'e MQ" where
  "fresh_mq = \<lparr>mq_available = False, mq_droppedCend = 0, mq_droppedIoT = 0, mq_written = []\<rparr>"

definition with_keys :: "string \<Rightarrow> string \<Rightarrow> Config \<Rightarrow> Config" where
  "with_keys priv pub cfg = cfg\<lparr>cfg_Auth := (cfg_Auth cfg)\<lparr>auth_JWTPrivateKey := priv, auth_JWTPublicKey := pub\<rparr>\<rparr>"

text \<open>The goroutines that the two \<^verbatim>\<open>Start\<close> functions leave running.\<close>

definition cend_goroutines :: "cend_go set" where
  "cend_goroutines = {CHttp, CHeartbeat, CEvents, CShutdown}"

definition iot_goroutines :: "int \<times> bool \<times> bool \<Rightarrow> iot_go set" where
  "iot_goroutines = (\<lambda>(workers, dtls, quic).
     {IReader, ISessions, ITriggers, IIPCleanup, IAsync} \<union> set (map IWorker [0..<nat workers]) \<union>
     (if dtls then {IDtls} else {}) \<union> (if quic then {IQuic} else {}))"

definition up_process :: "Config \<Rightarrow> ('r, 'priv, 'pub) CendServer \<Rightarrow> int \<times> bool \<times> bool \<Rightarrow> 'r Server \<Rightarrow> ('r, 'priv, 'pub) Proc" where
  "up_process cfg cs started s =
     \<lparr>pr_cfg = cfg, pr_cend = cs, pr_iot = s,
      pr_admin = (if adm_Enabled (cfg_Admin cfg) then Some (admin_New cfg (s_redis s)) else None),
      pr_redis = s_redis s, pr_cend_wg = cend_goroutines, pr_iot_wg = iot_goroutines started,
      pr_cend_cancelled = False, pr_http_down = False, pr_iot_cancelled = False,
      pr_dtlsLis = False, pr_dtls_closed = False, pr_quicConnCount = 0,
      pr_stage = Serving, pr_main = Waiting\<rparr>"

definition gateway_main :: "('r, 'priv, 'pub) boot_env \<Rightarrow> 'r \<Rightarrow> ('r, 'priv, 'pub) boot" where
  "gateway_main b r =
     (if bt_version b then Printed ''Dual Gateway v1.0.0''
      else case Load (bt_ReadFile b) (bt_Getenv b) (bt_yaml b) (bt_json b) (bt_path b) of
        Inl er \<Rightarrow> Fatal ''Failed to load config: '' er
      | Inr cfg0 \<Rightarrow>
     (case EnsureRSAKeys (bt_keys b) (auth_JWTPrivateKey (cfg_Auth cfg0)) (auth_JWTPublicKey (cfg_Auth cfg0)) (auth_JWTIssuer (cfg_Auth cfg0)) of
        (Inl er, _) \<Rightarrow> Fatal ''Failed to ensure JWT keys'' er
      | (Inr _, priv, pub) \<Rightarrow>
     (let cfg = with_keys priv pub cfg0; g = snd (Init (bt_ping b) (fresh_redis r)) in
      case (mq_Init (bt_dial b) (kaf_Brokers (cfg_Kafka cfg)) fresh_mq, mq_Init (bt_dial b) (kaf_Brokers (cfg_Kafka cfg)) fresh_mq) of
        ((Inl er, _), _) \<Rightarrow> Crashed er
      | ((Inr _, mqc), (_, mqi)) \<Rightarrow>
     (case cend_Start (bt_cenv b) (cend_NewServer (bt_keys b) cfg (bt_cend_id b) (ce_now (bt_cenv b)) g mqc) of
        (Inl er, _) \<Rightarrow> Fatal ''Failed to start C-end gateway'' er
      | (Inr _, cs) \<Rightarrow>
     (case Start (bt_env b) (bt_resolve b) (bt_listen b) (cfg_IoT cfg)
             (NewServer (bt_sha256 b) cfg (bt_order b) (bt_iot_id b) (e_now (bt_env b)) (cs_redis cs) mqi) of
        (Inl er, _) \<Rightarrow> Fatal ''Failed to start IoT gateway'' er
      | (Inr started, s) \<Rightarrow>
          Running (up_process cfg cs started s))))))"


subsection \<open>What coming up needs and gives\<close>

definition boot_config :: "('r, 'priv, 'pub) boot_env \<Rightarrow> Config result" where
  "boot_config b = Load (bt_ReadFile b) (bt_Getenv b) (bt_yaml b) (bt_json b) (bt_path b)"

abbreviation ensured :: "('r, 'priv, 'pub) boot_env \<Rightarrow> Config \<Rightarrow> ('priv, 'pub) JWTManager result \<times> string \<times> string" where
  "ensured b cfg \<equiv> EnsureRSAKeys (bt_keys b) (auth_JWTPrivateKey (cfg_Auth cfg)) (auth_JWTPublicKey (cfg_Auth cfg)) (auth_JWTIssuer (cfg_Auth cfg))"

text \<open>The life time of tokens plays no part in whether keys are usable.\<close>

lemma NewJWTManager_ttl:
  "NewJWTManager kl priv pub iss t = Inr m \<Longrightarrow> NewJWTManager kl priv pub iss t' = Inr (m\<lparr>jm_ttl := t'\<rparr>)"
  by (auto simp: NewJWTManager_def bind_r_eq_Inr)

lemma EnsureRSAKeys_usable:
  "EnsureRSAKeys kl priv0 pub0 iss = (Inr m, priv, pub) \<Longrightarrow> NewJWTManager kl priv pub iss (2 * hour) = Inr m"
  by (auto simp: EnsureRSAKeys_def split: sum.splits if_splits prod.splits)

lemma new_jwt_manager_ensured:
  assumes "EnsureRSAKeys kl priv0 pub0 (auth_JWTIssuer a) = (Inr m, auth_JWTPrivateKey a, auth_JWTPublicKey a)"
  shows "new_jwt_manager kl a = \<lparr>jm_privateKey = Some (jm_privateKey m), jm_publicKey = Some (jm_publicKey m),
    jm_issuer = jm_issuer m, jm_ttl = JWTTTL a\<rparr>"
  using NewJWTManager_ttl [OF EnsureRSAKeys_usable [OF assms], of "JWTTTL a"] by (simp add: new_jwt_manager_def)

lemma mq_Init_ok: "bs \<noteq> [] \<Longrightarrow> mq_Init dial bs m = (Inr (), m\<lparr>mq_available := dial (bs ! 0)\<rparr>)"
  by (auto simp: mq_Init_def idx_def)

text \<open>The servers of a process that came up, with what they were made from.\<close>

lemma gateway_main_up:
  assumes "\<not> bt_version b" "boot_config b = Inr cfg0" "ensured b cfg0 = (Inr m, priv, pub)" "cfg = with_keys priv pub cfg0"
  shows "gateway_main b r =
    (case (mq_Init (bt_dial b) (kaf_Brokers (cfg_Kafka cfg)) fresh_mq, mq_Init (bt_dial b) (kaf_Brokers (cfg_Kafka cfg)) fresh_mq) of
       ((Inl er, _), _) \<Rightarrow> Crashed er
     | ((Inr _, mqc), (_, mqi)) \<Rightarrow>
         (let cs = snd (cend_Start (bt_cenv b) (cend_NewServer (bt_keys b) cfg (bt_cend_id b) (ce_now (bt_cenv b))
                     (snd (Init (bt_ping b) (fresh_redis r))) mqc)) in
          case Start (bt_env b) (bt_resolve b) (bt_listen b) (cfg_IoT cfg)
                 (NewServer (bt_sha256 b) cfg (bt_order b) (bt_iot_id b) (e_now (bt_env b)) (cs_redis cs) mqi) of
            (Inl er, _) \<Rightarrow> Fatal ''Failed to start IoT gateway'' er
          | (Inr started, s) \<Rightarrow> Running (up_process cfg cs started s)))"
  using assms by (simp add: gateway_main_def boot_config_def cend_Start_def Let_def split: prod.split sum.split)

lemma running_config:
  assumes "gateway_main b r = Running p"
  obtains cfg m priv pub where "\<not> bt_version b" "boot_config b = Inr cfg" "ensured b cfg = (Inr m, priv, pub)"
  using assms unfolding gateway_main_def boot_config_def
  by (cases "bt_version b") (auto split: sum.splits prod.splits)

lemma Start_ok: "Start e rs ls c s = (Inr w, s') \<longleftrightarrow> rs = Inr () \<and> ls = Inr () \<and>
    w = (worker_count c, iot_DTLSEnabled c \<and> iot_DTLSPort c > 0 \<and> iot_DTLSPort c \<noteq> iot_Port c, iot_QUICEnabled c \<and> iot_QUICPort c > 0) \<and>
    s' = with_redis (RegisterGateway (e_ops e) (e_js e) (unix e) (s_ID s) ''iot'' (iot_Host c @ '':'' @ show_int (iot_Port c))) s"
  by (auto simp: Start_def Let_def split: sum.splits)


text \<open>A gateway is registered when the table of gateways has an entry for it.\<close>

definition registered :: "'r redis_ops \<Rightarrow> 'r RedisState \<Rightarrow> string \<Rightarrow> bool" where
  "registered ops g i \<longleftrightarrow> (if localMode g then localGateways g i else HGET ops (store g) ''gateways'' i) \<noteq> None"

lemma registered_Register:
  "quiet ops \<Longrightarrow> redis_hash_laws ops \<Longrightarrow> registered ops (snd (RegisterGateway ops js t i ty a g)) j \<longleftrightarrow> j = i \<or> registered ops g j"
  by (auto simp: registered_def RegisterGateway_def Let_def hash_laws)

lemma cend_Start_parts:
  "cs_redis (snd (cend_Start e s)) = snd (RegisterGateway (ce_ops e) (ce_js e) (ce_unix e) (cs_ID s) ''cend''
     (cend_Host (cs_Config s) @ '':'' @ show_int (cend_Port (cs_Config s))) (cs_redis s))"
  "cs_JWTManager (snd (cend_Start e s)) = cs_JWTManager s" "conns (snd (cend_Start e s)) = conns s"
  by (simp_all add: cend_Start_def Let_def on_redis_def conns_def split: prod.split)

lemma running_parts:
  assumes "gateway_main b r = Running p"
  obtains cfg m priv pub mqc s g where "boot_config b = Inr cfg" "ensured b cfg = (Inr m, priv, pub)"
    "kaf_Brokers (cfg_Kafka cfg) \<noteq> []" "bt_resolve b = Inr ()" "bt_listen b = Inr ()"
    "g = (fresh_redis r)\<lparr>localMode := \<not> bt_ping b\<rparr>"
    "p = up_process (with_keys priv pub cfg)
       (snd (cend_Start (bt_cenv b) (cend_NewServer (bt_keys b) (with_keys priv pub cfg) (bt_cend_id b) (ce_now (bt_cenv b)) g mqc)))
       (worker_count (cfg_IoT cfg), iot_DTLSEnabled (cfg_IoT cfg) \<and> iot_DTLSPort (cfg_IoT cfg) > 0 \<and>
         iot_DTLSPort (cfg_IoT cfg) \<noteq> iot_Port (cfg_IoT cfg), iot_QUICEnabled (cfg_IoT cfg) \<and> iot_QUICPort (cfg_IoT cfg) > 0) s"
    "\<exists>addr. s_redis s = snd (RegisterGateway (e_ops (bt_env b)) (e_js (bt_env b)) (unix (bt_env b)) (bt_iot_id b) ''iot'' addr
       (cs_redis (pr_cend p)))"
    "s_devices s = Map.empty"
proof -
  obtain cfg m priv pub where c: "\<not> bt_version b" "boot_config b = Inr cfg" "ensured b cfg = (Inr m, priv, pub)"
    by (rule running_config [OF assms])
  let ?cfg = "with_keys priv pub cfg"
  have k: "kaf_Brokers (cfg_Kafka ?cfg) = kaf_Brokers (cfg_Kafka cfg)" "cfg_IoT ?cfg = cfg_IoT cfg" by (simp_all add: with_keys_def)
  have q: "kaf_Brokers (cfg_Kafka cfg) \<noteq> []"
    using assms unfolding gateway_main_up [OF c refl] k by (auto simp: mq_Init_def idx_def)
  define mqc :: "BizMessage MQ" where "mqc = fresh_mq\<lparr>mq_available := bt_dial b (kaf_Brokers (cfg_Kafka cfg) ! 0)\<rparr>"
  define mqi :: "IoTEvent MQ" where "mqi = fresh_mq\<lparr>mq_available := bt_dial b (kaf_Brokers (cfg_Kafka cfg) ! 0)\<rparr>"
  have g: "snd (Init (bt_ping b) (fresh_redis r)) = (fresh_redis r)\<lparr>localMode := \<not> bt_ping b\<rparr>" by (simp add: Init_def)
  obtain w s where st: "Start (bt_env b) (bt_resolve b) (bt_listen b) (cfg_IoT cfg)
      (NewServer (bt_sha256 b) ?cfg (bt_order b) (bt_iot_id b) (e_now (bt_env b)) (cs_redis
        (snd (cend_Start (bt_cenv b) (cend_NewServer (bt_keys b) ?cfg (bt_cend_id b) (ce_now (bt_cenv b)) ((fresh_redis r)\<lparr>localMode := \<not> bt_ping b\<rparr>) mqc)))) mqi) = (Inr w, s)"
    and p: "p = up_process ?cfg (snd (cend_Start (bt_cenv b) (cend_NewServer (bt_keys b) ?cfg (bt_cend_id b) (ce_now (bt_cenv b)) ((fresh_redis r)\<lparr>localMode := \<not> bt_ping b\<rparr>) mqc))) w s"
    using assms unfolding gateway_main_up [OF c refl] k mq_Init_ok [OF q] g mqc_def [symmetric] mqi_def [symmetric] by (auto simp: Let_def split: sum.splits prod.splits)
  show thesis
    using st c q p that [OF c(2,3) q] by (auto simp: Start_ok with_redis_def up_process_def NewServer_def)
qed


lemma gateway_main_running:
  "(\<exists>p. gateway_main b r = Running p) \<longleftrightarrow> \<not> bt_version b \<and> bt_resolve b = Inr () \<and> bt_listen b = Inr () \<and>
     (\<exists>cfg m ks. boot_config b = Inr cfg \<and> ensured b cfg = (Inr m, ks) \<and> kaf_Brokers (cfg_Kafka cfg) \<noteq> [])"
    (is "?up \<longleftrightarrow> ?conds")
proof
  assume ?up
  then obtain p where p: "gateway_main b r = Running p" by blast
  show ?conds by (rule running_parts [OF p]) (use p in \<open>auto simp: gateway_main_def\<close>)
next
  assume ?conds
  then obtain cfg m priv pub where c: "\<not> bt_version b" "boot_config b = Inr cfg" "ensured b cfg = (Inr m, priv, pub)"
      "kaf_Brokers (cfg_Kafka cfg) \<noteq> []" "bt_resolve b = Inr ()" "bt_listen b = Inr ()" by auto
  have k: "kaf_Brokers (cfg_Kafka (with_keys priv pub cfg)) = kaf_Brokers (cfg_Kafka cfg)" by (simp add: with_keys_def)
  show ?up unfolding gateway_main_up [OF c(1-3) refl] k mq_Init_ok [OF c(4)]
    using c(5,6) by (auto simp: Let_def Start_def split: prod.split)
qed

lemma worker_count_ge: "4 \<le> worker_count c"
  by (simp add: worker_count_def Let_def)

lemma running_start:
  assumes "gateway_main b r = Running p"
  shows "localMode (pr_redis p) = (\<not> bt_ping b)" "pr_cend_wg p = cend_goroutines" "pr_stage p = Serving" "pr_main p = Waiting"
    "\<not> pr_iot_cancelled p" "\<not> pr_cend_cancelled p" "\<not> pr_http_down p" "pr_quicConnCount p = 0" "finite (pr_iot_wg p)"
    "IQuicConn c \<notin> pr_iot_wg p" "IDtlsConn c \<notin> pr_iot_wg p" "i < 4 \<Longrightarrow> IWorker i \<in> pr_iot_wg p" "s_devices (pr_iot p) = Map.empty"
    "conn_table_ok (conns (pr_cend p))" "cs_heap (pr_cend p) = []"
    "\<exists>priv pub. jm_privateKey (cs_JWTManager (pr_cend p)) = Some priv \<and> jm_publicKey (cs_JWTManager (pr_cend p)) = Some pub \<and>
      jm_ttl (cs_JWTManager (pr_cend p)) = JWTTTL (cfg_Auth (pr_cfg p))"
    "quiet (e_ops (bt_env b)) \<Longrightarrow> redis_hash_laws (e_ops (bt_env b)) \<Longrightarrow> ce_ops (bt_cenv b) = e_ops (bt_env b) \<Longrightarrow>
      registered (e_ops (bt_env b)) (pr_redis p) (bt_cend_id b) \<and> registered (e_ops (bt_env b)) (pr_redis p) (bt_iot_id b)"
proof -
  obtain cfg m priv pub mqc s g where c: "ensured b cfg = (Inr m, priv, pub)" and g: "g = (fresh_redis r)\<lparr>localMode := \<not> bt_ping b\<rparr>"
    and up: "p = up_process (with_keys priv pub cfg)
       (snd (cend_Start (bt_cenv b) (cend_NewServer (bt_keys b) (with_keys priv pub cfg) (bt_cend_id b) (ce_now (bt_cenv b)) g mqc)))
       (worker_count (cfg_IoT cfg), iot_DTLSEnabled (cfg_IoT cfg) \<and> iot_DTLSPort (cfg_IoT cfg) > 0 \<and>
         iot_DTLSPort (cfg_IoT cfg) \<noteq> iot_Port (cfg_IoT cfg), iot_QUICEnabled (cfg_IoT cfg) \<and> iot_QUICPort (cfg_IoT cfg) > 0) s"
    and reg: "\<exists>addr. s_redis s = snd (RegisterGateway (e_ops (bt_env b)) (e_js (bt_env b)) (unix (bt_env b)) (bt_iot_id b) ''iot'' addr
       (cs_redis (pr_cend p)))" and dev: "s_devices s = Map.empty"
    by (rule running_parts [OF assms])
  have cend: "pr_cend p = snd (cend_Start (bt_cenv b)
      (cend_NewServer (bt_keys b) (with_keys priv pub cfg) (bt_cend_id b) (ce_now (bt_cenv b)) g mqc))"
    and red: "pr_redis p = s_redis s" unfolding up by (simp_all add: up_process_def)
  show "localMode (pr_redis p) = (\<not> bt_ping b)"
    "quiet (e_ops (bt_env b)) \<Longrightarrow> redis_hash_laws (e_ops (bt_env b)) \<Longrightarrow> ce_ops (bt_cenv b) = e_ops (bt_env b) \<Longrightarrow>
      registered (e_ops (bt_env b)) (pr_redis p) (bt_cend_id b) \<and> registered (e_ops (bt_env b)) (pr_redis p) (bt_iot_id b)"
    using reg unfolding red cend cend_Start_parts by (auto simp: cend_NewServer_def g registered_Register mode_frame)
  show "conn_table_ok (conns (pr_cend p))" unfolding cend cend_Start_parts by (rule conn_table_new)
  show "cs_heap (pr_cend p) = []" unfolding cend by (simp add: cend_Start_def cend_NewServer_def on_redis_def Let_def split: prod.split)
  have "new_jwt_manager (bt_keys b) (cfg_Auth (with_keys priv pub cfg)) = \<lparr>jm_privateKey = Some (jm_privateKey m),
      jm_publicKey = Some (jm_publicKey m), jm_issuer = jm_issuer m, jm_ttl = JWTTTL (cfg_Auth (with_keys priv pub cfg))\<rparr>"
    using new_jwt_manager_ensured [of "bt_keys b" _ _ "cfg_Auth (with_keys priv pub cfg)" m] c by (simp add: with_keys_def)
  then show "\<exists>priv pub. jm_privateKey (cs_JWTManager (pr_cend p)) = Some priv \<and> jm_publicKey (cs_JWTManager (pr_cend p)) = Some pub \<and>
      jm_ttl (cs_JWTManager (pr_cend p)) = JWTTTL (cfg_Auth (pr_cfg p))"
    unfolding cend cend_Start_parts by (simp add: cend_NewServer_def up up_process_def)
  show "pr_cend_wg p = cend_goroutines" "pr_stage p = Serving" "pr_main p = Waiting" "\<not> pr_iot_cancelled p" "\<not> pr_cend_cancelled p"
    "\<not> pr_http_down p" "pr_quicConnCount p = 0" "finite (pr_iot_wg p)" "IQuicConn c \<notin> pr_iot_wg p" "IDtlsConn c \<notin> pr_iot_wg p"
    "s_devices (pr_iot p) = Map.empty" "i < 4 \<Longrightarrow> IWorker i \<in> pr_iot_wg p"
    using worker_count_ge [of "cfg_IoT cfg"] unfolding up by (auto simp: up_process_def iot_goroutines_def dev)
qed

text \<open>
  C24: The process comes up exactly when it is not asked for its version, the configuration loads, usable
  token keys are found or generated, a broker is configured and the UDP address can be bound; Redis and
  Kafka need not answer.  Then the C-end gateway has a private and a public key and the configured life
  time of tokens, the mode of the Redis package is what the ping gave, both gateways are registered,
  and at least four workers run.
\<close>

theorem process_comes_up:
  assumes "quiet (e_ops (bt_env b))" "redis_hash_laws (e_ops (bt_env b))" "ce_ops (bt_cenv b) = e_ops (bt_env b)"
  shows "((\<exists>p. gateway_main b r = Running p) \<longleftrightarrow> \<not> bt_version b \<and> bt_resolve b = Inr () \<and> bt_listen b = Inr () \<and>
      (\<exists>cfg m ks. boot_config b = Inr cfg \<and> ensured b cfg = (Inr m, ks) \<and> kaf_Brokers (cfg_Kafka cfg) \<noteq> [])) \<and>
    (\<forall>p. gateway_main b r = Running p \<longrightarrow>
      (\<exists>priv pub. jm_privateKey (cs_JWTManager (pr_cend p)) = Some priv \<and> jm_publicKey (cs_JWTManager (pr_cend p)) = Some pub \<and>
         jm_ttl (cs_JWTManager (pr_cend p)) = JWTTTL (cfg_Auth (pr_cfg p))) \<and>
      localMode (pr_redis p) = (\<not> bt_ping b) \<and>
      registered (e_ops (bt_env b)) (pr_redis p) (bt_cend_id b) \<and> registered (e_ops (bt_env b)) (pr_redis p) (bt_iot_id b) \<and>
      (\<forall>i < 4. IWorker i \<in> pr_iot_wg p))"
  using gateway_main_running [of b r] running_start(1,12,16,17) [of b r] assms by auto

section \<open>Running and stopping\<close>

text \<open>A gateway runs on the state the Redis package is in, and leaves it changed.\<close>

definition cend_now :: "('r, 'priv, 'pub) Proc \<Rightarrow> ('r, 'priv, 'pub) CendServer" where
  "cend_now p = (pr_cend p)\<lparr>cs_redis := pr_redis p\<rparr>"

definition iot_now :: "('r, 'priv, 'pub) Proc \<Rightarrow> 'r Server" where
  "iot_now p = (pr_iot p)\<lparr>s_redis := pr_redis p\<rparr>"

definition set_cend :: "('r, 'priv, 'pub) CendServer \<Rightarrow> ('r, 'priv, 'pub) Proc \<Rightarrow> ('r, 'priv, 'pub) Proc" where
  "set_cend s p = p\<lparr>pr_cend := s, pr_redis := cs_redis s\<rparr>"

definition set_iot :: "'r Server \<Rightarrow> ('r, 'priv, 'pub) Proc \<Rightarrow> ('r, 'priv, 'pub) Proc" where
  "set_iot s p = p\<lparr>pr_iot := s, pr_redis := s_redis s\<rparr>"

text \<open>
  When a goroutine returns.  The loops with a \<^verbatim>\<open>select\<close> on the server's context return once it is
  cancelled, the readers of sockets once these are closed, which stopping does next.  A goroutine
  blocked in \<^verbatim>\<open>SubscribeMessage\<close> returns at once without Redis; with Redis it receives from a channel
  that only closing the subscription closes, and nothing closes it.  The goroutines of a WebSocket
  connection return when the connection is closed; \<^verbatim>\<open>handleDTLSConn\<close> reads from a connection that closing
  the listener leaves open.  \<^verbatim>\<open>dtlsLoop\<close> returns when its listener is closed, and \<^verbatim>\<open>Stop\<close> closes the listener
  that is stored by then.  \<^verbatim>\<open>waitForShutdown\<close> is cut into the two steps \<open>http_down\<close> and \<open>close_conns\<close> below,
  and a QUIC connection ends in the step \<open>quic_conn_end\<close>.
\<close>

fun cend_returns :: "('r, 'priv, 'pub) Proc \<Rightarrow> cend_go \<Rightarrow> bool" where
  "cend_returns p CHttp = pr_http_down p"
| "cend_returns p CHeartbeat = pr_cend_cancelled p"
| "cend_returns p CEvents = localMode (pr_redis p)"
| "cend_returns p CShutdown = False"
| "cend_returns p (CReader c) = cn_ConnClosed (cs_heap (pr_cend p) ! c)"
| "cend_returns p (CWriter c) = cn_CloseChan (cs_heap (pr_cend p) ! c)"

fun iot_returns :: "('r, 'priv, 'pub) Proc \<Rightarrow> iot_go \<Rightarrow> bool" where
  "iot_returns p ITriggers = localMode (pr_redis p)"
| "iot_returns p IDtls = (pr_iot_cancelled p \<and> pr_dtls_closed p)"
| "iot_returns p (IDtlsConn c) = False"
| "iot_returns p (IQuicConn c) = False"
| "iot_returns p g = pr_iot_cancelled p"

text \<open>The end of \<^verbatim>\<open>handleQUICConn\<close>: its device is dropped and the connection no longer counted.\<close>

definition quic_conn_end :: "'r Env \<Rightarrow> string list \<Rightarrow> nat \<Rightarrow> ('r, 'priv, 'pub) Proc \<Rightarrow> ('r, 'priv, 'pub) Proc" where
  "quic_conn_end ei order c p = (set_iot (dropDeviceByConn ei order c (iot_now p)) p)
     \<lparr>pr_iot_wg := pr_iot_wg p - {IQuicConn c}, pr_quicConnCount := pr_quicConnCount p - 1\<rparr>"

text \<open>
  The steps the process takes by itself: goroutines that return, the work of \<^verbatim>\<open>waitForShutdown\<close>, and the
  goroutine of the shutdown, which stops the IoT gateway when it no longer waits for the C-end
  gateway.  After \<^verbatim>\<open>main\<close> has returned nothing runs.
\<close>

inductive internal :: "('r, 'priv, 'pub) Proc \<Rightarrow> ('r, 'priv, 'pub) Proc \<Rightarrow> bool" where
  cend_return: "pr_main p = Waiting \<Longrightarrow> g \<in> pr_cend_wg p \<Longrightarrow> cend_returns p g \<Longrightarrow>
     internal p (p\<lparr>pr_cend_wg := pr_cend_wg p - {g}\<rparr>)"
| http_down: "pr_main p = Waiting \<Longrightarrow> CShutdown \<in> pr_cend_wg p \<Longrightarrow> pr_cend_cancelled p \<Longrightarrow> \<not> pr_http_down p \<Longrightarrow>
     internal p (p\<lparr>pr_http_down := True\<rparr>)"
| close_conns: "pr_main p = Waiting \<Longrightarrow> CShutdown \<in> pr_cend_wg p \<Longrightarrow> pr_cend_cancelled p \<Longrightarrow> pr_http_down p \<Longrightarrow>
     key_order (cs_Connections (pr_cend p)) order \<Longrightarrow>
     internal p ((set_cend (waitForShutdown e order (cend_now p)) p)\<lparr>pr_cend_wg := pr_cend_wg p - {CShutdown}\<rparr>)"
| cend_stopped: "pr_main p = Waiting \<Longrightarrow> pr_stage p = CendWait \<Longrightarrow> pr_cend_wg p = {} \<Longrightarrow> key_order (s_devices (pr_iot p)) order \<Longrightarrow>
     internal p ((set_iot (Stop ei order (iot_now p)) p)\<lparr>pr_stage := IotWait, pr_iot_cancelled := True, pr_dtls_closed := pr_dtlsLis p\<rparr>)"
| iot_return: "pr_main p = Waiting \<Longrightarrow> g \<in> pr_iot_wg p \<Longrightarrow> iot_returns p g \<Longrightarrow>
     internal p (p\<lparr>pr_iot_wg := pr_iot_wg p - {g}\<rparr>)"
| quic_return: "pr_main p = Waiting \<Longrightarrow> IQuicConn c \<in> pr_iot_wg p \<Longrightarrow> pr_iot_cancelled p \<Longrightarrow>
     internal p (quic_conn_end ei order c p)"
| iot_stopped: "pr_main p = Waiting \<Longrightarrow> pr_stage p = IotWait \<Longrightarrow> pr_iot_wg p = {} \<Longrightarrow> internal p (p\<lparr>pr_stage := Stopped\<rparr>)"
| complete: "pr_main p = Waiting \<Longrightarrow> pr_stage p = Stopped \<Longrightarrow> internal p (p\<lparr>pr_main := ShutdownComplete\<rparr>)"

text \<open>
  What comes from outside: the signal, the timer of thirty seconds, a failed HTTP listener, new
  connections, the end of a DTLS or QUIC connection, and the work of the gateways in between.
\<close>

inductive outside :: "('r, 'priv, 'pub) Proc \<Rightarrow> ('r, 'priv, 'pub) Proc \<Rightarrow> bool" where
  signal: "pr_main p = Waiting \<Longrightarrow> pr_stage p = Serving \<Longrightarrow> outside p (p\<lparr>pr_stage := CendWait, pr_cend_cancelled := True\<rparr>)"
| timer: "pr_main p = Waiting \<Longrightarrow> pr_stage p \<noteq> Serving \<Longrightarrow> outside p (p\<lparr>pr_main := ShutdownTimeout\<rparr>)"
| http_fails: "pr_main p = Waiting \<Longrightarrow> CHttp \<in> pr_cend_wg p \<Longrightarrow> outside p (p\<lparr>pr_cend_wg := pr_cend_wg p - {CHttp}\<rparr>)"
| ws_open: "pr_main p = Waiting \<Longrightarrow> \<forall>cn \<in> set (cs_heap (pr_cend p)). cn_ID cn \<noteq> i \<Longrightarrow> c = length (cs_heap (pr_cend p)) \<Longrightarrow>
     outside p ((set_cend (ws_register e i (cend_now p)) p)\<lparr>pr_cend_wg := pr_cend_wg p \<union> {CReader c, CWriter c}\<rparr>)"
| dtls_listens: "pr_main p = Waiting \<Longrightarrow> IDtls \<in> pr_iot_wg p \<Longrightarrow> outside p (p\<lparr>pr_dtlsLis := True\<rparr>)"
| dtls_open: "pr_main p = Waiting \<Longrightarrow> IDtls \<in> pr_iot_wg p \<Longrightarrow> pr_dtlsLis p \<Longrightarrow> \<not> pr_dtls_closed p \<Longrightarrow> IDtlsConn c \<notin> pr_iot_wg p \<Longrightarrow>
     outside p (p\<lparr>pr_iot_wg := insert (IDtlsConn c) (pr_iot_wg p)\<rparr>)"
| dtls_end: "pr_main p = Waiting \<Longrightarrow> IDtlsConn c \<in> pr_iot_wg p \<Longrightarrow>
     outside p ((set_iot (dropDeviceByConn ei order c (iot_now p)) p)\<lparr>pr_iot_wg := pr_iot_wg p - {IDtlsConn c}\<rparr>)"
| quic_open: "pr_main p = Waiting \<Longrightarrow> IQuic \<in> pr_iot_wg p \<Longrightarrow> IQuicConn c \<notin> pr_iot_wg p \<Longrightarrow>
     outside p (p\<lparr>pr_iot_wg := insert (IQuicConn c) (pr_iot_wg p), pr_quicConnCount := pr_quicConnCount p + 1\<rparr>)"
| quic_end: "pr_main p = Waiting \<Longrightarrow> IQuicConn c \<in> pr_iot_wg p \<Longrightarrow> outside p (quic_conn_end ei order c p)"
| listener_fails: "pr_main p = Waiting \<Longrightarrow> g = IDtls \<and> \<not> pr_dtlsLis p \<or> g = IQuic \<Longrightarrow>
     outside p (p\<lparr>pr_iot_wg := pr_iot_wg p - {g}\<rparr>)"
| cend_work: "pr_main p = Waiting \<Longrightarrow> cend_step (cend_now p) s \<Longrightarrow> length (cs_heap s) = length (cs_heap (pr_cend p)) \<Longrightarrow>
     outside p (set_cend s p)"
| iot_work: "pr_main p = Waiting \<Longrightarrow> iot_step (iot_now p) s \<Longrightarrow> outside p (set_iot s p)"

inductive proc_step :: "('r, 'priv, 'pub) Proc \<Rightarrow> ('r, 'priv, 'pub) Proc \<Rightarrow> bool" where
  by_itself: "internal p q \<Longrightarrow> proc_step p q"
| from_outside: "outside p q \<Longrightarrow> proc_step p q"

inductive_cases internalE: "internal p q"
inductive_cases outsideE: "outside p q"


subsection \<open>Invariants of the running process\<close>

text \<open>
  The wait groups are finite and name connections that exist; until \<^verbatim>\<open>waitForShutdown\<close> has run the table
  of connections is in order, and it has run only after the cancellation; what the stage says is what
  was cancelled; the QUIC connections are counted.
\<close>

definition proc_ok :: "('r, 'priv, 'pub) Proc \<Rightarrow> bool" where
  "proc_ok p \<longleftrightarrow> finite (pr_cend_wg p) \<and> finite (pr_iot_wg p) \<and>
     (\<forall>c. CReader c \<in> pr_cend_wg p \<or> CWriter c \<in> pr_cend_wg p \<longrightarrow> c < length (cs_heap (pr_cend p))) \<and>
     (CShutdown \<in> pr_cend_wg p \<longrightarrow> conn_table_ok (conns (pr_cend p))) \<and>
     (CShutdown \<notin> pr_cend_wg p \<longrightarrow> pr_http_down p \<and> pr_cend_cancelled p) \<and>
     pr_cend_cancelled p = (pr_stage p \<noteq> Serving) \<and> pr_iot_cancelled p = (pr_stage p \<in> {IotWait, Stopped}) \<and>
     finite (dom (s_devices (pr_iot p))) \<and> pr_quicConnCount p = int (card {c. IQuicConn c \<in> pr_iot_wg p})"

lemma conns_cend_now [simp]: "conns (cend_now p) = conns (pr_cend p)" "cs_heap (cend_now p) = cs_heap (pr_cend p)"
  "cs_Connections (cend_now p) = cs_Connections (pr_cend p)" "cs_redis (cend_now p) = pr_redis p"
  by (simp_all add: cend_now_def conns_def)

lemma iot_now_parts [simp]: "tables (iot_now p) = tables (pr_iot p)" "s_devices (iot_now p) = s_devices (pr_iot p)" "s_redis (iot_now p) = pr_redis p"
  by (simp_all add: iot_now_def tables_def)

lemma proc_mode: "proc_step p q \<Longrightarrow> localMode (pr_redis q) = localMode (pr_redis p)"
proof (induction rule: proc_step.induct)
  case (by_itself p q)
  then show ?case by cases (simp_all add: set_cend_def set_iot_def quic_conn_end_def mode_frame)
next
  case (from_outside p q)
  then show ?case
    by cases (simp_all add: set_cend_def set_iot_def quic_conn_end_def ws_register_def mode_frame cmode_step imode_step)
qed


section \<open>Stopping with Redis\<close>

definition held_up :: "('r, 'priv, 'pub) Proc \<Rightarrow> bool" where
  "held_up p \<longleftrightarrow> \<not> localMode (pr_redis p) \<and> CEvents \<in> pr_cend_wg p \<and> pr_stage p \<in> {Serving, CendWait} \<and> pr_main p \<noteq> ShutdownComplete \<and>
     \<not> pr_iot_cancelled p"

lemma held_up_step:
  assumes "proc_step p q" "held_up p"
  shows "held_up q"
  using assms(1)
proof cases
  case by_itself
  then show ?thesis
    using assms(2) proc_mode [OF assms(1)] by cases (auto simp: held_up_def quic_conn_end_def set_cend_def set_iot_def)
next
  case from_outside
  then show ?thesis
    using assms(2) proc_mode [OF assms(1)] by cases (auto simp: held_up_def quic_conn_end_def set_cend_def set_iot_def)
qed

lemma held_up_steps: "proc_step\<^sup>*\<^sup>* p q \<Longrightarrow> held_up p \<Longrightarrow> held_up q"
  by (induction rule: rtranclp_induct) (auto intro: held_up_step)


text \<open>
  C22: With Redis the process never shuts down cleanly.  Stopping the C-end gateway waits for
  \<^verbatim>\<open>shadowEventLoop\<close>, which receives from a subscription that nothing closes; so in every state the
  process can reach the shutdown has not come past the C-end gateway, \<^verbatim>\<open>Stop\<close> of the IoT gateway has not
  been called, its context is not cancelled, and \<^verbatim>\<open>main\<close> can only end by the thirty second timer.
\<close>

theorem redis_shutdown_never_completes:
  assumes "gateway_main b r = Running p" "bt_ping b" "proc_step\<^sup>*\<^sup>* p q"
  shows "pr_stage q \<in> {Serving, CendWait} \<and> \<not> pr_iot_cancelled q \<and> CEvents \<in> pr_cend_wg q \<and>
    (pr_main q = Waiting \<or> pr_main q = ShutdownTimeout)"
proof -
  have "held_up p" using running_start(1-5) [OF assms(1)] assms(2) by (simp add: held_up_def cend_goroutines_def)
  then show ?thesis using held_up_steps [OF assms(3)] by (cases "pr_main q") (auto simp: held_up_def)
qed

section \<open>Stopping without Redis\<close>

lemma card_conns_remove:
  "finite W \<Longrightarrow> IQuicConn c \<in> W \<Longrightarrow> int (card {d. IQuicConn d \<in> W \<and> d \<noteq> c}) = int (card {d. IQuicConn d \<in> W}) - 1"
proof -
  assume W: "finite W" "IQuicConn c \<in> W"
  have "finite {d. IQuicConn d \<in> W}" using finite_vimageI [OF W(1), of IQuicConn] by (simp add: inj_def vimage_def)
  moreover have "{d. IQuicConn d \<in> W \<and> d \<noteq> c} = {d. IQuicConn d \<in> W} - {c}" by auto
  ultimately show ?thesis using W(2) card.remove [of "{d. IQuicConn d \<in> W}" c] by simp
qed

text \<open>Closing all connections leaves every one of the table closed.\<close>

lemma Close_keeps: "cn_once (cs_heap s ! d) \<Longrightarrow> cn_once (cs_heap (Close e c s) ! d)"
  by (cases "c = d") (simp_all add: Close_def Let_def upd_conn_def on_redis_def split: prod.split)

lemma close_all_closes:
  "length (cs_heap (close_all e order s)) = length (cs_heap s)"
  "cn_once (cs_heap s ! d) \<Longrightarrow> cn_once (cs_heap (close_all e order s) ! d)"
  "k \<in> set order \<Longrightarrow> cs_Connections s k = Some d \<Longrightarrow> d < length (cs_heap s) \<Longrightarrow> distinct order \<Longrightarrow>
     cn_once (cs_heap (close_all e order s) ! d)"
proof -
  show "length (cs_heap (close_all e order s)) = length (cs_heap s)"
    by (induction order arbitrary: s) (simp_all add: Let_def split: option.split)
  show keep: "cn_once (cs_heap s ! d) \<Longrightarrow> cn_once (cs_heap (close_all e order s) ! d)" for order s
    by (induction order arbitrary: s) (simp_all add: Let_def Close_keeps split: option.split)
  show "k \<in> set order \<Longrightarrow> cs_Connections s k = Some d \<Longrightarrow> d < length (cs_heap s) \<Longrightarrow> distinct order \<Longrightarrow>
     cn_once (cs_heap (close_all e order s) ! d)"
  proof (induction order arbitrary: s)
    case (Cons k' order)
    show ?case
    proof (cases "k = k'")
      case True
      then show ?thesis using Cons.prems keep Close_once [of d s e] by (simp add: Let_def)
    next
      case False
      then show ?thesis using Cons by (auto simp: Let_def split: option.split)
    qed
  qed simp
qed

lemma close_all_conn_ok:
  assumes "\<forall>d < length (cs_heap s). conn_ok (cs_heap s ! d)" "d < length (cs_heap s)"
  shows "conn_ok (cs_heap (close_all e order s) ! d)"
  using assms
proof (induction order arbitrary: s)
  case (Cons k order)
  have "conn_ok (cs_heap (Close e c s) ! d)" if "d < length (cs_heap s)" for c d
    using Cons.prems(1) that
    by (cases "d = c") (simp_all add: Close_def Let_def upd_conn_def on_redis_def conn_ok_def split: prod.split)
  then show ?case using Cons by (simp add: Let_def split: option.split)
qed simp

lemma heap_waitForShutdown: "cs_heap (waitForShutdown e order s) = cs_heap (close_all e order s)"
  by (simp add: waitForShutdown_def on_redis_def split: prod.split)

lemma proc_ok_internal: "internal p q \<Longrightarrow> proc_ok p \<Longrightarrow> proc_ok q"
proof (induction rule: internal.induct)
  case (close_conns p order e)
  then show ?case using close_conns by (auto simp: proc_ok_def set_cend_def heap_waitForShutdown close_all_closes(1))
next
  case (quic_return p c ei order)
  then show ?case
    using few_drops(1) [of "iot_now p" ei order c]
    by (auto simp: proc_ok_def quic_conn_end_def set_iot_def few_devices_iff card_conns_remove)
next
  case (iot_return p g)
  have "{c. IQuicConn c \<in> pr_iot_wg p \<and> IQuicConn c \<noteq> g} = {c. IQuicConn c \<in> pr_iot_wg p}"
    using iot_return by (cases g) auto
  then show ?case using iot_return by (auto simp: proc_ok_def)
next
  case (cend_stopped p order ei)
  have "tables (Stop ei order s) = tables s" for s :: "'a Server" by (simp add: Stop_def iot_frame)
  then have "s_devices (Stop ei order s) = s_devices s" for s :: "'a Server" by (simp add: tables_def)
  then show ?case using cend_stopped by (auto simp: proc_ok_def set_iot_def)
qed (auto simp: proc_ok_def)

lemma proc_ok_outside: "outside p q \<Longrightarrow> proc_ok p \<Longrightarrow> proc_ok q"
proof (induction rule: outside.induct)
  case (ws_open p i c e)
  then have "CShutdown \<in> pr_cend_wg p \<longrightarrow> conn_table_ok (conns (ws_register e i (cend_now p)))"
    by (auto simp: proc_ok_def intro!: conn_table_register)
  then show ?case using ws_open by (auto simp: proc_ok_def set_cend_def ws_register_def less_Suc_eq)
next
  case (dtls_open p c)
  then show ?case unfolding proc_ok_def by auto
next
  case (dtls_end p c ei order)
  then show ?case using few_drops(1) [of "iot_now p" ei order c] by (auto simp: proc_ok_def set_iot_def few_devices_iff)
next
  case (quic_open p c)
  have "{d. d = c \<or> IQuicConn d \<in> pr_iot_wg p} = insert c {d. IQuicConn d \<in> pr_iot_wg p}" by auto
  moreover have "finite {d. IQuicConn d \<in> pr_iot_wg p}"
    using quic_open finite_vimageI [of "pr_iot_wg p" IQuicConn] by (simp add: proc_ok_def inj_def vimage_def)
  ultimately show ?case using quic_open by (auto simp: proc_ok_def)
next
  case (quic_end p c ei order)
  then show ?case
    using few_drops(1) [of "iot_now p" ei order c]
    by (auto simp: proc_ok_def quic_conn_end_def set_iot_def few_devices_iff card_conns_remove)
next
  case (cend_work p s)
  have "CShutdown \<in> pr_cend_wg p \<longrightarrow> conn_table_ok (conns s)"
    using conn_table_step [OF cend_work(2)] cend_work(4) by (simp add: proc_ok_def)
  then show ?case using cend_work by (auto simp: proc_ok_def set_cend_def)
next
  case (iot_work p s)
  then show ?case using few_step [OF iot_work(2)] by (auto simp: proc_ok_def set_iot_def few_devices_iff)
next
  case (listener_fails p g)
  then have "{c. IQuicConn c \<in> pr_iot_wg p \<and> IQuicConn c \<noteq> g} = {c. IQuicConn c \<in> pr_iot_wg p}" by auto
  then show ?case using listener_fails by (auto simp: proc_ok_def)
qed (auto simp: proc_ok_def)

lemma proc_ok_steps: "proc_step\<^sup>*\<^sup>* p q \<Longrightarrow> proc_ok p \<Longrightarrow> proc_ok q"
  by (induction rule: rtranclp_induct) (auto elim!: proc_step.cases intro: proc_ok_internal proc_ok_outside)

lemma proc_ok_running: "gateway_main b r = Running p \<Longrightarrow> proc_ok p"
  using running_start [of b r p] by (simp add: proc_ok_def cend_goroutines_def)


text \<open>
  A stop that nothing holds up: no Redis, no DTLS connection open, a DTLS listener that \<^verbatim>\<open>Stop\<close> can close, and once \<^verbatim>\<open>waitForShutdown\<close> has run
  every connection that still has goroutines is closed.
\<close>

definition free_to_stop :: "('r, 'priv, 'pub) Proc \<Rightarrow> bool" where
  "free_to_stop p \<longleftrightarrow> proc_ok p \<and> localMode (pr_redis p) \<and> pr_stage p \<noteq> Serving \<and> (\<forall>c. IDtlsConn c \<notin> pr_iot_wg p) \<and>
     (IDtls \<in> pr_iot_wg p \<longrightarrow> pr_dtlsLis p \<and> (pr_iot_cancelled p \<longrightarrow> pr_dtls_closed p)) \<and>
     pr_main p \<noteq> ShutdownTimeout \<and>
     (CShutdown \<notin> pr_cend_wg p \<longrightarrow> (\<forall>c. CReader c \<in> pr_cend_wg p \<or> CWriter c \<in> pr_cend_wg p \<longrightarrow>
        cn_ConnClosed (cs_heap (pr_cend p) ! c) \<and> cn_CloseChan (cs_heap (pr_cend p) ! c)))"

definition steps_left :: "('r, 'priv, 'pub) Proc \<Rightarrow> nat" where
  "steps_left p = card (pr_cend_wg p) + card (pr_iot_wg p) + (if pr_http_down p then 0 else 1) +
     (case pr_stage p of Serving \<Rightarrow> 3 | CendWait \<Rightarrow> 2 | IotWait \<Rightarrow> 1 | Stopped \<Rightarrow> 0) + (if pr_main p = Waiting then 1 else 0)"

lemma steps_left_less: "internal p q \<Longrightarrow> proc_ok p \<Longrightarrow> steps_left q < steps_left p"
  by (induction rule: internal.induct)
    (auto simp: steps_left_def proc_ok_def set_cend_def set_iot_def quic_conn_end_def card_gt_0_iff intro!: diff_less)

lemma free_step:
  assumes "internal p q" "free_to_stop p"
  shows "free_to_stop q"
proof -
  have ok: "proc_ok q" "localMode (pr_redis q)"
    using assms proc_ok_internal proc_mode [OF by_itself] by (auto simp: free_to_stop_def)
  from assms(1) show ?thesis
  proof cases
    case (close_conns order e)
    have t: "conn_table_ok (conns (pr_cend p))" using assms(2) close_conns by (simp add: free_to_stop_def proc_ok_def)
    have "cn_ConnClosed (cs_heap (pr_cend q) ! c) \<and> cn_CloseChan (cs_heap (pr_cend q) ! c)" if c: "c < length (cs_heap (pr_cend p))" for c
    proof -
      have heap: "cs_heap (pr_cend q) = cs_heap (close_all e order (cend_now p))"
        using close_conns by (simp add: set_cend_def heap_waitForShutdown)
      have "cn_once (cs_heap (pr_cend p) ! c) \<or> cs_Connections (pr_cend p) (cn_ID (cs_heap (pr_cend p) ! c)) = Some c"
        using t c by (auto simp: conn_table_iff)
      then have "cn_once (cs_heap (pr_cend q) ! c)"
        using close_all_closes(2) [of "cend_now p" c e order]
          close_all_closes(3) [of "cn_ID (cs_heap (pr_cend p) ! c)" order "cend_now p" c e] c close_conns unfolding heap
        by (auto simp: key_order_def)
      moreover have "conn_ok (cs_heap (pr_cend q) ! c)"
        using close_all_conn_ok [of "cend_now p" c e order] t c unfolding heap by (simp add: conn_table_iff)
      ultimately show ?thesis by (simp add: conn_ok_def)
    qed
    then show ?thesis using assms(2) ok close_conns by (auto simp: free_to_stop_def proc_ok_def set_cend_def)
  qed (use assms(2) ok in \<open>auto simp: free_to_stop_def set_iot_def quic_conn_end_def\<close>)
qed

lemma key_order_exists: "finite (dom m) \<Longrightarrow> \<exists>order. key_order m order"
  using finite_distinct_list [of "dom m"] by (auto simp: key_order_def)

lemma free_progress:
  assumes "free_to_stop p" "pr_main p = Waiting"
  shows "\<exists>q. internal p q"
proof -
  have ok: "proc_ok p" and free: "localMode (pr_redis p)" "pr_stage p \<noteq> Serving" "\<forall>c. IDtlsConn c \<notin> pr_iot_wg p"
      "IDtls \<in> pr_iot_wg p \<longrightarrow> pr_iot_cancelled p \<longrightarrow> pr_dtls_closed p"
    using assms(1) by (simp_all add: free_to_stop_def)
  consider (closing) "CShutdown \<in> pr_cend_wg p" | (cend) "CShutdown \<notin> pr_cend_wg p" "pr_cend_wg p \<noteq> {}"
    | (cend_done) "pr_cend_wg p = {}" "pr_stage p = CendWait" | (iot) "pr_stage p = IotWait" | (stopped) "pr_stage p = Stopped"
    using free(2) by (cases "pr_stage p") auto
  then show ?thesis
  proof cases
    case closing
    then have "finite (dom (cs_Connections (pr_cend p)))" using ok by (simp add: proc_ok_def conn_table_iff)
    then obtain order where "key_order (cs_Connections (pr_cend p)) order"
      using key_order_exists by blast
    then show ?thesis
      using closing ok assms(2) free(2) internal.http_down [of p] internal.close_conns [of p order]
      by (cases "pr_http_down p") (auto simp: proc_ok_def)
  next
    case cend
    then obtain g where g: "g \<in> pr_cend_wg p" by blast
    have "cend_returns p g" using cend g assms(1) by (cases g) (auto simp: free_to_stop_def proc_ok_def)
    then show ?thesis using internal.cend_return [OF assms(2) g] by blast
  next
    case cend_done
    obtain order where "key_order (s_devices (pr_iot p)) order"
      using ok key_order_exists by (auto simp: proc_ok_def)
    then show ?thesis using internal.cend_stopped [OF assms(2) cend_done(2,1)] by blast
  next
    case iot
    show ?thesis
    proof (cases "pr_iot_wg p = {}")
      case False
      then obtain g where g: "g \<in> pr_iot_wg p" by blast
      have c: "pr_iot_cancelled p" using ok iot by (simp add: proc_ok_def)
      have "iot_returns p g \<or> (\<exists>c. g = IQuicConn c)" using g c free by (cases g) auto
      then show ?thesis using internal.iot_return [OF assms(2) g] internal.quic_return [OF assms(2) _ c] g by blast
    qed (use internal.iot_stopped [OF assms(2) iot] in blast)
  next
    case stopped
    then show ?thesis using internal.complete [OF assms(2)] by blast
  qed
qed


lemma free_run: "(internal ^^ k) p q \<Longrightarrow> free_to_stop p \<Longrightarrow> free_to_stop q \<and> steps_left q + k \<le> steps_left p"
proof (induction k arbitrary: q)
  case (Suc k)
  then obtain q1 where q1: "(internal ^^ k) p q1" "internal q1 q" by auto
  then have "free_to_stop q1" "steps_left q1 + k \<le> steps_left p" using Suc by auto
  then show ?case
    using free_step [OF q1(2)] steps_left_less [OF q1(2)] by (auto simp: free_to_stop_def)
qed simp



section \<open>A process for the witnesses\<close>

text \<open>Every text is a key; the configuration is the default one; the addresses can be bound.\<close>

definition any_keys :: "(unit, unit) key_lib" where
  "any_keys = \<lparr>pem_Decode = \<lambda>t. Some (to_bytes t), ParsePKCS1PrivateKey = \<lambda>_. Inr (), ParsePKCS8PrivateKey = \<lambda>_. Inr (RSAKey ()),
     ParsePKIXPublicKey = \<lambda>_. Inr (RSAKey ()), ParsePKCS1PublicKey = \<lambda>_. Inr (), GenerateKeyPEM = \<lambda>_. Inr (''priv'', ''pub'')\<rparr>"

definition small_boot :: "bool \<Rightarrow> (map_store, unit, unit) boot_env" where
  "small_boot ping = \<lparr>bt_version = False, bt_path = ''a.yml'', bt_ReadFile = \<lambda>_. Inr [], bt_Getenv = \<lambda>_. [], bt_yaml = \<lambda>_ c. Inr c,
     bt_json = \<lambda>_ c. Inr c, bt_keys = any_keys, bt_ping = ping, bt_dial = \<lambda>_. False, bt_sha256 = \<lambda>_. replicate 32 0, bt_order = [],
     bt_cend_id = ''gw-c'', bt_iot_id = ''gw-i'', bt_resolve = Inr (), bt_listen = Inr (), bt_cenv = small_cenv ''c'' 0, bt_env = small_env ''S1'' 0\<rparr>"

lemma small_boot_running: "\<exists>p. gateway_main (small_boot ping) ms_empty = Running p"
proof -
  have c: "boot_config (small_boot ping) = Inr DefaultConfig"
    by (simp add: boot_config_def small_boot_def Load_def parse_config_def hasSuffix_def Validate_def DefaultConfig_def
        LoadJWTKeyFiles_def ApplyEnvOverrides_def)
  have "NewJWTManager any_keys priv pub iss t = Inr \<lparr>jm_privateKey = (), jm_publicKey = (), jm_issuer = iss, jm_ttl = t\<rparr>" for priv pub iss t
    by (simp add: NewJWTManager_def parse_private_def parse_public_def any_keys_def)
  then have "\<exists>m ks. ensured (small_boot ping) DefaultConfig = (Inr m, ks)"
    by (simp add: EnsureRSAKeys_def small_boot_def) (simp add: any_keys_def)
  then show ?thesis using c by (simp add: gateway_main_running small_boot_def DefaultConfig_def)
qed

theorem process_comes_up_witness:
  "\<exists>p. gateway_main (small_boot True) ms_empty = Running p \<and> registered map_redis (pr_redis p) ''gw-c'' \<and> registered map_redis (pr_redis p) ''gw-i''"
proof -
  obtain p where p: "gateway_main (small_boot True) ms_empty = Running p" using small_boot_running by blast
  have e: "e_ops (bt_env (small_boot True)) = map_redis" "ce_ops (bt_cenv (small_boot True)) = map_redis"
    "bt_cend_id (small_boot True) = ''gw-c''" "bt_iot_id (small_boot True) = ''gw-i''"
    by (simp_all add: small_boot_def small_env_def small_cenv_def)
  show ?thesis using process_comes_up [of "small_boot True" ms_empty, unfolded e] p by (simp add: map_redis_hash_laws)
qed

lemma signalled: "pr_main p = Waiting \<Longrightarrow> pr_stage p = Serving \<Longrightarrow> proc_step\<^sup>*\<^sup>* p (p\<lparr>pr_stage := CendWait, pr_cend_cancelled := True\<rparr>)"
  by (intro r_into_rtranclp proc_step.from_outside outside.signal)

theorem redis_shutdown_never_completes_witness:
  "\<exists>p q. gateway_main (small_boot True) ms_empty = Running p \<and> proc_step\<^sup>*\<^sup>* p q \<and> pr_stage q = CendWait \<and> CEvents \<in> pr_cend_wg q"
proof -
  obtain p where p: "gateway_main (small_boot True) ms_empty = Running p" using small_boot_running by blast
  let ?q = "p\<lparr>pr_stage := CendWait, pr_cend_cancelled := True\<rparr>"
  have s: "proc_step\<^sup>*\<^sup>* p ?q" using signalled running_start(3,4) [OF p] by blast
  have "bt_ping (small_boot True)" by (simp add: small_boot_def)
  from redis_shutdown_never_completes [OF p this s] show ?thesis
    using p s by (intro exI [of _ p] exI [of _ ?q]) simp
qed

lemma bounded_run_ends:
  assumes "\<exists>n. \<forall>k q. (R ^^ k) p q \<longrightarrow> k \<le> n"
  shows "\<exists>q. R\<^sup>*\<^sup>* p q \<and> (\<nexists>q'. R q q')"
proof -
  obtain n where n: "\<forall>k q. (R ^^ k) p q \<longrightarrow> k \<le> n" using assms by blast
  let ?P = "\<lambda>k. \<exists>q. (R ^^ k) p q"
  have "?P 0" by auto
  then have k: "?P (GREATEST k. ?P k)" "\<And>j. ?P j \<Longrightarrow> j \<le> (GREATEST k. ?P k)"
    using GreatestI_nat [of ?P 0 n] Greatest_le_nat [of ?P _ n] n by blast+
  then obtain q where q: "(R ^^ (GREATEST k. ?P k)) p q" by blast
  have "\<not> R q q'" for q'
  proof
    assume "R q q'"
    then have "?P (Suc (GREATEST k. ?P k))" using q by auto
    then show False using k(2) by fastforce
  qed
  then show ?thesis using q by (auto simp: rtranclp_power)
qed

lemma signalled_listening:
  assumes "pr_main p = Waiting" "pr_stage p = Serving"
  shows "\<exists>q. proc_step\<^sup>*\<^sup>* p q \<and> pr_stage q = CendWait \<and> pr_main q = Waiting \<and> pr_cend_wg q = pr_cend_wg p \<and>
    pr_iot_wg q = pr_iot_wg p \<and> (IDtls \<in> pr_iot_wg q \<longrightarrow> pr_dtlsLis q)"
proof (cases "IDtls \<in> pr_iot_wg p")
  case True
  then have "proc_step p (p\<lparr>pr_dtlsLis := True\<rparr>)" using assms by (intro proc_step.from_outside outside.dtls_listens)
  then show ?thesis using signalled [of "p\<lparr>pr_dtlsLis := True\<rparr>"] assms
    by (intro exI [of _ "p\<lparr>pr_dtlsLis := True, pr_stage := CendWait, pr_cend_cancelled := True\<rparr>"])
      (auto intro: converse_rtranclp_into_rtranclp)
next
  case False
  then show ?thesis using signalled [of p] assms by (intro exI [of _ "p\<lparr>pr_stage := CendWait, pr_cend_cancelled := True\<rparr>"]) simp
qed


end
