(* ===== verification/Views.thy ===== *)
theory Views
  imports Process
begin

text \<open>
  What the process shows of itself: the \<^verbatim>\<open>/health\<close> endpoint of \<^verbatim>\<open>main/gateway/main.go\<close> and the read-only views
  of the admin console, \<^verbatim>\<open>apiOverview\<close>, \<^verbatim>\<open>apiShadows\<close> and \<^verbatim>\<open>apiConfig\<close> of \<^verbatim>\<open>internal/gateway/admin/admin.go\<close>.
  A JSON object is the list of its members in the order of the source.  The overview shows under
  every name of the health endpoint the same value; the view of a device shows what the shadow
  manager and the command queue answer; the configuration view does not depend on any secret.
\<close>

datatype view = VStr string | VInt int | VBool bool | VNull | VStrs "string list" | VFields "(string \<times> string) list" | VObj "(string \<times> view) list"

section \<open>Counters\<close>

text \<open>A Go map of counters read at a name it may not have.\<close>

definition stat :: "(string \<times> int) list \<Rightarrow> string \<Rightarrow> int" where
  "stat l k = (case map_of l k of Some v \<Rightarrow> v | None \<Rightarrow> 0)"

definition GetOnlineDeviceCount :: "'r Server \<Rightarrow> int" where
  "GetOnlineDeviceCount s = int (card (dom (s_devices s)))"

definition GetSessionCount :: "'r Server \<Rightarrow> int" where
  "GetSessionCount s = int (card (dom (s_sessions s)))"

definition GetQUICConnCount :: "('r, 'priv, 'pub) Proc \<Rightarrow> int" where
  "GetQUICConnCount p = pr_quicConnCount p"

definition ActiveIPCount :: "IPLimiter \<Rightarrow> int" where
  "ActiveIPCount l = int (card (dom (ip_buckets l)))"

text \<open>A counter of both shadow managers, and of both command queues.\<close>

definition shadow_stat :: "('r, 'priv, 'pub) Proc \<Rightarrow> string \<Rightarrow> view" where
  "shadow_stat p k = VInt (stat (Manager_Stats (s_Shadow (pr_iot p))) k + stat (Manager_Stats (cs_Shadow (pr_cend p))) k)"

definition queue_stat :: "('r, 'priv, 'pub) Proc \<Rightarrow> string \<Rightarrow> view" where
  "queue_stat p k = VInt (stat (Queue_Stats (cs_CmdQueue (pr_cend p))) k + stat (Queue_Stats (s_CmdQueue (pr_iot p))) k)"

section \<open>The health endpoint\<close>

definition health :: "('r, 'priv, 'pub) Proc \<Rightarrow> (string \<times> view) list" where
  "health p =
     (let (connAccepted, connRejected) = ConnectLimiter_Stats (s_ConnectLimiter (pr_iot p)); m = s_Metrics (pr_iot p) in
      [(''status'', VStr ''ok''),
       (''cend_conns'', VInt (cs_ConnCount (pr_cend p))),
       (''iot_devices'', VInt (GetOnlineDeviceCount (pr_iot p))),
       (''iot_sessions'', VInt (GetSessionCount (pr_iot p))),
       (''iot_connect_cnt'', VInt (ConnectCount m)),
       (''iot_publish_cnt'', VInt (PublishCount m)),
       (''iot_packets'', VInt (s_PacketCount (pr_iot p))),
       (''iot_dropped'', VInt (s_Dropped (pr_iot p))),
       (''iot_errors'', VInt (ErrorCount m)),
       (''quic_conns'', VInt (GetQUICConnCount p)),
       (''redis_local'', VBool (IsLocalMode (pr_redis p))),
       (''kafka_available'', VBool (IsAvailable (s_mq (pr_iot p)))),
       (''shadow_events'', shadow_stat p ''shadow_events''),
       (''shadow_preoccupy_ok'', shadow_stat p ''shadow_preoccupy_ok''),
       (''shadow_preoccupy_reject'', shadow_stat p ''shadow_preoccupy_reject''),
       (''shadow_rollback'', shadow_stat p ''shadow_rollback''),
       (''shadow_offline'', shadow_stat p ''shadow_offline''),
       (''cmd_enqueued'', queue_stat p ''cmd_enqueued''),
       (''cmd_done'', queue_stat p ''cmd_done''),
       (''cmd_duplicated'', queue_stat p ''cmd_duplicated''),
       (''rate_connect_ok'', VInt connAccepted),
       (''rate_connect_rejected'', VInt connRejected),
       (''rate_accept_rejected'', VInt (RejectedCount (cs_AcceptLimiter (pr_cend p)))),
       (''rate_ip_tracked'', VInt (ActiveIPCount (s_IPLimiter (pr_iot p))))])"

section \<open>The views of the console\<close>

text \<open>The number of keys with a prefix; a failed call counts none.\<close>

definition count_keys :: "'r redis_ops \<Rightarrow> 'r admin_ops \<Rightarrow> string \<Rightarrow> 'r RedisState \<Rightarrow> int \<times> 'r RedisState" where
  "count_keys ops aops pat g =
     (case store_call ops g (\<lambda>r. (Inr (KEYS aops r pat), r)) of
        (Inr ks, g1) \<Rightarrow> (int (length ks), g1)
      | (Inl _, g1) \<Rightarrow> (0, g1))"

text \<open>The shadows, online marks and command queues in the store, counted in three scans.\<close>

definition store_counts :: "'r redis_ops \<Rightarrow> 'r admin_ops \<Rightarrow> 'r RedisState \<Rightarrow> int \<times> int \<times> int \<times> 'r RedisState" where
  "store_counts ops aops g =
     (if IsLocalMode g then (0, 0, 0, g)
      else (let (a, g1) = count_keys ops aops ''shadow:dev:'' g;
                (b, g2) = count_keys ops aops ''shadow:online:'' g1;
                (c, g3) = count_keys ops aops ''cmd:q:'' g2
            in (a, b, c, g3)))"

definition apiOverview :: "'r redis_ops \<Rightarrow> 'r admin_ops \<Rightarrow> int \<Rightarrow> ('r, 'priv, 'pub) Proc \<Rightarrow> (string \<times> view) list \<times> ('r, 'priv, 'pub) Proc" where
  "apiOverview ops aops now p =
     (let (connAccepted, connRejected) = ConnectLimiter_Stats (s_ConnectLimiter (pr_iot p)); m = s_Metrics (pr_iot p);
          (shadowCount, onlineCount, queueCount, g) = store_counts ops aops (pr_redis p)
      in ([(''status'', VStr ''ok''),
           (''ts'', VInt (now div second)),
           (''cend_conns'', VInt (cs_ConnCount (pr_cend p))),
           (''iot_devices'', VInt (GetOnlineDeviceCount (pr_iot p))),
           (''iot_sessions'', VInt (GetSessionCount (pr_iot p))),
           (''quic_conns'', VInt (GetQUICConnCount p)),
           (''iot_connect_cnt'', VInt (ConnectCount m)),
           (''iot_publish_cnt'', VInt (PublishCount m)),
           (''iot_packets'', VInt (s_PacketCount (pr_iot p))),
           (''iot_dropped'', VInt (s_Dropped (pr_iot p))),
           (''iot_errors'', VInt (ErrorCount m)),
           (''redis_local'', VBool (IsLocalMode g)),
           (''kafka_available'', VBool (IsAvailable (s_mq (pr_iot p)))),
           (''shadow_total'', VInt shadowCount),
           (''shadow_online'', VInt onlineCount),
           (''cmd_queues'', VInt queueCount),
           (''shadow_events'', shadow_stat p ''shadow_events''),
           (''shadow_preoccupy_ok'', shadow_stat p ''shadow_preoccupy_ok''),
           (''shadow_preoccupy_reject'', shadow_stat p ''shadow_preoccupy_reject''),
           (''shadow_rollback'', shadow_stat p ''shadow_rollback''),
           (''shadow_offline'', shadow_stat p ''shadow_offline''),
           (''cmd_enqueued'', queue_stat p ''cmd_enqueued''),
           (''cmd_done'', queue_stat p ''cmd_done''),
           (''cmd_duplicated'', queue_stat p ''cmd_duplicated''),
           (''rate_connect_ok'', VInt connAccepted),
           (''rate_connect_rejected'', VInt connRejected),
           (''rate_accept_rejected'', VInt (RejectedCount (cs_AcceptLimiter (pr_cend p)))),
           (''rate_ip_tracked'', VInt (ActiveIPCount (s_IPLimiter (pr_iot p))))],
          p\<lparr>pr_redis := g\<rparr>))"


text \<open>
  \<^verbatim>\<open>strings.TrimSpace\<close>: the white space characters as their UTF-8 bytes, taken off at the front and, on
  the reversed text, at the back.
\<close>

definition go_spaces :: "string list" where
  "go_spaces = map utf8 ([[0x09], [0x0A], [0x0B], [0x0C], [0x0D], [0x20], [0xC2, 0x85], [0xC2, 0xA0], [0xE1, 0x9A, 0x80], [0xE2, 0x80, 0xA8],
     [0xE2, 0x80, 0xA9], [0xE2, 0x80, 0xAF], [0xE2, 0x81, 0x9F], [0xE3, 0x80, 0x80]] @ map (\<lambda>i. [0xE2, 0x80, 0x80 + i]) [0..<11])"

function strip :: "string list \<Rightarrow> string \<Rightarrow> string" where
  "strip ws s = (case find (\<lambda>w. w \<noteq> [] \<and> take (length w) s = w) ws of Some w \<Rightarrow> strip ws (drop (length w) s) | None \<Rightarrow> s)"
  by pat_completeness auto
termination
proof (relation "measure (\<lambda>(ws, s). length s)")
  fix ws s w assume "find (\<lambda>w. w \<noteq> [] \<and> take (length w) s = w) ws = Some (w :: string)"
  then have "w \<noteq> []" "take (length w) s = w" by (auto simp: find_Some_iff)
  then have "0 < length w" "length w \<le> length s" by auto (metis length_take min.cobounded1)
  then show "((ws, drop (length w) s), (ws, s)) \<in> measure (\<lambda>(ws, s). length s)" by (simp only: in_measure split_conv length_drop diff_less)
qed simp

declare strip.simps [simp del]

definition TrimSpace :: "string \<Rightarrow> string" where
  "TrimSpace s = rev (strip (map rev go_spaces) (rev (strip go_spaces s)))"

text \<open>A call whose error is ignored: the zero value of its result.\<close>

definition or_zero :: "'v \<Rightarrow> 'v result \<times> 'g \<Rightarrow> 'v \<times> 'g" where
  "or_zero z rg = (case fst rg of Inr v \<Rightarrow> v | Inl _ \<Rightarrow> z, snd rg)"

definition apiShadows :: "'r redis_ops \<Rightarrow> string \<Rightarrow> 'r RedisState \<Rightarrow> (string \<times> view) list \<times> 'r RedisState" where
  "apiShadows ops param g =
     (let device = TrimSpace param in
      if device = [] then ([(''error'', VStr ''device param required'')], g)
      else if IsLocalMode g then
        ([(''device'', VStr device), (''local_mode'', VBool True), (''note'', VStr ((''Redis '' @ utf8 [0xE6, 0x9C, 0xAC, 0xE5, 0x9C, 0xB0, 0xE9, 0x99, 0x8D, 0xE7, 0xBA, 0xA7, 0xE6, 0xA8, 0xA1, 0xE5, 0xBC, 0x8F, 0xEF, 0xBC, 0x8C, 0xE5, 0xBD, 0xB1, 0xE5, 0xAD, 0x90, 0xE5, 0x9C, 0xA8, 0xE5, 0x86, 0x85, 0xE5, 0xAD, 0x98, 0xE4, 0xB8, 0xAD])))], g)
      else
        (let (shadow, g1) = or_zero VNull (store_call ops g (\<lambda>r. (Inr (VFields (HGETALL ops r (''shadow:dev:'' @ device))), r)));
             (online, g2) = or_zero [] (store_call ops g1 (\<lambda>r.
                (case GETK ops r (''shadow:online:'' @ device) of None \<Rightarrow> Inl (Error ''redis: nil'') | Some v \<Rightarrow> Inr v, r)));
             (queueLen, g3) = or_zero 0 (store_call ops g2 (\<lambda>r. (Inr (int (length (LRANGE ops r (''cmd:q:'' @ device)))), r)));
             (queue, g4) = or_zero VNull (store_call ops g3 (\<lambda>r. (Inr (VStrs (take 10 (LRANGE ops r (''cmd:q:'' @ device)))), r)));
             (iotDev, g5) = or_zero [] (hget_call ops ''iot_devices'' device g4)
         in ([(''device'', VStr device), (''shadow'', shadow), (''online_ts'', VStr online), (''queue_len'', VInt queueLen),
              (''queue_head'', queue), (''iot_devices'', VStr iotDev)], g5)))"

definition apiConfig :: "('r, 'priv, 'pub) Proc \<Rightarrow> Config \<Rightarrow> (string \<times> view) list" where
  "apiConfig p cfg =
     (let c = cfg_Cend cfg; i = cfg_IoT cfg; r = cfg_Redis cfg; h = cfg_Shadow cfg; l = cfg_RateLimit cfg in
      [(''cend'', VObj [(''host'', VStr (cend_Host c)), (''port'', VInt (cend_Port c)),
         (''max_connections'', VInt (cend_MaxConnections c)), (''heartbeat_timeout'', VInt (cend_HeartbeatTimeout c))]),
       (''iot'', VObj [(''host'', VStr (iot_Host i)), (''port'', VInt (iot_Port i)),
         (''dtls_enabled'', VBool (iot_DTLSEnabled i)), (''dtls_port'', VInt (iot_DTLSPort i)),
         (''quic_enabled'', VBool (iot_QUICEnabled i)), (''quic_port'', VInt (iot_QUICPort i)),
         (''worker_count'', VInt (iot_WorkerCount i)), (''session_timeout'', VInt (iot_SessionTimeout i))]),
       (''redis'', VObj [(''addr'', VStr (red_Addr r)), (''local_mode'', VBool (IsLocalMode (pr_redis p))), (''pool_size'', VInt (red_PoolSize r))]),
       (''kafka'', VObj [(''available'', VBool (IsAvailable (s_mq (pr_iot p)))), (''brokers'', VStrs (kaf_Brokers (cfg_Kafka cfg)))]),
       (''shadow'', VObj [(''enabled'', VBool (shc_Enabled h)), (''offline_ttl'', VInt (shc_OfflineTTLSeconds h)),
         (''preoccupy_timeout'', VInt (shc_PreoccupyTimeoutSeconds h))]),
       (''rate_limit'', VObj [(''enabled'', VBool (rl_Enabled l)), (''connect_rate'', VInt (rl_ConnectRate l)),
         (''udp_per_ip_rate'', VInt (rl_UDPPerIPRate l)), (''cend_accept_rate'', VInt (rl_CendAcceptRate l))])])"

section \<open>What the views show\<close>

lemma mode_count_keys: "localMode (snd (count_keys ops aops pat g)) = localMode g"
  using mode_store_call [of ops g "\<lambda>r. (Inr (KEYS aops r pat), r)"] by (auto simp: count_keys_def split: prod.split sum.split)

lemma mode_store_counts: "localMode (snd (snd (snd (store_counts ops aops g)))) = localMode g"
  by (simp add: store_counts_def Let_def case_prod_beta mode_count_keys)

definition overview_names :: "string list" where
  "overview_names = [''status'', ''ts'', ''cend_conns'', ''iot_devices'', ''iot_sessions'', ''quic_conns'', ''iot_connect_cnt'', ''iot_publish_cnt'',
     ''iot_packets'', ''iot_dropped'', ''iot_errors'', ''redis_local'', ''kafka_available'', ''shadow_total'', ''shadow_online'', ''cmd_queues'',
     ''shadow_events'', ''shadow_preoccupy_ok'', ''shadow_preoccupy_reject'', ''shadow_rollback'', ''shadow_offline'', ''cmd_enqueued'',
     ''cmd_done'', ''cmd_duplicated'', ''rate_connect_ok'', ''rate_connect_rejected'', ''rate_accept_rejected'', ''rate_ip_tracked'']"

lemma overview_names_distinct: "distinct overview_names"
  by code_simp

text \<open>
  The overview of the console and the health endpoint agree: whatever \<^verbatim>\<open>/health\<close> shows, under each
  of its names, is what the overview shows under that name, whether or not Redis answers; and the
  overview leaves the gateways as they are.
\<close>

theorem overview_agrees_with_health:
  "(\<forall>k v. map_of (health p) k = Some v \<longrightarrow> map_of (fst (apiOverview ops aops now p)) k = Some v) \<and>
   pr_cend (snd (apiOverview ops aops now p)) = pr_cend p \<and> pr_iot (snd (apiOverview ops aops now p)) = pr_iot p"
proof -
  obtain a b c g where g: "store_counts ops aops (pr_redis p) = (a, b, c, g)" by (metis prod_cases4)
  then have mode: "localMode g = localMode (pr_redis p)" using mode_store_counts [of ops aops "pr_redis p"] by simp
  obtain acc rej where l: "ConnectLimiter_Stats (s_ConnectLimiter (pr_iot p)) = (acc, rej)" by fastforce
  have names: "map fst (fst (apiOverview ops aops now p)) = overview_names"
    unfolding apiOverview_def g l Let_def overview_names_def by (simp only: split_conv fst_conv list.map)
  have members: "set (health p) \<subseteq> set (fst (apiOverview ops aops now p))"
    unfolding apiOverview_def g l health_def Let_def split_conv fst_conv IsLocalMode_def mode list.set
    by (intro insert_subsetI empty_subsetI; simp only: insert_iff simp_thms)
  have "map_of (fst (apiOverview ops aops now p)) k = Some v" if "map_of (health p) k = Some v" for k v
    using map_of_SomeD [OF that] members overview_names_distinct unfolding names [symmetric] by (auto intro: map_of_is_SomeI)
  moreover have "pr_cend (snd (apiOverview ops aops now p)) = pr_cend p \<and> pr_iot (snd (apiOverview ops aops now p)) = pr_iot p"
    unfolding apiOverview_def g l Let_def by simp
  ultimately show ?thesis by blast
qed


text \<open>
  C32: The view of a device shows what the components answer.  With Redis its \<^verbatim>\<open>queue_len\<close> is the pending
  count of the command queue, the commands in \<^verbatim>\<open>queue_head\<close> are those a fetch of ten returns, and the state,
  version and gateway of the shadow manager's answer are read from the fields in \<^verbatim>\<open>shadow\<close>; looking
  changes nothing in the store.
\<close>

theorem device_view_exact:
  assumes "quiet ops" "\<not> localMode g" "TrimSpace param = d" "d \<noteq> []" "q_enabled q" "m_Enabled m"
  shows "\<exists>fs vs n. apiShadows ops param g =
      ([(''device'', VStr d), (''shadow'', VFields fs), (''online_ts'', VStr (case GETK ops (store g) (onlineKey d) of Some t \<Rightarrow> t | None \<Rightarrow> [])),
        (''queue_len'', VInt n), (''queue_head'', VStrs vs),
        (''iot_devices'', VStr (case HGET ops (store g) ''iot_devices'' d of Some t \<Rightarrow> t | None \<Rightarrow> []))], g) \<and>
    fst (PendingCount ops d (q, g)) = Inr n \<and>
    fst (Fetch ops cj d 10 (q, g)) = Inr (unjson_queued cj vs) \<and>
    (\<exists>sh. fst (Get ops now d (m, g)) = Inr sh \<and> sh_Version sh = (if fs = [] then 0 else sscanf_d (field fs ''version'') 0) \<and>
      sh_State sh = (if fs = [] \<or> field fs ''state'' = [] then StateOffline else field fs ''state'') \<and>
      sh_GatewayID sh = (if fs = [] then [] else field fs ''gateway_id''))"
proof -
  have g: "g\<lparr>store := store g\<rparr> = g" by simp
  show ?thesis
    using assms
    by (intro exI [of _ "HGETALL ops (store g) (shadowKey d)"] exI [of _ "take 10 (LRANGE ops (store g) (cmdKey d))"]
        exI [of _ "int (length (LRANGE ops (store g) (cmdKey d)))"])
      (auto simp: apiShadows_def PendingCount_def Fetch_def Get_def or_zero_def hget_call_def IsLocalMode_def cmdKey_def shadowKey_def onlineKey_def
        shadowKeyPrefix_def Let_def offline_shadow_def field_def split: option.split)
qed

text \<open>
  The configuration view does not depend on any secret: not on the keys, key files and other settings
  of the authentication, the Redis password, the default pre-shared key of devices or the key of the QUIC certificate.
\<close>

theorem config_view_hides_secrets:
  "apiConfig p (cfg\<lparr>cfg_Auth := a, cfg_Redis := (cfg_Redis cfg)\<lparr>red_Password := w\<rparr>,
     cfg_IoT := (cfg_IoT cfg)\<lparr>iot_PSK := k, iot_QUICKey := qk\<rparr>\<rparr>) = apiConfig p cfg"
  by (simp add: apiConfig_def Let_def)

text \<open>A process with Redis, and a device with a shadow and one queued text, asked for with spaces around its name.\<close>

theorem overview_agrees_with_health_witness:
  "\<exists>p. gateway_main (small_boot True) ms_empty = Running p \<and>
     map_of (fst (apiOverview map_redis small_admin_ops 0 p)) ''redis_local'' = Some (VBool False)"
proof -
  obtain p where p: "gateway_main (small_boot True) ms_empty = Running p" using small_boot_running by blast
  have "localMode (pr_redis p) = False" using running_start(1) [OF p] by (simp add: small_boot_def)
  then have "map_of (health p) ''redis_local'' = Some (VBool False)"
    by (simp add: health_def IsLocalMode_def case_prod_beta Let_def)
  then show ?thesis using p overview_agrees_with_health [of p map_redis small_admin_ops 0] by blast
qed

definition seen_redis :: "map_store RedisState" where
  "seen_redis = (empty_redis False)\<lparr>store := RPUSH map_redis (HMSET map_redis ms_empty ''shadow:dev:d1'' [(''state'', ''idle'')]) ''cmd:q:d1'' ''c1''\<rparr>"

lemma spaced_name: "TrimSpace '' d1 '' = ''d1''"
  by code_simp

theorem device_view_exact_witness:
  "\<exists>fs vs n. fst (apiShadows map_redis '' d1 '' seen_redis) =
      [(''device'', VStr ''d1''), (''shadow'', VFields fs), (''online_ts'', VStr []), (''queue_len'', VInt n), (''queue_head'', VStrs vs),
       (''iot_devices'', VStr [])] \<and>
    fst (PendingCount map_redis ''d1'' (NewQueue (cfg_Shadow DefaultConfig), seen_redis)) = Inr n"
proof -
  have h: "\<not> localMode seen_redis" "''d1'' \<noteq> ([] :: string)" "q_enabled (NewQueue (cfg_Shadow DefaultConfig))"
      "m_Enabled (NewManager (cfg_Shadow DefaultConfig))"
    by (simp_all add: seen_redis_def empty_redis_def DefaultConfig_def NewQueue_def NewManager_def Let_def)
  have e: "GETK map_redis (store seen_redis) (onlineKey ''d1'') = None" "HGET map_redis (store seen_redis) ''iot_devices'' ''d1'' = None"
    by (simp_all add: seen_redis_def map_redis_def ms_empty_def)
  from device_view_exact [OF map_redis_quiet h(1) spaced_name h(2-4)]
  obtain fs vs n where "apiShadows map_redis '' d1 '' seen_redis =
      ([(''device'', VStr ''d1''), (''shadow'', VFields fs), (''online_ts'', VStr []), (''queue_len'', VInt n), (''queue_head'', VStrs vs),
        (''iot_devices'', VStr [])], seen_redis)"
    "fst (PendingCount map_redis ''d1'' (NewQueue (cfg_Shadow DefaultConfig), seen_redis)) = Inr n"
    unfolding e option.case by blast
  then show ?thesis by (metis fst_conv)
qed

end
