(* ===== verification/Credentials.thy ===== *)
theory Credentials
  imports Auth
begin

text \<open>
  Key material: the RSA pair of \<^verbatim>\<open>internal/auth/jwt.go\<close> and the certificate files of
  \<^verbatim>\<open>internal/gateway/iot/quic_tls.go\<close>.  The cryptographic libraries are parameters; the file system is a table of
  files and directories.  Properties: whatever keys are configured, the keys the gateway ends up with
  are usable and stay the same when it looks again; the certificate files are made once and load, and
  two ways in which making them destroys or never completes a pair.
\<close>

section \<open>RSA keys for tokens\<close>

record ('priv, 'pub) rsa_lib =
  rsa_GenerateKey :: "int \<Rightarrow> 'priv result"
  rsa_Public :: "'priv \<Rightarrow> 'pub"
  MarshalPKCS1PrivateKey :: "'priv \<Rightarrow> bytes"
  MarshalPKIXPublicKey :: "'pub \<Rightarrow> bytes result"
  pem_Encode :: "string \<Rightarrow> bytes \<Rightarrow> string"

definition GenerateRSAKeyPair :: "('priv, 'pub) rsa_lib \<Rightarrow> int \<Rightarrow> (string \<times> string) result" where
  "GenerateRSAKeyPair rl bits =
     (if bits < 2048 then Inl (Error ''RSA key size must be at least 2048 bits'')
      else (case rsa_GenerateKey rl bits of
          Inl e \<Rightarrow> Inl (wrap_error ''failed to generate RSA key: '' e)
        | Inr privateKey \<Rightarrow>
            (case MarshalPKIXPublicKey rl (rsa_Public rl privateKey) of
               Inl e \<Rightarrow> Inl (wrap_error ''failed to marshal public key: '' e)
             | Inr publicKeyBytes \<Rightarrow>
                 Inr (pem_Encode rl ''RSA PRIVATE KEY'' (MarshalPKCS1PrivateKey rl privateKey), pem_Encode rl ''PUBLIC KEY'' publicKeyBytes))))"

definition LoadRSAKeys :: "(string \<Rightarrow> string result) \<Rightarrow> string \<Rightarrow> string \<Rightarrow> (string \<times> string) result" where
  "LoadRSAKeys readFile privateKeyPath publicKeyPath =
     (case readFile privateKeyPath of
        Inl e \<Rightarrow> Inl (wrap_error ''failed to read private key: '' e)
      | Inr privateKeyPEM \<Rightarrow>
          (case readFile publicKeyPath of
             Inl e \<Rightarrow> Inl (wrap_error ''failed to read public key: '' e)
           | Inr publicKeyPEM \<Rightarrow> Inr (privateKeyPEM, publicKeyPEM)))"

text \<open>What parsing promises of encoded keys: the block and the key come back, and a block is not empty.\<close>

definition rsa_laws :: "('priv, 'pub) key_lib \<Rightarrow> ('priv, 'pub) rsa_lib \<Rightarrow> bool" where
  "rsa_laws kl rl \<longleftrightarrow>
     (\<forall>t b. pem_Decode kl (pem_Encode rl t b) = Some b \<and> pem_Encode rl t b \<noteq> []) \<and>
     (\<forall>k. ParsePKCS1PrivateKey kl (MarshalPKCS1PrivateKey rl k) = Inr k) \<and>
     (\<forall>p b. MarshalPKIXPublicKey rl p = Inr b \<longrightarrow> ParsePKIXPublicKey kl b = Inr (RSAKey p))"

lemma generated_pair_parses:
  assumes "rsa_laws kl rl" "GenerateRSAKeyPair rl bits = Inr (priv, pub)"
  obtains k where "rsa_GenerateKey rl bits = Inr k" "priv \<noteq> []" "pub \<noteq> []"
    "\<And>iss t. NewJWTManager kl priv pub iss t = Inr \<lparr>jm_privateKey = k, jm_publicKey = rsa_Public rl k, jm_issuer = iss, jm_ttl = t\<rparr>"
  using assms
  by (auto simp: GenerateRSAKeyPair_def NewJWTManager_def parse_private_def parse_public_def rsa_laws_def split: if_splits sum.splits)

lemma ensured_usable:
  "priv \<noteq> [] \<Longrightarrow> pub \<noteq> [] \<Longrightarrow> NewJWTManager kl priv pub iss (2 * hour) = Inr m \<Longrightarrow> EnsureRSAKeys kl priv pub iss = (Inr m, priv, pub)"
  by (simp add: EnsureRSAKeys_def)

text \<open>
  When key generation works, the gateway always ends up with usable keys: either those configured, or
  a generated private key with its own public key; and looking again with the texts it stored
  gives the same manager and leaves them as they are.
\<close>

theorem ensured_keys_stay:
  assumes "rsa_laws kl rl" "GenerateKeyPEM kl = GenerateRSAKeyPair rl"
    and "rsa_GenerateKey rl 2048 = Inr k" "MarshalPKIXPublicKey rl (rsa_Public rl k) = Inr b"
  shows "\<exists>m priv' pub'. EnsureRSAKeys kl priv pub iss = (Inr m, priv', pub') \<and>
    (NewJWTManager kl priv pub iss (2 * hour) = Inr m \<and> priv' = priv \<and> pub' = pub \<or>
     jm_privateKey m = k \<and> jm_publicKey m = rsa_Public rl k) \<and>
    EnsureRSAKeys kl priv' pub' iss = (Inr m, priv', pub')"
proof (cases "\<exists>m. priv \<noteq> [] \<and> pub \<noteq> [] \<and> NewJWTManager kl priv pub iss (2 * hour) = Inr m")
  case True
  then show ?thesis using ensured_usable by blast
next
  case False
  obtain priv' pub' where g: "GenerateRSAKeyPair rl 2048 = Inr (priv', pub')" using assms(3,4) by (simp add: GenerateRSAKeyPair_def)
  from generated_pair_parses [OF assms(1) g] assms(3)
  have new: "priv' \<noteq> []" "pub' \<noteq> []"
    "NewJWTManager kl priv' pub' iss (2 * hour) = Inr \<lparr>jm_privateKey = k, jm_publicKey = rsa_Public rl k, jm_issuer = iss, jm_ttl = 2 * hour\<rparr>"
    by auto
  have "EnsureRSAKeys kl priv pub iss =
      (Inr \<lparr>jm_privateKey = k, jm_publicKey = rsa_Public rl k, jm_issuer = iss, jm_ttl = 2 * hour\<rparr>, priv', pub')"
    using False g assms(2) new(3) by (auto simp: EnsureRSAKeys_def split: sum.split)
  then show ?thesis using ensured_usable [OF new] by auto
qed

text \<open>A library whose keys are numbers, printed in a block.\<close>

definition count_rsa :: "(nat, nat) rsa_lib" where
  "count_rsa = \<lparr>rsa_GenerateKey = \<lambda>_. Inr 7, rsa_Public = \<lambda>k. k + 1, MarshalPKCS1PrivateKey = \<lambda>k. replicate k 0,
     MarshalPKIXPublicKey = \<lambda>p. Inr (replicate p 1), pem_Encode = \<lambda>t b. CHR ''-'' # to_string b\<rparr>"

definition count_keys_lib :: "(nat, nat) key_lib" where
  "count_keys_lib = \<lparr>pem_Decode = \<lambda>t. case t of [] \<Rightarrow> None | c # b \<Rightarrow> if c = CHR ''-'' then Some (to_bytes b) else None,
     ParsePKCS1PrivateKey = \<lambda>b. Inr (length b), ParsePKCS8PrivateKey = \<lambda>b. Inr (RSAKey (length b)),
     ParsePKIXPublicKey = \<lambda>b. Inr (RSAKey (length b)), ParsePKCS1PublicKey = \<lambda>b. Inr (length b),
     GenerateKeyPEM = GenerateRSAKeyPair count_rsa\<rparr>"

theorem ensured_keys_stay_witness:
  "\<exists>m priv' pub'. EnsureRSAKeys count_keys_lib ''rubbish'' ''x'' ''iss'' = (Inr m, priv', pub') \<and> jm_publicKey m = 8 \<and>
    EnsureRSAKeys count_keys_lib priv' pub' ''iss'' = (Inr m, priv', pub')"
proof -
  have laws: "rsa_laws count_keys_lib count_rsa" "GenerateKeyPEM count_keys_lib = GenerateRSAKeyPair count_rsa"
    "rsa_GenerateKey count_rsa 2048 = Inr 7" "MarshalPKIXPublicKey count_rsa (rsa_Public count_rsa 7) = Inr (replicate 8 1)"
    by (simp_all add: rsa_laws_def count_keys_lib_def count_rsa_def)
  have "NewJWTManager count_keys_lib ''rubbish'' ''x'' ''iss'' (2 * hour) \<noteq> Inr m" for m
    by (simp add: NewJWTManager_def parse_private_def count_keys_lib_def)
  moreover have "rsa_Public count_rsa 7 = 8" by (simp add: count_rsa_def)
  ultimately show ?thesis using ensured_keys_stay [OF laws, of "''rubbish''" "''x''" "''iss''"] by metis
qed

section \<open>Files\<close>

text \<open>
  The part of the file system the gateway touches: contents by clean path, directories, and the paths at
  which the process may not create or open for writing.  \<^verbatim>\<open>filepath.Clean\<close> and \<^verbatim>\<open>filepath.Dir\<close> work on the
  segments between slashes; \<^verbatim>\<open>os.MkdirAll\<close> makes the missing directories from the outermost in.
\<close>

record FS =
  fs_files :: "string \<rightharpoonup> string"
  fs_dirs :: "string \<Rightarrow> bool"
  fs_denied :: "string \<Rightarrow> bool"

fun clean_segments :: "bool \<Rightarrow> string list \<Rightarrow> string list \<Rightarrow> string list" where
  "clean_segments rooted out [] = rev out"
| "clean_segments rooted out (x # xs) =
     (if x = [] \<or> x = ''.'' then clean_segments rooted out xs
      else if x = ''..'' then
        (case out of
           [] \<Rightarrow> clean_segments rooted (if rooted then [] else [x]) xs
         | y # ys \<Rightarrow> if y = ''..'' then clean_segments rooted (x # out) xs else clean_segments rooted ys xs)
      else clean_segments rooted (x # out) xs)"

fun join_path :: "string list \<Rightarrow> string" where
  "join_path [] = []"
| "join_path [x] = x"
| "join_path (x # xs) = x @ ''/'' @ join_path xs"

definition rooted :: "string \<Rightarrow> bool" where
  "rooted p \<longleftrightarrow> take 1 p = ''/''"

definition path_segments :: "string \<Rightarrow> string list" where
  "path_segments p = clean_segments (rooted p) [] (split_on (CHR ''/'') p)"

definition path_of :: "bool \<Rightarrow> string list \<Rightarrow> string" where
  "path_of r segs = (let p = (if r then ''/'' else []) @ join_path segs in if p = [] then ''.'' else p)"

definition Clean :: "string \<Rightarrow> string" where
  "Clean p = path_of (rooted p) (path_segments p)"

definition filepath_Dir :: "string \<Rightarrow> string" where
  "filepath_Dir p = Clean (rev (dropWhile (\<lambda>c. c \<noteq> CHR ''/'') (rev p)))"

definition dirOf :: "string \<Rightarrow> string" where
  "dirOf p = (let d = filepath_Dir p in if d = [] \<or> d = ''.'' then ''.'' else d)"

definition is_dir :: "FS \<Rightarrow> string \<Rightarrow> bool" where
  "is_dir fs d \<longleftrightarrow> d = ''.'' \<or> d = ''/'' \<or> fs_dirs fs d"

definition fileExists :: "FS \<Rightarrow> string \<Rightarrow> bool" where
  "fileExists fs p \<longleftrightarrow> fs_files fs (Clean p) \<noteq> None \<or> is_dir fs (Clean p)"

fun make_dirs :: "string list \<Rightarrow> FS \<Rightarrow> unit result \<times> FS" where
  "make_dirs [] fs = (Inr (), fs)"
| "make_dirs (d # ds) fs =
     (if is_dir fs d then make_dirs ds fs
      else if fs_files fs d \<noteq> None then (Inl (Error (''mkdir '' @ d @ '': not a directory'')), fs)
      else if fs_denied fs d then (Inl (Error (''mkdir '' @ d @ '': permission denied'')), fs)
      else make_dirs ds (fs\<lparr>fs_dirs := (fs_dirs fs)(d := True)\<rparr>))"

definition outer_dirs :: "string \<Rightarrow> string list" where
  "outer_dirs p = map (\<lambda>n. path_of (rooted p) (take (Suc n) (path_segments p))) [0..<length (path_segments p)]"

definition MkdirAll :: "string \<Rightarrow> FS \<Rightarrow> unit result \<times> FS" where
  "MkdirAll p fs = make_dirs (outer_dirs p) fs"

definition os_Create :: "string \<Rightarrow> FS \<Rightarrow> unit result \<times> FS" where
  "os_Create p fs =
     (if \<not> is_dir fs (filepath_Dir p) then (Inl (Error (''open '' @ p @ '': no such file or directory'')), fs)
      else if is_dir fs (Clean p) then (Inl (Error (''open '' @ p @ '': is a directory'')), fs)
      else if fs_denied fs (Clean p) then (Inl (Error (''open '' @ p @ '': permission denied'')), fs)
      else (Inr (), fs\<lparr>fs_files := (fs_files fs)(Clean p \<mapsto> [])\<rparr>))"

text \<open>A write to a file just created; whether it succeeds is an argument.\<close>

definition file_write :: "(string \<Rightarrow> unit result) \<Rightarrow> string \<Rightarrow> string \<Rightarrow> FS \<Rightarrow> unit result \<times> FS" where
  "file_write outcome p t fs =
     (case outcome p of Inl e \<Rightarrow> (Inl e, fs) | Inr _ \<Rightarrow> (Inr (), fs\<lparr>fs_files := (fs_files fs)(Clean p \<mapsto> t)\<rparr>))"

section \<open>The certificate of the QUIC listener\<close>

record x509_template =
  tm_SerialNumber :: int
  tm_CommonName :: string
  tm_Organization :: "string list"
  tm_NotBefore :: int
  tm_NotAfter :: int
  tm_ServerAuth :: bool
  tm_DNSNames :: "string list"
  tm_IPAddresses :: "string list"

record ('k, 'c) tls_env =
  te_GenerateKey :: "'k result"
  te_serial :: "int result"
  te_now :: int
  te_ten_years_on :: int
    \<comment> \<open>\<^verbatim>\<open>time.Now().AddDate(10, 0, 0)\<close>\<close>
  te_CreateCertificate :: "x509_template \<Rightarrow> 'k \<Rightarrow> bytes result"
  te_MarshalECPrivateKey :: "'k \<Rightarrow> bytes result"
  te_pem :: "string \<Rightarrow> bytes \<Rightarrow> string"
  te_write :: "string \<Rightarrow> unit result"
  te_X509KeyPair :: "string \<Rightarrow> string \<Rightarrow> 'c result"

definition tls_template :: "('k, 'c) tls_env \<Rightarrow> int \<Rightarrow> x509_template" where
  "tls_template te serial =
     \<lparr>tm_SerialNumber = serial, tm_CommonName = ''dual-gateway-iot-quic'', tm_Organization = [''dual-gateway''],
      tm_NotBefore = te_now te - hour, tm_NotAfter = te_ten_years_on te, tm_ServerAuth = True,
      tm_DNSNames = [''localhost''], tm_IPAddresses = [''127.0.0.1'']\<rparr>"

text \<open>\<^verbatim>\<open>os.Create\<close> and \<^verbatim>\<open>pem.Encode\<close> into the new file, with the early returns.\<close>

definition write_pem :: "('k, 'c) tls_env \<Rightarrow> string \<Rightarrow> string \<Rightarrow> bytes \<Rightarrow> FS \<Rightarrow> unit result \<times> FS" where
  "write_pem te p t der fs =
     (case os_Create p fs of (Inl e, fs1) \<Rightarrow> (Inl e, fs1) | (Inr _, fs1) \<Rightarrow> file_write (te_write te) p (te_pem te t der) fs1)"

definition ensureTLSKeyPair :: "('k, 'c) tls_env \<Rightarrow> string \<Rightarrow> string \<Rightarrow> FS \<Rightarrow> unit result \<times> FS" where
  "ensureTLSKeyPair te certPath keyPath fs =
     (if fileExists fs certPath \<and> fileExists fs keyPath then (Inr (), fs)
      else case MkdirAll (dirOf certPath) fs of
        (Inl e, fs1) \<Rightarrow> (Inl e, fs1)
      | (Inr _, fs1) \<Rightarrow>
     (case te_GenerateKey te of Inl e \<Rightarrow> (Inl e, fs1) | Inr priv \<Rightarrow>
     (case te_serial te of Inl e \<Rightarrow> (Inl e, fs1) | Inr serial \<Rightarrow>
     (case te_CreateCertificate te (tls_template te serial) priv of Inl e \<Rightarrow> (Inl e, fs1) | Inr der \<Rightarrow>
     (case write_pem te certPath ''CERTIFICATE'' der fs1 of
        (Inl e, fs2) \<Rightarrow> (Inl e, fs2)
      | (Inr _, fs2) \<Rightarrow>
     (case te_MarshalECPrivateKey te priv of Inl e \<Rightarrow> (Inl e, fs2) | Inr keyDER \<Rightarrow>
        write_pem te keyPath ''EC PRIVATE KEY'' keyDER fs2))))))"

record 'c tls_Config =
  tc_Certificates :: "'c list"
  tc_MinVersion :: nat
  tc_NextProtos :: "string list"

definition VersionTLS13 :: nat where "VersionTLS13 = 0x0304"

definition LoadX509KeyPair :: "('k, 'c) tls_env \<Rightarrow> string \<Rightarrow> string \<Rightarrow> FS \<Rightarrow> 'c result" where
  "LoadX509KeyPair te certFile keyFile fs =
     (case fs_files fs (Clean certFile) of None \<Rightarrow> Inl (Error (''open '' @ certFile)) | Some c \<Rightarrow>
     (case fs_files fs (Clean keyFile) of None \<Rightarrow> Inl (Error (''open '' @ keyFile)) | Some k \<Rightarrow> te_X509KeyPair te c k))"

definition loadQUICTLSConfig :: "('k, 'c) tls_env \<Rightarrow> string \<Rightarrow> string \<Rightarrow> FS \<Rightarrow> 'c tls_Config result \<times> FS" where
  "loadQUICTLSConfig te certPath keyPath fs =
     (case ensureTLSKeyPair te certPath keyPath fs of
        (Inl e, fs1) \<Rightarrow> (Inl e, fs1)
      | (Inr _, fs1) \<Rightarrow>
          (case LoadX509KeyPair te certPath keyPath fs1 of
             Inl e \<Rightarrow> (Inl e, fs1)
           | Inr cert \<Rightarrow> (Inr \<lparr>tc_Certificates = [cert], tc_MinVersion = VersionTLS13, tc_NextProtos = [''mqtt-sn'']\<rparr>, fs1)))"

subsection \<open>What making the pair does\<close>

lemma make_dirs_frame:
  "fs_files (snd (make_dirs ds fs)) = fs_files fs \<and> fs_denied (snd (make_dirs ds fs)) = fs_denied fs \<and>
   (fs_dirs (snd (make_dirs ds fs)) d \<longrightarrow> fs_dirs fs d \<or> d \<in> set ds) \<and> (fs_dirs fs d \<longrightarrow> fs_dirs (snd (make_dirs ds fs)) d)"
  by (induction ds fs rule: make_dirs.induct) (auto split: if_splits)

lemma write_pem_frame:
  "fs_dirs (snd (write_pem te p t der fs)) = fs_dirs fs" "fs_denied (snd (write_pem te p t der fs)) = fs_denied fs"
  "q \<noteq> Clean p \<Longrightarrow> fs_files (snd (write_pem te p t der fs)) q = fs_files fs q"
  by (auto simp: write_pem_def os_Create_def file_write_def split: prod.split sum.split)

lemma write_pem_ok:
  "write_pem te p t der fs = (Inr (), fs') \<longleftrightarrow> is_dir fs (filepath_Dir p) \<and> \<not> is_dir fs (Clean p) \<and> \<not> fs_denied fs (Clean p) \<and>
     te_write te p = Inr () \<and> fs' = fs\<lparr>fs_files := (fs_files fs)(Clean p \<mapsto> te_pem te t der)\<rparr>"
  by (auto simp: write_pem_def os_Create_def file_write_def split: sum.splits)

lemma ensure_existing: "fileExists fs cp \<Longrightarrow> fileExists fs kp \<Longrightarrow> ensureTLSKeyPair te cp kp fs = (Inr (), fs)"
  by (simp add: ensureTLSKeyPair_def)

lemma ensure_made:
  assumes "ensureTLSKeyPair te cp kp fs = (Inr (), fs')" "\<not> (fileExists fs cp \<and> fileExists fs kp)" "Clean cp \<noteq> Clean kp"
  obtains priv serial der keyDER where "te_GenerateKey te = Inr priv" "te_serial te = Inr serial"
    "te_CreateCertificate te (tls_template te serial) priv = Inr der" "te_MarshalECPrivateKey te priv = Inr keyDER"
    "fs_files fs' (Clean cp) = Some (te_pem te ''CERTIFICATE'' der)" "fs_files fs' (Clean kp) = Some (te_pem te ''EC PRIVATE KEY'' keyDER)"
proof -
  obtain fs1 where 1: "MkdirAll (dirOf cp) fs = (Inr (), fs1)"
    using assms(1,2) by (auto simp: ensureTLSKeyPair_def split: prod.splits sum.splits)
  obtain priv serial der where 2: "te_GenerateKey te = Inr priv" "te_serial te = Inr serial"
      "te_CreateCertificate te (tls_template te serial) priv = Inr der"
    using assms(1,2) 1 by (auto simp: ensureTLSKeyPair_def split: sum.splits)
  obtain fs2 where 3: "write_pem te cp ''CERTIFICATE'' der fs1 = (Inr (), fs2)"
    using assms(1,2) 1 2 by (auto simp: ensureTLSKeyPair_def split: prod.splits sum.splits)
  obtain keyDER where 4: "te_MarshalECPrivateKey te priv = Inr keyDER" "write_pem te kp ''EC PRIVATE KEY'' keyDER fs2 = (Inr (), fs')"
    using assms(1,2) 1 2 3 by (auto simp: ensureTLSKeyPair_def split: sum.splits)
  show thesis using that [OF 2 4(1)] 3 4(2) assms(3) by (auto simp: write_pem_ok)
qed

text \<open>What the libraries promise: a certificate made for a key and the key make a pair when read back.\<close>

definition tls_laws :: "('k, 'c) tls_env \<Rightarrow> ('k, 'c) tls_env \<Rightarrow> bool" where
  "tls_laws te te' \<longleftrightarrow> (\<forall>tmpl k der kder. te_CreateCertificate te tmpl k = Inr der \<longrightarrow> te_MarshalECPrivateKey te k = Inr kder \<longrightarrow>
     (\<exists>c. te_X509KeyPair te' (te_pem te ''CERTIFICATE'' der) (te_pem te ''EC PRIVATE KEY'' kder) = Inr c))"

text \<open>
  C39: A certificate pair is made at most once and then loads: when making it succeeds, every later
  start finds it and changes nothing; if it was not there before, the files hold the new certificate
  and its key, whatever one of them held, and every later start gets a TLS 1.3 configuration with this
  pair for the protocol \<^verbatim>\<open>mqtt-sn\<close>.
\<close>

theorem tls_pair_made_once:
  assumes "ensureTLSKeyPair te cp kp fs = (Inr (), fs')" "Clean cp \<noteq> Clean kp" "tls_laws te te'"
  shows "ensureTLSKeyPair te' cp kp fs' = (Inr (), fs') \<and>
    (fileExists fs cp \<and> fileExists fs kp \<and> fs' = fs \<or>
     (\<exists>c. loadQUICTLSConfig te' cp kp fs' = (Inr \<lparr>tc_Certificates = [c], tc_MinVersion = 0x0304, tc_NextProtos = [''mqtt-sn'']\<rparr>, fs') \<and>
        (\<exists>priv serial der keyDER. te_GenerateKey te = Inr priv \<and> te_CreateCertificate te (tls_template te serial) priv = Inr der \<and>
           te_MarshalECPrivateKey te priv = Inr keyDER \<and> fs_files fs' (Clean cp) = Some (te_pem te ''CERTIFICATE'' der) \<and>
           fs_files fs' (Clean kp) = Some (te_pem te ''EC PRIVATE KEY'' keyDER))))"
proof (cases "fileExists fs cp \<and> fileExists fs kp")
  case True
  then show ?thesis using assms(1) by (auto simp: ensure_existing)
next
  case False
  obtain priv serial der keyDER where made: "te_GenerateKey te = Inr priv" "te_serial te = Inr serial"
    "te_CreateCertificate te (tls_template te serial) priv = Inr der" "te_MarshalECPrivateKey te priv = Inr keyDER"
    "fs_files fs' (Clean cp) = Some (te_pem te ''CERTIFICATE'' der)" "fs_files fs' (Clean kp) = Some (te_pem te ''EC PRIVATE KEY'' keyDER)"
    by (rule ensure_made [OF assms(1) False assms(2)])
  then have again: "ensureTLSKeyPair te' cp kp fs' = (Inr (), fs')" by (simp add: ensure_existing fileExists_def)
  obtain c where "te_X509KeyPair te' (te_pem te ''CERTIFICATE'' der) (te_pem te ''EC PRIVATE KEY'' keyDER) = Inr c"
    using assms(3) made(3,4) unfolding tls_laws_def by blast
  then show ?thesis using made again by (auto simp: loadQUICTLSConfig_def LoadX509KeyPair_def VersionTLS13_def)
qed

text \<open>
  A failed attempt can leave a pair that never works.  When only the key is there and may not be
  overwritten, the new certificate is written before the key is refused: from then on every start
  finds both files, makes nothing, and can only load the new certificate with the old key.
\<close>

theorem failed_key_leaves_mismatch:
  fixes te :: "('k, 'c) tls_env"
  assumes "fs_files fs (Clean kp) = Some old" "\<not> fileExists fs cp" "fs_denied fs (Clean kp)" "Clean cp \<noteq> Clean kp"
    and "te_CreateCertificate te (tls_template te serial) priv = Inr der" "te_GenerateKey te = Inr priv" "te_serial te = Inr serial"
    and "fst (MkdirAll (dirOf cp) fs) = Inr ()" "fst (write_pem te cp ''CERTIFICATE'' der (snd (MkdirAll (dirOf cp) fs))) = Inr ()"
  shows "\<exists>e fs'. ensureTLSKeyPair te cp kp fs = (Inl e, fs') \<and>
    (\<forall>te' :: ('k, 'c) tls_env. loadQUICTLSConfig te' cp kp fs' =
      (case te_X509KeyPair te' (te_pem te ''CERTIFICATE'' der) old of
         Inl e \<Rightarrow> Inl e
       | Inr c \<Rightarrow> Inr \<lparr>tc_Certificates = [c], tc_MinVersion = 0x0304, tc_NextProtos = [''mqtt-sn'']\<rparr>, fs'))"
proof -
  obtain fs1 where 1: "MkdirAll (dirOf cp) fs = (Inr (), fs1)" using assms(8) by (metis prod.collapse)
  then have fs1: "fs_files fs1 = fs_files fs" "fs_denied fs1 = fs_denied fs"
    using make_dirs_frame [of "outer_dirs (dirOf cp)" fs] by (auto simp: MkdirAll_def)
  obtain fs2 where 2: "write_pem te cp ''CERTIFICATE'' der fs1 = (Inr (), fs2)" using assms(9) 1 by (metis prod.collapse snd_conv)
  have fs2: "fs_files fs2 (Clean cp) = Some (te_pem te ''CERTIFICATE'' der)" "fs_files fs2 (Clean kp) = Some old" "fs_denied fs2 (Clean kp)"
    using 2 fs1 assms(1,3,4) by (auto simp: write_pem_ok)
  have 3: "\<exists>e. write_pem te kp t kd fs2 = (Inl e, fs2)" for t kd using fs2(3) by (auto simp: write_pem_def os_Create_def)
  have "\<exists>e. ensureTLSKeyPair te cp kp fs = (Inl e, fs2)"
    using assms(2,5-7) 1 2 3 by (auto simp: ensureTLSKeyPair_def split: sum.split)
  then obtain e where "ensureTLSKeyPair te cp kp fs = (Inl e, fs2)" by blast
  moreover have "fileExists fs2 cp" "fileExists fs2 kp" using fs2 by (simp_all add: fileExists_def)
  ultimately show ?thesis
    using fs2 by (intro exI [of _ e] exI [of _ fs2])
      (auto simp: loadQUICTLSConfig_def LoadX509KeyPair_def VersionTLS13_def ensure_existing split: sum.split)
qed

text \<open>
  Starting again and again: the outcome of each start and the files after it.
\<close>

fun tls_starts :: "('k, 'c) tls_env list \<Rightarrow> string \<Rightarrow> string \<Rightarrow> FS \<Rightarrow> unit result list" where
  "tls_starts [] cp kp fs = []"
| "tls_starts (te # tes) cp kp fs = (let (r, fs1) = ensureTLSKeyPair te cp kp fs in r # tls_starts tes cp kp fs1)"

definition no_key_dir :: "string \<Rightarrow> string \<Rightarrow> FS \<Rightarrow> bool" where
  "no_key_dir cp kp fs \<longleftrightarrow> Clean cp \<noteq> Clean kp \<and> filepath_Dir kp \<notin> set (outer_dirs (dirOf cp)) \<and> Clean kp \<notin> set (outer_dirs (dirOf cp)) \<and>
     \<not> is_dir fs (filepath_Dir kp) \<and> \<not> fileExists fs kp"

lemma no_key_dir_frame:
  assumes "no_key_dir cp kp fs" "fs_files fs1 (Clean kp) = fs_files fs (Clean kp)"
    "\<And>d. fs_dirs fs1 d \<Longrightarrow> fs_dirs fs d \<or> d \<in> set (outer_dirs (dirOf cp))"
  shows "no_key_dir cp kp fs1"
  using assms by (auto simp: no_key_dir_def is_dir_def fileExists_def)

definition key_fails :: "string \<Rightarrow> string \<Rightarrow> unit result \<times> FS \<Rightarrow> bool" where
  "key_fails cp kp r \<longleftrightarrow> (\<exists>e fs1. r = (Inl e, fs1) \<and> no_key_dir cp kp fs1)"

lemma key_fails_cases:
  "no_key_dir cp kp fs \<Longrightarrow> key_fails cp kp (Inl e, fs)"
  "(\<And>e. r = Inl e \<Longrightarrow> key_fails cp kp (f e)) \<Longrightarrow> (\<And>x. r = Inr x \<Longrightarrow> key_fails cp kp (g x)) \<Longrightarrow>
     key_fails cp kp (case r of Inl e \<Rightarrow> f e | Inr x \<Rightarrow> g x)"
  "(\<And>a b. q = (a, b) \<Longrightarrow> key_fails cp kp (h a b)) \<Longrightarrow> key_fails cp kp (case q of (a, b) \<Rightarrow> h a b)"
  by (auto simp: key_fails_def split: sum.split prod.split)

lemma no_key_dir_made: "no_key_dir cp kp fs \<Longrightarrow> MkdirAll (dirOf cp) fs = (r, fs1) \<Longrightarrow> no_key_dir cp kp fs1"
  using no_key_dir_frame [of cp kp fs fs1] make_dirs_frame [of "outer_dirs (dirOf cp)" fs] by (auto simp: MkdirAll_def)

lemma no_key_dir_written: "no_key_dir cp kp fs \<Longrightarrow> write_pem te cp t der fs = (r, fs1) \<Longrightarrow> no_key_dir cp kp fs1"
proof -
  assume k: "no_key_dir cp kp fs" and "write_pem te cp t der fs = (r, fs1)"
  then have "fs1 = snd (write_pem te cp t der fs)" by simp
  then show ?thesis using no_key_dir_frame [OF k, of fs1] k by (auto simp: write_pem_frame no_key_dir_def [of cp kp fs])
qed

lemma key_fails_write: "no_key_dir cp kp fs \<Longrightarrow> key_fails cp kp (write_pem te kp t der fs)"
  by (auto simp: key_fails_def no_key_dir_def write_pem_def os_Create_def)

lemma ensure_no_key_dir: "no_key_dir cp kp fs \<Longrightarrow> key_fails cp kp (ensureTLSKeyPair te cp kp fs)"
proof -
  assume k: "no_key_dir cp kp fs"
  then have "\<not> fileExists fs kp" by (simp add: no_key_dir_def)
  then show ?thesis unfolding ensureTLSKeyPair_def
    by (auto intro!: key_fails_cases key_fails_write dest: no_key_dir_made [OF k] no_key_dir_written)
qed

text \<open>
  Only the directory of the certificate is made.  When the key is configured in another directory that
  does not exist, every start fails, in whatever state the one before left the files: QUIC never comes up.
\<close>

theorem key_directory_never_made:
  assumes "no_key_dir cp kp fs" "r \<in> set (tls_starts tes cp kp fs)"
  shows "\<exists>e. r = Inl e"
  using assms
proof (induction tes arbitrary: fs)
  case (Cons te tes)
  then show ?case using ensure_no_key_dir [OF Cons.prems(1), of te] by (auto simp: Let_def key_fails_def)
qed simp

section \<open>A certificate for the witnesses\<close>

definition small_tls :: "(nat, string \<times> string) tls_env" where
  "small_tls = \<lparr>te_GenerateKey = Inr 5, te_serial = Inr 1, te_now = 0, te_ten_years_on = 315532800,
     te_CreateCertificate = \<lambda>_ k. Inr [of_nat k], te_MarshalECPrivateKey = \<lambda>k. Inr [of_nat k], te_pem = \<lambda>t b. t @ to_string b,
     te_write = \<lambda>_. Inr (), te_X509KeyPair = \<lambda>c k. if drop 11 c = drop 14 k then Inr (c, k) else Inl (Error ''mismatch'')\<rparr>"

definition no_files :: FS where
  "no_files = \<lparr>fs_files = Map.empty, fs_dirs = \<lambda>_. False, fs_denied = \<lambda>_. False\<rparr>"

definition read_only_key :: FS where
  "read_only_key = no_files\<lparr>fs_files := [''k/key.pem'' \<mapsto> ''old''], fs_dirs := (\<lambda>d. d = ''k''), fs_denied := (\<lambda>p. p = ''k/key.pem'')\<rparr>"

lemma small_tls_laws: "tls_laws small_tls small_tls"
  by (simp add: tls_laws_def small_tls_def)

theorem tls_pair_made_once_witness:
  "\<exists>fs'. ensureTLSKeyPair small_tls ''config/keys/cert.pem'' ''config/keys/key.pem'' no_files = (Inr (), fs') \<and>
     ensureTLSKeyPair small_tls ''config/keys/cert.pem'' ''config/keys/key.pem'' fs' = (Inr (), fs')"
proof -
  have "fst (ensureTLSKeyPair small_tls ''config/keys/cert.pem'' ''config/keys/key.pem'' no_files) = Inr ()" by code_simp
  then obtain fs' where made: "ensureTLSKeyPair small_tls ''config/keys/cert.pem'' ''config/keys/key.pem'' no_files = (Inr (), fs')"
    by (metis prod.collapse)
  have "Clean ''config/keys/cert.pem'' \<noteq> Clean ''config/keys/key.pem''" by code_simp
  from tls_pair_made_once [OF made this small_tls_laws] made show ?thesis by blast
qed

theorem failed_key_leaves_mismatch_witness:
  "\<exists>e fs'. ensureTLSKeyPair small_tls ''k/cert.pem'' ''k/key.pem'' read_only_key = (Inl e, fs') \<and>
     fst (loadQUICTLSConfig small_tls ''k/cert.pem'' ''k/key.pem'' fs') = Inl (Error ''mismatch'')"
proof -
  have h: "fs_files read_only_key (Clean ''k/key.pem'') = Some ''old''" "\<not> fileExists read_only_key ''k/cert.pem''"
      "fs_denied read_only_key (Clean ''k/key.pem'')" "Clean ''k/cert.pem'' \<noteq> Clean ''k/key.pem''"
    by code_simp+
  have g: "te_CreateCertificate small_tls (tls_template small_tls 1) 5 = Inr [5]" "te_GenerateKey small_tls = Inr 5" "te_serial small_tls = Inr 1"
    by (simp_all add: small_tls_def)
  have w: "fst (MkdirAll (dirOf ''k/cert.pem'') read_only_key) = Inr ()"
      "fst (write_pem small_tls ''k/cert.pem'' ''CERTIFICATE'' [5] (snd (MkdirAll (dirOf ''k/cert.pem'') read_only_key))) = Inr ()"
    by code_simp+
  have "te_X509KeyPair small_tls (te_pem small_tls ''CERTIFICATE'' [5]) ''old'' = Inl (Error ''mismatch'')" by code_simp
  then show ?thesis using failed_key_leaves_mismatch [OF h g w] by fastforce
qed

theorem key_directory_never_made_witness:
  "\<exists>e. tls_starts [small_tls] ''config/cert.pem'' ''private/key.pem'' no_files = [Inl e]"
proof -
  have "no_key_dir ''config/cert.pem'' ''private/key.pem'' no_files" by code_simp
  from key_directory_never_made [OF this, of "fst (ensureTLSKeyPair small_tls ''config/cert.pem'' ''private/key.pem'' no_files)" "[small_tls]"]
  show ?thesis by (auto simp: Let_def split: prod.splits)
qed

end
