(* ===== verification/Listeners.thy ===== *)
theory Listeners
  imports Credentials IotServer
begin

text \<open>
  The listeners of the IoT gateway: \<^verbatim>\<open>quicLoop\<close> with its helpers (\<^verbatim>\<open>internal/gateway/iot/quic.go\<close>), \<^verbatim>\<open>dtlsLoop\<close>
  (\<^verbatim>\<open>server.go\<close>), and the DTLS manager of \<^verbatim>\<open>internal/security/dtls.go\<close>.  Binding, listening and accepting are
  outcomes given as arguments.  Properties: when the QUIC listener serves and with which timing; that
  a failed accept loses no later connection and only the end of the context ends the loop; and which
  listeners closing the manager leaves open.
\<close>

section \<open>Addresses and errors\<close>

record UDPAddr =
  ua_IP :: string
  ua_Port :: int

datatype net_addr = NetUDP UDPAddr | NetOther string

definition udpAddrOf :: "(string \<Rightarrow> (string \<times> string) result) \<Rightarrow> (string \<Rightarrow> string option) \<Rightarrow> net_addr \<Rightarrow> UDPAddr" where
  "udpAddrOf splitHostPort parseIP addr =
     (case addr of
        NetUDP u \<Rightarrow> u
      | NetOther t \<Rightarrow>
          (case splitHostPort t of
             Inl _ \<Rightarrow> \<lparr>ua_IP = ''0.0.0.0'', ua_Port = 0\<rparr>
           | Inr (host, port) \<Rightarrow>
               \<lparr>ua_IP = (case parseIP host of None \<Rightarrow> ''0.0.0.0'' | Some ip \<Rightarrow> ip), ua_Port = sscanf_d port 0\<rparr>))"

definition quicAddrFor :: "(string \<Rightarrow> UDPAddr result) \<Rightarrow> string \<Rightarrow> UDPAddr" where
  "quicAddrFor resolveUDPAddr addr =
     (case resolveUDPAddr addr of Inl _ \<Rightarrow> \<lparr>ua_IP = ''0.0.0.0'', ua_Port = 5685\<rparr> | Inr ua \<Rightarrow> ua)"

text \<open>
  An error is the chain of errors it wraps, outermost first; none is the empty chain.  Of the errors
  of the QUIC library the idle timeout and the stateless reset are \<^verbatim>\<open>net.Error\<close> values too.
\<close>

datatype conn_error = EOF | ContextCanceled | ApplicationError | IdleTimeoutError | StatelessResetError | NetError bool | OtherError string

fun net_timeout :: "conn_error \<Rightarrow> bool option" where
  "net_timeout IdleTimeoutError = Some True"
| "net_timeout StatelessResetError = Some False"
| "net_timeout (NetError t) = Some t"
| "net_timeout _ = None"

definition isClosedConnErr :: "conn_error list \<Rightarrow> bool" where
  "isClosedConnErr chain =
     (if chain = [] then False
      else if EOF \<in> set chain \<or> ContextCanceled \<in> set chain then True
      else if ApplicationError \<in> set chain then True
      else if IdleTimeoutError \<in> set chain then True
      else if StatelessResetError \<in> set chain then True
      else (case find (\<lambda>e. net_timeout e \<noteq> None) chain of Some e \<Rightarrow> net_timeout e = Some True | None \<Rightarrow> False))"

section \<open>Accept loops\<close>

text \<open>What an accept returned: a connection, or an error with whether the server's context had ended.\<close>

datatype 'c accepted = Accepted 'c | AcceptFailed bool

text \<open>The connections handed to a goroutine, and whether the loop has returned.\<close>

fun accept_loop :: "'c accepted list \<Rightarrow> 'c list \<times> bool" where
  "accept_loop [] = ([], False)"
| "accept_loop (Accepted c # rest) = (c # fst (accept_loop rest), snd (accept_loop rest))"
| "accept_loop (AcceptFailed ended # rest) = (if ended then ([], True) else accept_loop rest)"

record quic_Config =
  qc_Allow0RTT :: bool
  qc_MaxIdleTimeout :: int
  qc_KeepAlivePeriod :: int
  qc_MaxIncomingStreams :: int
  qc_HandshakeIdleTimeout :: int
  qc_InitialStreamReceiveWindow :: int
  qc_MaxStreamReceiveWindow :: int

definition quic_idle :: "IoTConfig \<Rightarrow> int" where
  "quic_idle cfg = (let idle = wrap64 (iot_QUICIdleSec cfg * second) in if idle \<le> 0 then 300 * second else idle)"

definition quic_config :: "int \<Rightarrow> quic_Config" where
  "quic_config idle =
     \<lparr>qc_Allow0RTT = True, qc_MaxIdleTimeout = idle, qc_KeepAlivePeriod = idle div 3, qc_MaxIncomingStreams = 8,
      qc_HandshakeIdleTimeout = 60 * second, qc_InitialStreamReceiveWindow = 64 * 1024, qc_MaxStreamReceiveWindow = 1048576\<rparr>"

text \<open>The listener that came up, with the connections it handed on, or nothing when setting it up failed.\<close>

record ('c, 'conn) quic_listener =
  ql_tls :: "'c tls_Config"
  ql_config :: quic_Config
  ql_addr :: UDPAddr
  ql_conns :: "'conn list"
  ql_returned :: bool

definition quicLoop :: "('k, 'c) tls_env \<Rightarrow> (string \<Rightarrow> UDPAddr result) \<Rightarrow> (UDPAddr \<Rightarrow> unit result) \<Rightarrow>
    ('c tls_Config \<Rightarrow> quic_Config \<Rightarrow> unit result) \<Rightarrow> IoTConfig \<Rightarrow> string \<Rightarrow> FS \<Rightarrow> 'conn accepted list \<Rightarrow>
    ('c, 'conn) quic_listener option \<times> FS" where
  "quicLoop te resolve bindUDP listenEarly cfg addr fs accepts =
     (case loadQUICTLSConfig te (iot_QUICCert cfg) (iot_QUICKey cfg) fs of
        (Inl _, fs1) \<Rightarrow> (None, fs1)
      | (Inr tlsConf, fs1) \<Rightarrow>
          (let qconf = quic_config (quic_idle cfg); ua = quicAddrFor resolve addr in
           case bindUDP ua of Inl _ \<Rightarrow> (None, fs1) | Inr _ \<Rightarrow>
          (case listenEarly tlsConf qconf of Inl _ \<Rightarrow> (None, fs1) | Inr _ \<Rightarrow>
             (let (conns, returned) = accept_loop accepts in
              (Some \<lparr>ql_tls = tlsConf, ql_config = qconf, ql_addr = ua, ql_conns = conns, ql_returned = returned\<rparr>, fs1)))))"

definition dtlsLoop :: "(string \<Rightarrow> UDPAddr result) \<Rightarrow> (UDPAddr \<Rightarrow> unit result) \<Rightarrow> string \<Rightarrow> 'conn accepted list \<Rightarrow> ('conn list \<times> bool) option" where
  "dtlsLoop resolve listen addr accepts =
     (case resolve addr of Inl _ \<Rightarrow> None | Inr ua \<Rightarrow>
     (case listen ua of Inl _ \<Rightarrow> None | Inr _ \<Rightarrow> Some (accept_loop accepts)))"

section \<open>The DTLS manager\<close>

record dtls_Config =
  dc_PSKIdentityHint :: bytes
  dc_CipherSuites :: "string list"
  dc_ConnectTimeout :: int
  dc_FlightInterval :: int
  dc_MTU :: int
  dc_RequireExtendedMasterSecret :: bool

record 'cert DTLSManager =
  dm_config :: dtls_Config
  dm_certificate :: 'cert
  dm_pskStore :: PSKStore
  dm_listeners :: "string \<rightharpoonup> nat"
  dm_cancelled :: bool

definition manager_config :: dtls_Config where
  "manager_config = \<lparr>dc_PSKIdentityHint = to_bytes ''gateway'',
     dc_CipherSuites = [''TLS_PSK_WITH_AES_128_CCM'', ''TLS_PSK_WITH_AES_128_CCM_8'', ''TLS_PSK_WITH_AES_128_GCM_SHA256''],
     dc_ConnectTimeout = 30 * second, dc_FlightInterval = 100000000, dc_MTU = 1200, dc_RequireExtendedMasterSecret = True\<rparr>"

definition NewDTLSManager :: "'cert result \<Rightarrow> PSKStore \<Rightarrow> 'cert DTLSManager result" where
  "NewDTLSManager generated pskStore =
     (case generated of
        Inl e \<Rightarrow> Inl (wrap_error ''failed to generate certificate: '' e)
      | Inr certificate \<Rightarrow> Inr \<lparr>dm_config = manager_config, dm_certificate = certificate, dm_pskStore = pskStore,
          dm_listeners = Map.empty, dm_cancelled = False\<rparr>)"

definition manager_psk :: "'cert DTLSManager \<Rightarrow> bytes \<Rightarrow> bytes result" where
  "manager_psk m hint =
     (case GetPSK (to_string hint) (dm_pskStore m) of Some psk \<Rightarrow> Inr psk | None \<Rightarrow> Inl (Error ''PSK not found for device''))"

definition GetConfig :: "'cert DTLSManager \<Rightarrow> dtls_Config" where
  "GetConfig m = dm_config m"

text \<open>Listening gives a listener its number; the outcomes of resolving and binding are arguments.\<close>

definition manager_Listen :: "unit result \<Rightarrow> nat result \<Rightarrow> string \<Rightarrow> 'cert DTLSManager \<Rightarrow> nat result \<times> 'cert DTLSManager" where
  "manager_Listen resolved listened addr m =
     (case resolved of Inl e \<Rightarrow> (Inl e, m) | Inr _ \<Rightarrow>
     (case listened of Inl e \<Rightarrow> (Inl e, m) | Inr l \<Rightarrow> (Inr l, m\<lparr>dm_listeners := (dm_listeners m)(addr \<mapsto> l)\<rparr>)))"

text \<open>Closing returns the listeners it closed, in the order the map is visited.\<close>

fun close_listeners :: "string list \<Rightarrow> 'cert DTLSManager \<Rightarrow> nat list \<times> 'cert DTLSManager" where
  "close_listeners [] m = ([], m)"
| "close_listeners (addr # order) m =
     (case dm_listeners m addr of
        None \<Rightarrow> close_listeners order m
      | Some l \<Rightarrow> (let (ls, m1) = close_listeners order (m\<lparr>dm_listeners := (dm_listeners m)(addr := None)\<rparr>) in (l # ls, m1)))"

definition manager_Close :: "string list \<Rightarrow> 'cert DTLSManager \<Rightarrow> nat list \<times> 'cert DTLSManager" where
  "manager_Close order m = (let (ls, m1) = close_listeners order m in (ls, m1\<lparr>dm_cancelled := True\<rparr>))"

section \<open>Properties\<close>

lemma accept_loop_exact:
  "accept_loop accs = ([c. Accepted c \<leftarrow> takeWhile (\<lambda>a. a \<noteq> AcceptFailed True) accs], AcceptFailed True \<in> set accs)"
  by (induction accs rule: accept_loop.induct) auto

text \<open>
  The QUIC listener serves exactly when the certificate pair loads and the address can be bound and
  listened on, and then with a keep-alive sent at least three times in the idle time, which is the
  configured one unless that is not positive.  It hands on every connection accepted before the first
  accept that fails after the context has ended, whatever else fails in between, and returns exactly then.
\<close>

theorem quic_listener_serves:
  assumes "iot_QUICIdleSec cfg \<le> 9223372036" "-9223372036 \<le> iot_QUICIdleSec cfg"
    and "loadQUICTLSConfig te (iot_QUICCert cfg) (iot_QUICKey cfg) fs = (r, fs1)" "ua = quicAddrFor resolve addr"
  shows "case quicLoop te resolve bindUDP listenEarly cfg addr fs accepts of
      (None, fs') \<Rightarrow> fs' = fs1 \<and> ((\<exists>e. r = Inl e) \<or> (\<exists>e. bindUDP ua = Inl e) \<or> (\<exists>t q e. r = Inr t \<and> listenEarly t q = Inl e))
    | (Some l, fs') \<Rightarrow> fs' = fs1 \<and> r = Inr (ql_tls l) \<and> bindUDP ua = Inr () \<and> listenEarly (ql_tls l) (ql_config l) = Inr () \<and>
        qc_MaxIdleTimeout (ql_config l) = (if 0 < iot_QUICIdleSec cfg then iot_QUICIdleSec cfg else 300) * second \<and>
        0 < qc_KeepAlivePeriod (ql_config l) \<and> 3 * qc_KeepAlivePeriod (ql_config l) \<le> qc_MaxIdleTimeout (ql_config l) \<and>
        ql_conns l = [c. Accepted c \<leftarrow> takeWhile (\<lambda>a. a \<noteq> AcceptFailed True) accepts] \<and>
        (ql_returned l \<longleftrightarrow> AcceptFailed True \<in> set accepts)"
proof -
  have "wrap64 (iot_QUICIdleSec cfg * second) = iot_QUICIdleSec cfg * second" using assms(1,2) by (simp add: wrap64_def)
  then have idle: "quic_idle cfg = (if 0 < iot_QUICIdleSec cfg then iot_QUICIdleSec cfg else 300) * second"
    by (simp add: quic_idle_def Let_def)
  then have "second \<le> quic_idle cfg" by (cases "0 < iot_QUICIdleSec cfg") simp_all
  then have keep: "0 < quic_idle cfg div 3" "3 * (quic_idle cfg div 3) \<le> quic_idle cfg" by (simp_all add: pos_imp_zdiv_pos_iff)
  show ?thesis
    using assms(3,4) keep idle by (auto simp: quicLoop_def Let_def quic_config_def accept_loop_exact split: sum.split)
qed

subsection \<open>Closing the manager\<close>

text \<open>Listening on one address after the other.\<close>

fun listen_all :: "(string \<times> nat) list \<Rightarrow> 'cert DTLSManager \<Rightarrow> 'cert DTLSManager" where
  "listen_all [] m = m"
| "listen_all ((addr, l) # rest) m = listen_all rest (snd (manager_Listen (Inr ()) (Inr l) addr m))"

lemma listen_all_listeners: "dm_listeners (listen_all xs m) = dm_listeners m ++ map_of (rev xs)"
  by (induction xs m rule: listen_all.induct) (auto simp: manager_Listen_def fun_eq_iff map_add_def split: option.split)

lemma close_listeners_closes:
  "distinct order \<Longrightarrow> set (fst (close_listeners order m)) = {l. \<exists>a \<in> set order. dm_listeners m a = Some l} \<and>
     dm_listeners (snd (close_listeners order m)) = dm_listeners m |` (- set order)"
proof (induction order m rule: close_listeners.induct)
  case (2 addr order m)
  then show ?case
    by (auto simp: Let_def restrict_map_def split: option.split prod.split intro!: ext) (auto split: if_splits)
qed (simp add: restrict_map_def)

lemma map_of_rev_covers_iff:
  assumes "distinct (map snd xs)"
  shows "set (map snd xs) \<subseteq> ran (map_of (rev xs)) \<longleftrightarrow> distinct (map fst xs)"
proof
  assume "distinct (map fst xs)"
  then show "set (map snd xs) \<subseteq> ran (map_of (rev xs))" using ran_distinct [of "rev xs"] by (auto simp: rev_map [symmetric])
next
  assume sub: "set (map snd xs) \<subseteq> ran (map_of (rev xs))"
  have "ran (map_of (rev xs)) \<subseteq> (\<lambda>a. the (map_of (rev xs) a)) ` dom (map_of (rev xs))" by (force simp: ran_def)
  then have "card (ran (map_of (rev xs))) \<le> card (dom (map_of (rev xs)))"
    by (meson card_image_le card_mono finite_dom_map_of finite_imageI le_trans)
  moreover have "card (set (map snd xs)) = length xs" using assms by (metis distinct_card length_map)
  moreover have "dom (map_of (rev xs)) = set (map fst xs)" by (simp add: dom_map_of_conv_image_fst)
  moreover have "card (set (map snd xs)) \<le> card (ran (map_of (rev xs)))" using sub by (intro card_mono finite_ran finite_dom_map_of)
  ultimately have "length (map fst xs) \<le> card (set (map fst xs))" by simp
  then show "distinct (map fst xs)" by (intro card_distinct le_antisym card_length)
qed

text \<open>
  Closing a DTLS manager closes every listener it made exactly when no address was listened on twice:
  a second listener on an address, such as one that lets the system choose the port, replaces the
  first in the table and the first stays open.
\<close>

theorem manager_close_complete:
  assumes "NewDTLSManager (Inr cert) ps = Inr m0" "distinct (map snd xs)" "key_order (dm_listeners (listen_all xs m0)) order"
  shows "dm_listeners (snd (manager_Close order (listen_all xs m0))) = Map.empty \<and>
    set (fst (manager_Close order (listen_all xs m0))) = ran (map_of (rev xs)) \<and>
    (set (map snd xs) \<subseteq> set (fst (manager_Close order (listen_all xs m0))) \<longleftrightarrow> distinct (map fst xs))"
proof -
  have ls: "dm_listeners (listen_all xs m0) = map_of (rev xs)"
    using assms(1) by (auto simp: NewDTLSManager_def listen_all_listeners)
  have order: "distinct order" "set order = dom (map_of (rev xs))" using assms(3) ls by (simp_all add: key_order_def)
  obtain closed m1 where c: "close_listeners order (listen_all xs m0) = (closed, m1)" by fastforce
  have closed: "set closed = {l. \<exists>a \<in> set order. map_of (rev xs) a = Some l}" "dm_listeners m1 = map_of (rev xs) |` (- set order)"
    using close_listeners_closes [OF order(1), of "listen_all xs m0"] ls c by simp_all
  have 1: "set closed = ran (map_of (rev xs))" unfolding closed(1) using order(2) by (auto simp: ran_def)
  have 2: "dm_listeners m1 = Map.empty" unfolding closed(2) order(2) by (auto simp: restrict_map_def domIff)
  show ?thesis using 1 2 c map_of_rev_covers_iff [OF assms(2)] by (simp add: manager_Close_def)
qed

text \<open>A certificate pair made at the first start, one accept that fails, and two listeners that let the system choose the port.\<close>

theorem quic_listener_serves_witness:
  "\<exists>l fs'. quicLoop small_tls (\<lambda>_. Inl (Error ''no such host'')) (\<lambda>_. Inr ()) (\<lambda>_ _. Inr ()) (cfg_IoT DefaultConfig) ''h:1'' no_files
      [Accepted (1 :: nat), AcceptFailed False, Accepted 2, AcceptFailed True, Accepted 3] = (Some l, fs') \<and>
    ql_conns l = [1, 2] \<and> ql_returned l \<and> qc_MaxIdleTimeout (ql_config l) = 300 * second"
proof -
  let ?cfg = "cfg_IoT DefaultConfig"
  have i: "iot_QUICIdleSec ?cfg = 300" by (simp add: DefaultConfig_def)
  obtain r fs1 where r: "loadQUICTLSConfig small_tls (iot_QUICCert ?cfg) (iot_QUICKey ?cfg) no_files = (r, fs1)" by fastforce
  have "fst (loadQUICTLSConfig small_tls (iot_QUICCert ?cfg) (iot_QUICKey ?cfg) no_files) \<noteq> Inl e" for e
  proof -
    have "\<not> isl (fst (loadQUICTLSConfig small_tls (iot_QUICCert ?cfg) (iot_QUICKey ?cfg) no_files))" by code_simp
    then show ?thesis by (metis isl_def)
  qed
  then have ok: "\<nexists>e. r = Inl e" using r by (metis fst_conv)
  show ?thesis
    using quic_listener_serves [where cfg = ?cfg and te = small_tls and fs = no_files and resolve = "\<lambda>_. Inl (Error ''no such host'')"
        and bindUDP = "\<lambda>_. Inr ()" and listenEarly = "\<lambda>_ _. Inr ()" and addr = "''h:1''"
        and accepts = "[Accepted (1 :: nat), AcceptFailed False, Accepted 2, AcceptFailed True, Accepted 3]", OF _ _ r refl] ok i
    by (auto split: prod.splits option.splits)
qed

theorem manager_close_complete_witness:
  "\<exists>m0. NewDTLSManager (Inr ()) NewPSKStore = Inr m0 \<and>
     set (fst (manager_Close ['':0''] (listen_all [('':0'', 1), ('':0'', 2)] m0))) = {2}"
proof -
  obtain m0 where m0: "NewDTLSManager (Inr ()) NewPSKStore = Inr m0" by (simp add: NewDTLSManager_def)
  then have "key_order (dm_listeners (listen_all [('':0'', 1), ('':0'', 2)] m0)) ['':0'']"
    by (auto simp: NewDTLSManager_def manager_Listen_def key_order_def split: if_splits)
  from manager_close_complete [OF m0 _ this] m0 show ?thesis by auto
qed

end
