(* ===== verification/GlobalIds.thy ===== *)
theory GlobalIds
  imports Ids
begin

text \<open>
  The process-wide generator of \<^verbatim>\<open>pkg/utils/id.go\<close>: the interface with its three implementations, and the
  global one, which starts as a snowflake generator on the number of this host.  Identifiers are unique
  within a generator; here is what that is worth between processes.
\<close>

section \<open>The interface and the global generator\<close>

datatype IDGenerator = Snowflake SnowflakeGenerator | UUIDGenerator | MD5Generator

text \<open>What one call of a generator may draw on: clock readings, random bytes, a random number.\<close>

record id_env =
  ie_clock :: "int list"
  ie_bytes :: bytes
  ie_md5 :: "bytes \<Rightarrow> bytes"
  ie_number :: "int option"
  ie_nano1 :: int
  ie_nano2 :: int

definition IDGenerator_Generate :: "id_env \<Rightarrow> IDGenerator \<Rightarrow> (string \<times> IDGenerator) option" where
  "IDGenerator_Generate e g =
     (case g of
        Snowflake s \<Rightarrow> map_option (\<lambda>(x, _, s'). (x, Snowflake s')) (Generate (ie_clock e) s)
      | UUIDGenerator \<Rightarrow> Some (UUID_Generate (ie_bytes e), g)
      | MD5Generator \<Rightarrow> Some (MD5_Generate (ie_md5 e) (ie_number e) (ie_nano1 e) (ie_nano2 e), g))"

definition IDGenerator_GenerateWithPrefix :: "id_env \<Rightarrow> string \<Rightarrow> IDGenerator \<Rightarrow> (string \<times> IDGenerator) option" where
  "IDGenerator_GenerateWithPrefix e prefix g =
     map_option (\<lambda>(x, g'). (prefix @ ''_'' @ x, g')) (IDGenerator_Generate e g)"

text \<open>The package variable is the state: its initial value, and the functions on it.\<close>

definition globalGenerator :: "(bytes \<Rightarrow> bytes) \<Rightarrow> net_iface list result \<Rightarrow> IDGenerator" where
  "globalGenerator md5 interfaces = Snowflake (NewSnowflakeGenerator (GenerateNodeID md5 interfaces))"

definition SetGlobalGenerator :: "IDGenerator \<Rightarrow> IDGenerator \<Rightarrow> IDGenerator" where
  "SetGlobalGenerator generator g = generator"

definition GenerateID :: "id_env \<Rightarrow> IDGenerator \<Rightarrow> (string \<times> IDGenerator) option" where
  "GenerateID e g = IDGenerator_Generate e g"

definition GenerateIDWithPrefix :: "id_env \<Rightarrow> string \<Rightarrow> IDGenerator \<Rightarrow> (string \<times> IDGenerator) option" where
  "GenerateIDWithPrefix e prefix g = IDGenerator_GenerateWithPrefix e prefix g"

text \<open>The prefixed functions of the package are the snowflake ones as long as nobody sets another generator.\<close>

lemma GenerateIDWithPrefix_Snowflake:
  "GenerateIDWithPrefix e prefix (Snowflake s) = map_option (\<lambda>(x, _, s'). (x, Snowflake s')) (GenerateWithPrefix prefix (ie_clock e) s)"
  by (simp add: GenerateIDWithPrefix_def IDGenerator_GenerateWithPrefix_def IDGenerator_Generate_def GenerateWithPrefix_def
      option.map_comp comp_def case_prod_beta)

section \<open>Generators of two processes\<close>

text \<open>Two generators that differ at most in node bits an identifier has no room for.\<close>

definition same_place :: "SnowflakeGenerator \<Rightarrow> SnowflakeGenerator \<Rightarrow> bool" where
  "same_place g h \<longleftrightarrow> sf_nodeID g mod 1024 = sf_nodeID h mod 1024 \<and> sf_sequence g = sf_sequence h \<and>
     sf_lastTime g = sf_lastTime h \<and> sf_epoch g = sf_epoch h"

lemma snowflake_id_node: "n mod 1024 = m mod 1024 \<Longrightarrow> snowflake_id age n q = snowflake_id age m q"
proof -
  have "word_of_int k AND 0x3FF = (word_of_int (k mod 1024) :: 64 word)" for k
  proof -
    have m: "(0x3FF :: 64 word) = mask 10" "k mod 1024 = take_bit 10 k" by (simp_all add: mask_eq_exp_minus_1 take_bit_eq_mod)
    show ?thesis unfolding m by (auto intro!: bit_eqI simp: bit_simps)
  qed
  then show "n mod 1024 = m mod 1024 \<Longrightarrow> ?thesis" by (simp add: snowflake_id_def)
qed

lemma same_place_Generate_num:
  "same_place g h \<Longrightarrow> rel_option (\<lambda>(x, c, g') (y, d, h'). x = y \<and> c = d \<and> same_place g' h') (Generate_num clock g) (Generate_num clock h)"
  unfolding same_place_def
  by (auto simp: Generate_num_def Let_def snowflake_id_node [of "sf_nodeID g" "sf_nodeID h"] split: list.split option.split prod.split)

lemma same_place_GenerateWithPrefix:
  "same_place g h \<Longrightarrow>
    rel_option (\<lambda>(x, c, g') (y, d, h'). x = y \<and> c = d \<and> same_place g' h') (GenerateWithPrefix p clock g) (GenerateWithPrefix p clock h)"
  using same_place_Generate_num [of g h clock]
  by (auto simp: GenerateWithPrefix_def Generate_def option_rel_Some1 elim!: option.rel_cases)

lemma same_place_run:
  "same_place g h \<Longrightarrow> map_option fst (Generate_run ps clock g) = map_option fst (Generate_run ps clock h)"
proof (induction ps arbitrary: clock g h)
  case (Cons p ps)
  from same_place_GenerateWithPrefix [OF Cons.prems, of p clock] show ?case
  proof (cases rule: option.rel_cases)
    case (Some r q)
    then obtain x c g' h' where "r = (x, c, g')" "q = (x, c, h')" "same_place g' h'" by (cases r; cases q) auto
    then show ?thesis using Some Cons.IH [of g' h' c] by (cases "Generate_run ps c g'"; cases "Generate_run ps c h'") auto
  qed simp
qed simp

text \<open>
  C33: Identifiers are unique within a process only.  Two processes on hosts whose digests of the hardware
  address agree in the last ten of the sixteen bits taken from it, as on one host or on hosts without a
  hardware address, issue the same identifiers, prefix and all, when their clocks give the same readings.
\<close>

theorem hosts_share_identifiers:
  assumes "GenerateNodeID md5 ifs1 mod 1024 = GenerateNodeID md5 ifs2 mod 1024"
  shows "\<exists>g h. globalGenerator md5 ifs1 = Snowflake g \<and> globalGenerator md5 ifs2 = Snowflake h \<and>
    map_option fst (Generate_run ps clock g) = map_option fst (Generate_run ps clock h)"
proof -
  have "same_place (NewSnowflakeGenerator (GenerateNodeID md5 ifs1)) (NewSnowflakeGenerator (GenerateNodeID md5 ifs2))"
    using assms by (simp add: same_place_def NewSnowflakeGenerator_def)
  then show ?thesis using same_place_run by (auto simp: globalGenerator_def)
qed

text \<open>Two hosts without a hardware address, in the same millisecond.\<close>

theorem hosts_share_identifiers_witness:
  "\<exists>g h. globalGenerator (\<lambda>_. replicate 16 9) (Inr []) = Snowflake g \<and> globalGenerator (\<lambda>_. replicate 16 9) (Inl (Error ''x'')) = Snowflake h \<and>
     map_option fst (Generate_run [''cmd''] [1704067200005] g) = map_option fst (Generate_run [''cmd''] [1704067200005] h)"
proof -
  have "GenerateNodeID (\<lambda>_. replicate 16 9) (Inr []) mod 1024 = GenerateNodeID (\<lambda>_. replicate 16 9) (Inl (Error ''x'')) mod 1024"
    by (simp add: GenerateNodeID_def GetMacAddress_def)
  from hosts_share_identifiers [OF this] show ?thesis .
qed

end
