(* ===== verification/Factory.thy ===== *)
theory Factory
  imports CendCodec
begin

text \<open>
  The message factory of \<^verbatim>\<open>internal/protocol/cend/codec.go\<close>: messages are reused through a pool, so a message is an
  address in a heap and the pool holds addresses.  Which address the pool hands out, or whether it makes a
  new message, is an argument.  As long as a holder releases a message at most once, no two holders have
  the same message; a second release breaks this.
\<close>

record MessageFactory =
  fa_heap :: "CodecMessage list"
  fa_pool :: "nat list"

definition NewMessageFactory :: MessageFactory where
  "NewMessageFactory = \<lparr>fa_heap = [], fa_pool = []\<rparr>"

text \<open>What the pool makes when it has nothing to give.\<close>

definition pooled_message :: CodecMessage where
  "pooled_message = \<lparr>cm_Header = Some \<lparr>hd_Magic = 0, hd_Version = 0, hd_Type = 0, hd_Seq = 0, hd_Timestamp = 0, hd_TraceId = []\<rparr>, cm_Body = None\<rparr>"

definition pool_get :: "nat \<Rightarrow> MessageFactory \<Rightarrow> nat \<times> MessageFactory" where
  "pool_get n f =
     (if n < length (fa_pool f) then (fa_pool f ! n, f\<lparr>fa_pool := take n (fa_pool f) @ drop (Suc n) (fa_pool f)\<rparr>)
      else (length (fa_heap f), f\<lparr>fa_heap := fa_heap f @ [pooled_message]\<rparr>))"

definition factory_CreateMessage :: "nat \<Rightarrow> int \<Rightarrow> int \<Rightarrow> uint64 \<Rightarrow> MessageFactory \<Rightarrow> nat \<times> MessageFactory" where
  "factory_CreateMessage n nowMillis msgType seq f =
     (let (msg, f1) = pool_get n f in (msg, f1\<lparr>fa_heap := (fa_heap f1)[msg := CreateMessage nowMillis msgType seq]\<rparr>))"

definition ReleaseMessage :: "nat option \<Rightarrow> MessageFactory \<Rightarrow> MessageFactory" where
  "ReleaseMessage msg f =
     (case msg of
        None \<Rightarrow> f
      | Some a \<Rightarrow> f\<lparr>fa_heap := (fa_heap f)[a := \<lparr>cm_Header = None, cm_Body = None\<rparr>], fa_pool := a # fa_pool f\<rparr>)"

text \<open>The factory together with the messages in use: who creates a message holds it until it releases it.\<close>

inductive factory_step :: "MessageFactory \<times> nat set \<Rightarrow> MessageFactory \<times> nat set \<Rightarrow> bool" where
  create: "factory_CreateMessage n nowMillis msgType seq f = (a, f') \<Longrightarrow> factory_step (f, held) (f', insert a held)"
| release: "a \<in> held \<Longrightarrow> factory_step (f, held) (ReleaseMessage (Some a) f, held - {a})"
| release_nil: "factory_step (f, held) (ReleaseMessage None f, held)"
| use: "a \<in> held \<Longrightarrow> factory_step (f, held) (f\<lparr>fa_heap := (fa_heap f)[a := m]\<rparr>, held)"

definition factory_ok :: "MessageFactory \<times> nat set \<Rightarrow> bool" where
  "factory_ok = (\<lambda>(f, held). distinct (fa_pool f) \<and> set (fa_pool f) \<inter> held = {} \<and> set (fa_pool f) \<union> held = {..<length (fa_heap f)})"

lemma take_drop_member:
  assumes "n < length xs" "distinct xs"
  shows "distinct (take n xs @ drop (Suc n) xs)" "set (take n xs @ drop (Suc n) xs) = set xs - {xs ! n}"
proof -
  have "xs = take n xs @ xs ! n # drop (Suc n) xs" by (rule id_take_nth_drop [OF assms(1)])
  then have "distinct (take n xs @ xs ! n # drop (Suc n) xs)" "set xs = set (take n xs @ xs ! n # drop (Suc n) xs)"
    using assms(2) by simp_all
  then show "distinct (take n xs @ drop (Suc n) xs)" "set (take n xs @ drop (Suc n) xs) = set xs - {xs ! n}" by auto
qed

lemma pool_get_ok:
  assumes "factory_ok (f, held)" "pool_get n f = (a, f1)"
  shows "a \<notin> held" "a < length (fa_heap f1)" "factory_ok (f1, insert a held)" "\<And>b. b \<in> held \<Longrightarrow> fa_heap f1 ! b = fa_heap f ! b"
proof -
  have ok: "distinct (fa_pool f)" "set (fa_pool f) \<inter> held = {}" "set (fa_pool f) \<union> held = {..<length (fa_heap f)}"
    using assms(1) by (simp_all add: factory_ok_def)
  have "a \<notin> held \<and> a < length (fa_heap f1) \<and> factory_ok (f1, insert a held) \<and> (\<forall>b \<in> held. fa_heap f1 ! b = fa_heap f ! b)"
  proof (cases "n < length (fa_pool f)")
    case True
    then have "fa_pool f ! n \<in> set (fa_pool f)" by simp
    then have "fa_pool f ! n \<notin> held" "fa_pool f ! n < length (fa_heap f)" using ok(2,3) by blast+
    then show ?thesis
      using assms(2) ok True take_drop_member [OF True ok(1)] by (auto simp: pool_get_def factory_ok_def)
  next
    case False
    have "b < length (fa_heap f)" if "b \<in> held" for b using ok(3) that by blast
    moreover have "b < length (fa_heap f)" if "b \<in> set (fa_pool f)" for b using ok(3) that by blast
    ultimately show ?thesis
      using assms(2) ok False by (auto simp: pool_get_def factory_ok_def nth_append less_SucI)
  qed
  then show "a \<notin> held" "a < length (fa_heap f1)" "factory_ok (f1, insert a held)" "\<And>b. b \<in> held \<Longrightarrow> fa_heap f1 ! b = fa_heap f ! b"
    by blast+
qed

lemma create_ok:
  assumes "factory_ok (f, held)" "factory_CreateMessage n nowMillis msgType seq f = (a, f')"
  shows "a \<notin> held" "factory_ok (f', insert a held)" "fa_heap f' ! a = CreateMessage nowMillis msgType seq"
    "\<And>b. b \<in> held \<Longrightarrow> fa_heap f' ! b = fa_heap f ! b"
proof -
  obtain f1 where g: "pool_get n f = (a, f1)" and f': "f' = f1\<lparr>fa_heap := (fa_heap f1)[a := CreateMessage nowMillis msgType seq]\<rparr>"
    using assms(2) by (auto simp: factory_CreateMessage_def Let_def split: prod.splits)
  note g = pool_get_ok [OF assms(1) g]
  show "a \<notin> held" "factory_ok (f', insert a held)" "fa_heap f' ! a = CreateMessage nowMillis msgType seq" using g f' by (simp_all add: factory_ok_def)
  show "fa_heap f' ! b = fa_heap f ! b" if "b \<in> held" for b using g(1,4) f' that by (cases "b = a") auto
qed

lemma factory_ok_step: "factory_step s t \<Longrightarrow> factory_ok s \<Longrightarrow> factory_ok t"
proof (induction rule: factory_step.induct)
  case (create n nowMillis msgType seq f a f' held)
  then show ?case using create_ok(2) by blast
qed (auto simp: factory_ok_def ReleaseMessage_def)

text \<open>
  Messages are not shared.  However holders create, fill and release messages, each releasing what it
  holds once, a created message is one that nobody holds, it carries the new header and no body, and the
  messages others hold are unchanged.
\<close>

theorem created_message_exclusive:
  assumes "factory_step\<^sup>*\<^sup>* (NewMessageFactory, {}) (f, held)" "factory_CreateMessage n nowMillis msgType seq f = (a, f')"
  shows "a \<notin> held \<and> fa_heap f' ! a = CreateMessage nowMillis msgType seq \<and> (\<forall>b \<in> held. fa_heap f' ! b = fa_heap f ! b)"
proof -
  have "factory_ok (NewMessageFactory, {})" by (simp add: factory_ok_def NewMessageFactory_def)
  with assms(1) have "factory_ok (f, held)" by (induction rule: rtranclp_induct) (auto intro: factory_ok_step)
  then show ?thesis using create_ok [OF _ assms(2)] by blast
qed

text \<open>A message released twice is handed out twice.\<close>

lemma released_twice_shared:
  assumes "fa_pool f = []" "a < length (fa_heap f)"
  shows "\<exists>f2 f3. factory_CreateMessage 0 t1 y1 q1 (ReleaseMessage (Some a) (ReleaseMessage (Some a) f)) = (a, f2) \<and>
    factory_CreateMessage 0 t2 y2 q2 f2 = (a, f3)"
  using assms by (simp add: factory_CreateMessage_def pool_get_def ReleaseMessage_def)

theorem created_message_exclusive_witness:
  "\<exists>f f'. factory_step\<^sup>*\<^sup>* (NewMessageFactory, {}) (f, {0}) \<and> factory_CreateMessage 0 5 3 7 f = (1, f') \<and>
     fa_heap f' ! 1 = CreateMessage 5 3 7"
proof -
  obtain f where f: "factory_CreateMessage 0 1 2 3 NewMessageFactory = (0, f)" "fa_pool f = []" "length (fa_heap f) = 1"
    by (simp add: factory_CreateMessage_def pool_get_def NewMessageFactory_def)
  have s: "factory_step\<^sup>*\<^sup>* (NewMessageFactory, {}) (f, {0})" using create [OF f(1), of "{}"] by auto
  obtain f' where f': "factory_CreateMessage 0 5 3 7 f = (1, f')" using f by (simp add: factory_CreateMessage_def pool_get_def)
  from created_message_exclusive [OF s f'] s f' show ?thesis by blast
qed

end
