(* ===== verification/Spec2Isabelle.thy ===== *)
theory Spec2Isabelle
  imports Mqttsn Tlv Config ShadowSpec CommandSpec Ids RateLimit Auth Kafka IotIO IotAck Datagrams Logger Views Listeners GlobalIds Factory
begin

text \<open>
  A verification development for dual-gateway, a Go gateway between charging piles and their users.

  \<^bold>\<open>The program.\<close>  Two servers run in one process.  The \<^emph>\<open>IoT gateway\<close> (\<^verbatim>\<open>internal/gateway/iot\<close>) speaks
  MQTT-SN with devices over UDP, DTLS and QUIC; the \<^emph>\<open>C-end gateway\<close> (\<^verbatim>\<open>internal/gateway/cend\<close>) speaks a
  protobuf protocol with users over WebSocket.  They meet in the \<^emph>\<open>device shadow\<close> (\<^verbatim>\<open>internal/shadow\<close>: the
  state of each pile, taken atomically before charging starts), the \<^emph>\<open>command queue\<close> (\<^verbatim>\<open>internal/command\<close>:
  commands that wait for a sleeping device) and Redis publications; both fall back to maps of their
  own when Redis is not reachable.  Around them are configuration, credentials, identifiers, rate
  limits and Kafka.

  \<^bold>\<open>Theories.\<close>
    \<^item> \<open>Prelude\<close>: failures as values (\<open>Error\<close> an error return, \<open>Panic\<close> a run-time panic), Go slices, big-endian
      words, strings and bytes, decimal printing, stream reads, and the order in which a Go map is visited.
      \<open>Floats\<close>: rounding to the \<^verbatim>\<open>float32\<close> and \<^verbatim>\<open>float64\<close> grids with exact rationals.
    \<^item> \<open>Mqttsn\<close>, \<open>Tlv\<close>, \<open>CendCodec\<close>: the wire formats, \<^verbatim>\<open>internal/protocol\<close>.  Round trips and where they fail,
      exact acceptance, no panics on any input.
    \<^item> \<open>Config\<close>, \<open>Ids\<close>, \<open>RateLimit\<close>, \<open>Auth\<close>, \<open>Kafka\<close>: \<^verbatim>\<open>internal/config\<close>, \<^verbatim>\<open>pkg/utils/id.go\<close>,
      \<^verbatim>\<open>internal/ratelimit\<close>, \<^verbatim>\<open>internal/auth\<close> with \<^verbatim>\<open>internal/security\<close>, \<^verbatim>\<open>internal/mq\<close>.  What loading
      guarantees, uniqueness and layout of identifiers with the spinning clock loop as recursion over
      the clock's readings, the bucket bound in floating point, the life of a token.
    \<^item> \<open>Redis\<close>: \<^verbatim>\<open>internal/redis/client.go\<close> over a record of Redis commands, with the laws relied on and a
      store that keeps them.
    \<^item> \<open>Shadow\<close> and \<open>CommandQueue\<close>: the two components with both implementations, the Lua scripts included.
      \<open>ShadowSpec\<close> and \<open>CommandSpec\<close> hold their contracts as locales (\<open>shadow_backend\<close>, \<open>command_queue\<close>),
      interpreted on the local maps and on the Redis store; exclusivity, versions, states, and that a
      command is accepted once and offered until it is confirmed follow for both.
    \<^item> \<open>IotServer\<close>: the IoT handlers, framing, queues and tickers over one state record.  \<open>IotSpec\<close>: the
      invariant of devices and sessions over all steps.  \<open>IotIO\<close>: what is written to devices and what the
      end of a stream does.
    \<^item> \<open>Cend\<close>: the C-end connection, handlers and server, with connections in a heap and a table of
      references.  \<open>CendSpec\<close>: only authenticated connections act, and the invariant of the connection
      table.  \<open>CendIO\<close>: frames, pushes to subscribers and the online table.
      \<open>CendCommands\<close>: commands of users over the contracts of shadow and queue in one store; what a charge
      request does, that of all requests for a device at most one is queued, and when a command panics.
      \<open>IotAck\<close>: what the device's answer does to queue, shadow and result channel.
    \<^item> \<open>Pools\<close>: the object pools of \<^verbatim>\<open>pkg/utils/pool.go\<close>, with the contract \<open>reset_pool\<close> that an object comes back as
      new.  \<open>Factory\<close>: the message factory of the C-end codec over a heap; no two holders share a message.
      \<open>Datagrams\<close>: \<^verbatim>\<open>iot/datagram.go\<close>; fragments are reassembled in any order of arrival, and where
      classification and compression lose data.
    \<^item> \<open>Admin\<close> and \<open>AdminVerify\<close>: \<^verbatim>\<open>internal/gateway/admin\<close>, the load-test tasks with their goroutines cut into
      steps and the acceptance run.  The task table stays consistent over all interleavings, the verdict is
      the one the cases give, and what the run passes without testing.
    \<^item> \<open>Logger\<close>: \<^verbatim>\<open>pkg/logger\<close>, with the arrays that derived loggers share.
    \<^item> \<open>Credentials\<close>: RSA keys of \<^verbatim>\<open>internal/auth/jwt.go\<close> and the certificate files of \<^verbatim>\<open>iot/quic_tls.go\<close> over a small file
      system; usable keys that stay, a pair that is made once and loads, and the ways making it fails for
      good.  \<open>Listeners\<close>: the QUIC and DTLS accept loops of \<^verbatim>\<open>iot/quic.go\<close> and \<^verbatim>\<open>iot/server.go\<close>, and the DTLS manager of
      \<^verbatim>\<open>internal/security/dtls.go\<close>.  \<open>GlobalIds\<close>: the process-wide generator of \<^verbatim>\<open>pkg/utils/id.go\<close> and what its
      identifiers are worth between processes.
    \<^item> \<open>Process\<close>: \<^verbatim>\<open>main/gateway/main.go\<close>, both gateways on one Redis package, from the command line to the end
      of the shutdown, as a step relation over the goroutines that have not returned: exactly when the
      process comes up, that with Redis the shutdown never completes, that without it every run of it ends.
      \<open>Modes\<close>: no step of either gateway changes the mode of the Redis package.  \<open>Views\<close>: the health endpoint
      and the console's views of counters, devices and configuration.
    \<^item> This theory: the path of a charge command from the user through both gateways to the device.

  \<^bold>\<open>Conventions.\<close>  A Go map is a function to options; a loop over a map takes the order as an argument,
  constrained by \<open>key_order\<close>.  A handler runs under its lock or on its own data, so it is one step, and
  runs interleave steps; where the source leaves a window between check and action the pieces are
  steps of their own.  A wait group is the set of the goroutines it counts, and waiting for it a step that is
  enabled when the set is empty.  One handler call reads the clock once.  Metrics are kept, log output is not.
  Integers that can wrap are words or written with \<open>wrap64\<close>; counters are integers.

  \<^bold>\<open>Parameters.\<close>  Redis, JSON, JWT and key parsing, SHA-256, protobuf, zlib, the Kafka writer and the
  transports are arguments: records of functions, outcomes of writes, received bytes.  What a property
  relies on is a named law (\<open>redis_hash_laws\<close>, \<open>redis_list_laws\<close>, \<open>quiet\<close>, \<open>cmd_json_law\<close>, \<open>jwt_pair\<close>,
  \<open>header_law\<close>, ...), and its witness instantiates it with a concrete function.

  \<^bold>\<open>Bounds.\<close>  Loops are structural recursions over lists or counters, so no fuel is needed: a wait takes
  the list of its pauses, the identifier generator the clock's readings, and both are shown to return.

  \<^bold>\<open>Not modelled.\<close>  The page of the console is a constant text, and the Prometheus exporter registers the
  counters with a library; the generated protobuf code appears through its structures only; the load
  tests, the examples and the debug tool are programs of their own.
\<close>

section \<open>From a user to a device\<close>

text \<open>
  The two gateways meet in the store: with Redis the queue an IoT server sees is the queue a C-end
  server filled.
\<close>

lemma shared_pending:
  assumes "stores_ok e s" "\<not> localMode (cs_redis s)" "queue_ok (cmd_state ei t)" "\<not> localMode (s_redis t)"
    and "e_ops ei = ce_ops e" "e_cj ei = ce_cj e" "store (s_redis t) = store (cs_redis s)"
  shows "pending (cmd_state ei t) = pending (queue_of e s)"
  using assms by (auto simp: pending_def cmd_state_def redis_cmds_def local_queue_def)

lemma trigger_writes:
  assumes "queue_ok (cmd_state ei t)" "connected_at t d ep" "\<And>n m. e_write ei n ep m = Inr ()"
    and "length (pending (cmd_state ei t) d) \<le> batch_of (cmd_state ei t)" "trig_DeviceID tr = d"
  shows "s_writes (cmdTrigger_step ei tr t) =
    s_writes t @ map (\<lambda>m. (ep, m, True)) (map (cmd_frame d) (pending (cmd_state ei t) d))"
proof -
  have "fst (Fetch (e_ops ei) (e_cj ei) d 0 (s_CmdQueue t, s_redis t)) = Inr (fst (fetch_op d 0 (cmd_state ei t)))"
    using Fetch_queue_ok [OF assms(1) [unfolded cmd_state_def], of d 0] by (simp add: cmd_state_def)
  from writes_dispatch [OF assms(2) this] show ?thesis
    using fetch_pending [OF assms(1), of d 0] assms(4,5) attempts_all_ok [of ei ep, OF assms(3)] by (simp add: cmdTrigger_step_def)
qed

text \<open>
  C2: End to end with Redis.  A user's \<^verbatim>\<open>charge.start\<close> that takes the device is announced on the
  command channel, and an IoT gateway on the same store that has the device connected answers the
  announcement by writing the device's waiting commands to it, the new one last; when it fits a
  packet, what the device decodes is the identifier, the charge command, and the parameters with the
  authenticated user and the version of the shadow.
\<close>

theorem charge_reaches_device:
  assumes "stores_ok e s" "\<not> localMode (cs_redis s)" "bm_Type msg = ''charge.start''" "bm_To msg = d" "d \<noteq> []"
    and "command_params (ce_json e) msg = Some p" "\<not> cmd_seen (queue_of e s) (ce_cid e)" "takes e s d"
    and "handleDeviceCommand e c h msg s = (r, s')"
    and "queue_ok (cmd_state ei t)" "\<not> localMode (s_redis t)" "e_ops ei = ce_ops e" "e_cj ei = ce_cj e"
    and "store (s_redis t) = store (cs_redis s')" "connected_at t d ep" "\<And>n m. e_write ei n ep m = Inr ()"
    and "length (pending (queue_of e s) d) < batch_of (cmd_state ei t)"
  defines "params \<equiv> cj_marshal (ce_json e) (p(''user_id'' \<mapsto> JStr (cn_UserID (cs_heap s ! c)),
    ''shadow_version'' \<mapsto> JInt (snd (shadow_look (shadow_of e s) d) + 1)))"
  shows "\<exists>tr frame. last (published (cs_redis s')) = (CmdChannel, TriggerMsg tr) \<and>
    s_writes (cmdTrigger_step ei tr t) =
      s_writes t @ map (\<lambda>k. (ep, cmd_frame d k, True)) (pending (queue_of e s) d) @ [(ep, frame, True)] \<and>
    (length d + length (ce_cid e) + length params \<le> 250 \<longrightarrow> (\<exists>body. ParseMessage frame = Inr (CMD, body) \<and>
      DecodeCmd body = Inr (d, ce_cid e, CmdTypeChargeStart, to_bytes params)))"
proof -
  let ?tr = "\<lparr>trig_DeviceID = d, trig_CmdID = ce_cid e, trig_CmdType = ''charge.start''\<rparr>"
  note acc = charge_accepted [OF assms(1,3) _ assms(6,7) _ assms(9), unfolded assms(4), OF assms(5,8), folded params_def]
  obtain k xs where s': "stores_ok e s'" "\<not> localMode (cs_redis s')" "published (cs_redis s') = xs @ [(CmdChannel, TriggerMsg ?tr)]"
      "pending (queue_of e s') d = pending (queue_of e s) d @ [k]"
    and k: "cmd_CmdID k = ce_cid e" "cmd_Type k = ''charge.start''" "cmd_Params k = params"
    using acc assms(2) by auto
  have pend: "pending (cmd_state ei t) d = pending (queue_of e s) d @ [k]"
    using shared_pending [OF s'(1,2) assms(10-14)] s'(4) by simp
  then have "s_writes (cmdTrigger_step ei ?tr t) = s_writes t @ map (\<lambda>m. (ep, m, True)) (map (cmd_frame d) (pending (queue_of e s) d @ [k]))"
    using trigger_writes [OF assms(10,15,16), of ?tr] assms(17) by simp
  moreover have "length d + length (ce_cid e) + length params \<le> 250 \<longrightarrow> (\<exists>body. ParseMessage (cmd_frame d k) = Inr (CMD, body) \<and>
      DecodeCmd body = Inr (d, ce_cid e, CmdTypeChargeStart, to_bytes params))"
    using cmd_frame_decodes [of d k] k by (simp add: CmdTypeToByte_def)
  ultimately show ?thesis using s'(3) by (intro exI [of _ ?tr] exI [of _ "cmd_frame d k"]) auto
qed

text \<open>Two small gateways on one store: the device is connected to one, its user to the other.\<close>

theorem charge_reaches_device_witness:
  "let e = small_cenv ''cmd-1'' 0; s = small_cend [small_conn ''a'' ''u''] (empty_redis False);
       s' = snd (handleDeviceCommand e 0 small_header charge_message s);
       t = connected_server\<lparr>s_CmdQueue := NewQueue (cfg_Shadow DefaultConfig), s_redis := cs_redis s'\<rparr>
   in \<exists>tr frame. last (published (cs_redis s')) = (CmdChannel, TriggerMsg tr) \<and>
     s_writes (cmdTrigger_step (small_env ''S1'' 7) tr t) = s_writes t @ [(small_endpoint, frame, True)]"
proof -
  let ?e = "small_cenv ''cmd-1'' 0" and ?s = "small_cend [small_conn ''a'' ''u''] (empty_redis False)"
  let ?q = "NewQueue (cfg_Shadow DefaultConfig)" and ?ei = "small_env ''S1'' 7"
  obtain r s' where h: "handleDeviceCommand ?e 0 small_header charge_message ?s = (r, s')" by fastforce
  let ?t = "connected_server\<lparr>s_CmdQueue := ?q, s_redis := cs_redis s'\<rparr>"
  have n: "\<not> cmd_seen (queue_of ?e ?s) (ce_cid ?e)" and l: "\<not> localMode (cs_redis ?s)" and emp: "pending (queue_of ?e ?s) ''dev'' = []"
    by (simp_all add: cmd_seen_def local_queue_def redis_seen_def pending_def redis_cmds_def small_cend_def small_cenv_def empty_redis_def
        map_redis_sel ms_empty_def)
  have acc: "stores_ok ?e s' \<and> \<not> localMode (cs_redis s')"
    using charge_accepted [OF small_stores_ok charge_message_fields(1) _ charge_message_fields(3) n _ h] small_takes [of "''cmd-1''" 0] l
    by (auto simp: charge_message_fields(2))
  have q: "q_enabled ?q" "q_maxBatch ?q = 10" by (simp_all add: NewQueue_def DefaultConfig_def)
  have ok: "queue_ok (cmd_state ?ei ?t)"
    using acc q by (auto simp: stores_ok_def queue_ok_def local_queue_def redis_queue_def cmd_state_def small_cenv_def small_env_def)
  have conn: "connected_at ?t ''dev'' small_endpoint"
    using loaded_connected [of "(map_redis, net_json, ?q, cs_redis s')"] by (simp add: loaded_server_def)
  show ?thesis
    using charge_reaches_device [OF small_stores_ok l charge_message_fields(1,2) _ charge_message_fields(3) n small_takes h ok _ _ _ _ conn]
      acc q h emp
    by (simp add: Let_def batch_of_def cmd_state_def) (auto simp: small_env_def small_cenv_def)
qed

end
